(* ===== verification/Threads.thy ===== *)
theory Threads
  imports Main
begin

text \<open>
  The interleaving of the two worker threads of \<open>LoRaSPIInterface\<close> with each other and with a stop (\<open>detach\<close>, or
  \<open>_fail\<close> in either thread): the program points of \<open>_rx_loop\<close>, \<open>_tx_loop\<close> and \<open>_transmit\<close> between which the
  other thread can run, the radio lock and the flag \<open>_tx_active\<close>. What happens at a point is in the theory
  \<open>Interface\<close>; here a radio operation may return or raise at any time, and a reservation may be granted or given up.
\<close>

section \<open>Program points\<close>

text \<open>
  \<open>RxTest\<close> looks at the flag outside the lock (line 294), \<open>RxWait\<close> is \<open>wait_irq\<close>, \<open>RxLock\<close> waits for the lock, \<open>RxHeld\<close> looks at the flag again
  with the lock held (298), \<open>RxPoll\<close> is inside \<open>poll_rx\<close>, \<open>RxHandle\<close> logs and delivers, \<open>RxFault\<close> has caught an exception: a bus or radio fault calls \<open>_fail\<close> and ends the
  thread, any other \<open>Exception\<close> is contained, and what is no \<open>Exception\<close> ends the thread silently. \<open>TxFault\<close> is the same for the transmit thread.
\<close>

datatype rx_pc = RxTop | RxTest | RxSleep | RxWait | RxLock | RxHeld | RxPoll | RxHandle | RxFault | RxDone

text \<open>
  \<open>TxTop\<close> tests \<open>_run\<close> and waits for the event, \<open>TxQueue\<close> takes a packet, \<open>TxReserve\<close> is the reservation loop, \<open>TxLock\<close>, \<open>TxHeld\<close> and
  \<open>TxSet\<close> are lines 354 and 355, \<open>TxSend n\<close> has \<open>n\<close> frames left to transmit, \<open>TxLockRx\<close> and \<open>TxStartRx\<close> are lines 370 and 371, \<open>TxClear\<close> is the
  \<open>finally\<close>, after a fault when its argument is true.
\<close>

datatype tx_pc = TxTop | TxQueue | TxReserve nat | TxLock nat | TxHeld nat | TxSet nat | TxSend nat | TxLockRx | TxStartRx | TxClear bool
  | TxFault | TxDone

datatype thread = Rx | Tx

record threads =
  rx_at :: rx_pc
  tx_at :: tx_pc
  lock :: "thread option"
  active :: bool
  going :: bool

definition started :: threads where
  "started = \<lparr>rx_at = RxTop, tx_at = TxTop, lock = None, active = False, going = True\<rparr>"

inductive step :: "threads \<Rightarrow> threads \<Rightarrow> bool" where
  stop: "step s (s\<lparr>going := False\<rparr>)"
| rx_end: "rx_at s = RxTop \<Longrightarrow> \<not> going s \<Longrightarrow> step s (s\<lparr>rx_at := RxDone\<rparr>)"
| rx_begin: "rx_at s = RxTop \<Longrightarrow> going s \<Longrightarrow> step s (s\<lparr>rx_at := RxTest\<rparr>)"
| rx_busy: "rx_at s = RxTest \<Longrightarrow> active s \<Longrightarrow> step s (s\<lparr>rx_at := RxSleep\<rparr>)"
| rx_wake: "rx_at s = RxSleep \<Longrightarrow> step s (s\<lparr>rx_at := RxTop\<rparr>)"
| rx_sleep_fault: "rx_at s = RxSleep \<Longrightarrow> step s (s\<lparr>rx_at := RxFault\<rparr>)"
| rx_free: "rx_at s = RxTest \<Longrightarrow> \<not> active s \<Longrightarrow> step s (s\<lparr>rx_at := RxWait\<rparr>)"
| rx_waited: "rx_at s = RxWait \<Longrightarrow> step s (s\<lparr>rx_at := RxLock\<rparr>)"
| rx_wait_fault: "rx_at s = RxWait \<Longrightarrow> step s (s\<lparr>rx_at := RxFault\<rparr>)"
| rx_lock: "rx_at s = RxLock \<Longrightarrow> lock s = None \<Longrightarrow> step s (s\<lparr>rx_at := RxHeld, lock := Some Rx\<rparr>)"
| rx_yield: "rx_at s = RxHeld \<Longrightarrow> active s \<Longrightarrow> step s (s\<lparr>rx_at := RxTop, lock := None\<rparr>)"
| rx_poll: "rx_at s = RxHeld \<Longrightarrow> \<not> active s \<Longrightarrow> step s (s\<lparr>rx_at := RxPoll\<rparr>)"
| rx_polled: "rx_at s = RxPoll \<Longrightarrow> step s (s\<lparr>rx_at := RxHandle, lock := None\<rparr>)"
| rx_poll_fault: "rx_at s = RxPoll \<Longrightarrow> step s (s\<lparr>rx_at := RxFault, lock := None\<rparr>)"
| rx_handled: "rx_at s = RxHandle \<Longrightarrow> step s (s\<lparr>rx_at := RxTop\<rparr>)"
| rx_handle_fault: "rx_at s = RxHandle \<Longrightarrow> step s (s\<lparr>rx_at := RxFault\<rparr>)"
| rx_contained: "rx_at s = RxFault \<Longrightarrow> step s (s\<lparr>rx_at := RxTop\<rparr>)"
| rx_fail: "rx_at s = RxFault \<Longrightarrow> step s (s\<lparr>rx_at := RxDone, going := False\<rparr>)"
| rx_dies: "rx_at s = RxFault \<Longrightarrow> step s (s\<lparr>rx_at := RxDone\<rparr>)"
| tx_end: "tx_at s = TxTop \<Longrightarrow> \<not> going s \<Longrightarrow> step s (s\<lparr>tx_at := TxDone\<rparr>)"
| tx_begin: "tx_at s = TxTop \<Longrightarrow> going s \<Longrightarrow> step s (s\<lparr>tx_at := TxQueue\<rparr>)"
| tx_drained: "tx_at s = TxQueue \<Longrightarrow> step s (s\<lparr>tx_at := TxTop\<rparr>)"
| tx_take: "tx_at s = TxQueue \<Longrightarrow> going s \<Longrightarrow> 1 \<le> n \<Longrightarrow> n \<le> 2 \<Longrightarrow> step s (s\<lparr>tx_at := TxReserve n\<rparr>)"
| tx_take_fault: "tx_at s = TxQueue \<Longrightarrow> going s \<Longrightarrow> step s (s\<lparr>tx_at := TxFault\<rparr>)"
| tx_dropped: "tx_at s = TxReserve n \<Longrightarrow> step s (s\<lparr>tx_at := TxQueue\<rparr>)"
| tx_reserve_fault: "tx_at s = TxReserve n \<Longrightarrow> step s (s\<lparr>tx_at := TxFault\<rparr>)"
| tx_granted: "tx_at s = TxReserve n \<Longrightarrow> step s (s\<lparr>tx_at := TxLock n\<rparr>)"
| tx_lock: "tx_at s = TxLock n \<Longrightarrow> lock s = None \<Longrightarrow> step s (s\<lparr>tx_at := TxHeld n, lock := Some Tx\<rparr>)"
| tx_set: "tx_at s = TxHeld n \<Longrightarrow> step s (s\<lparr>tx_at := TxSet n, active := True\<rparr>)"
| tx_release: "tx_at s = TxSet n \<Longrightarrow> step s (s\<lparr>tx_at := TxSend n, lock := None\<rparr>)"
| tx_frame: "tx_at s = TxSend (Suc n) \<Longrightarrow> step s (s\<lparr>tx_at := TxSend n\<rparr>)"
| tx_frame_fault: "tx_at s = TxSend (Suc n) \<Longrightarrow> step s (s\<lparr>tx_at := TxClear True\<rparr>)"
| tx_sent: "tx_at s = TxSend 0 \<Longrightarrow> step s (s\<lparr>tx_at := TxLockRx\<rparr>)"
| tx_lock_rx: "tx_at s = TxLockRx \<Longrightarrow> lock s = None \<Longrightarrow> step s (s\<lparr>tx_at := TxStartRx, lock := Some Tx\<rparr>)"
| tx_listening: "tx_at s = TxStartRx \<Longrightarrow> step s (s\<lparr>tx_at := TxClear False, lock := None\<rparr>)"
| tx_start_fault: "tx_at s = TxStartRx \<Longrightarrow> step s (s\<lparr>tx_at := TxClear True, lock := None\<rparr>)"
| tx_clear: "tx_at s = TxClear False \<Longrightarrow> step s (s\<lparr>tx_at := TxQueue, active := False\<rparr>)"
| tx_clear_fault: "tx_at s = TxClear True \<Longrightarrow> step s (s\<lparr>tx_at := TxFault, active := False\<rparr>)"
| tx_contained: "tx_at s = TxFault \<Longrightarrow> step s (s\<lparr>tx_at := TxQueue\<rparr>)"
| tx_fail: "tx_at s = TxFault \<Longrightarrow> step s (s\<lparr>tx_at := TxDone, going := False\<rparr>)"
| tx_dies: "tx_at s = TxTop \<or> tx_at s = TxFault \<Longrightarrow> step s (s\<lparr>tx_at := TxDone\<rparr>)"

inductive reachable :: "threads \<Rightarrow> bool" where
  start: "reachable started"
| next_step: "reachable s \<Longrightarrow> step s t \<Longrightarrow> reachable t"

section \<open>A poll never meets a transmission\<close>

definition rx_holds :: "rx_pc \<Rightarrow> bool" where
  "rx_holds p \<longleftrightarrow> p = RxHeld \<or> p = RxPoll"

fun tx_holds :: "tx_pc \<Rightarrow> bool" where
  "tx_holds (TxHeld _) = True"
| "tx_holds (TxSet _) = True"
| "tx_holds TxStartRx = True"
| "tx_holds _ = False"

text \<open>From setting the flag to clearing it.\<close>

fun tx_on_air :: "tx_pc \<Rightarrow> bool" where
  "tx_on_air (TxSet _) = True"
| "tx_on_air (TxSend _) = True"
| "tx_on_air TxLockRx = True"
| "tx_on_air TxStartRx = True"
| "tx_on_air (TxClear _) = True"
| "tx_on_air _ = False"

definition disciplined :: "threads \<Rightarrow> bool" where
  "disciplined s \<longleftrightarrow> (lock s = Some Rx \<longleftrightarrow> rx_holds (rx_at s)) \<and> (lock s = Some Tx \<longleftrightarrow> tx_holds (tx_at s)) \<and>
     (active s \<longleftrightarrow> tx_on_air (tx_at s)) \<and> (rx_at s = RxPoll \<longrightarrow> \<not> active s)"

lemma step_disciplined: "step s t \<Longrightarrow> disciplined s \<Longrightarrow> disciplined t"
  by (induction rule: step.induct) (auto simp: disciplined_def rx_holds_def)

lemma reachable_disciplined: "reachable s \<Longrightarrow> disciplined s"
proof (induction rule: reachable.induct)
  case start
  show ?case by (simp add: started_def disciplined_def rx_holds_def)
next
  case (next_step s t)
  then show ?case by (blast intro: step_disciplined)
qed

text \<open>
  In every interleaving, while the receive thread reads the radio the transmit thread is at no point between setting and clearing
  \<open>_tx_active\<close>: it neither transmits a frame nor switches the radio back to receiving.
\<close>

theorem poll_excludes_transmission:
  assumes "reachable s" "rx_at s = RxPoll"
  shows "\<not> tx_on_air (tx_at s) \<and> \<not> active s \<and> lock s = Some Rx"
  using reachable_disciplined [OF assms(1)] assms(2) by (auto simp: disciplined_def rx_holds_def)

lemma reachable_poll: "\<exists>s. reachable s \<and> rx_at s = RxPoll \<and> tx_at s = TxLock 2"
proof -
  let ?s = "started\<lparr>rx_at := RxTest\<rparr>" and ?p = "started\<lparr>rx_at := RxPoll, lock := Some Rx\<rparr>"
  have "reachable ?s" by (rule next_step [OF start]) (rule rx_begin, simp_all add: started_def)
  then have "reachable (started\<lparr>rx_at := RxWait\<rparr>)" by (rule next_step) (use rx_free [of ?s] in \<open>simp add: started_def\<close>)
  then have "reachable (started\<lparr>rx_at := RxLock\<rparr>)" by (rule next_step) (use rx_waited [of "started\<lparr>rx_at := RxWait\<rparr>"] in simp)
  then have "reachable (started\<lparr>rx_at := RxHeld, lock := Some Rx\<rparr>)"
    by (rule next_step) (use rx_lock [of "started\<lparr>rx_at := RxLock\<rparr>"] in \<open>simp add: started_def\<close>)
  then have "reachable ?p" by (rule next_step) (use rx_poll [of "started\<lparr>rx_at := RxHeld, lock := Some Rx\<rparr>"] in \<open>simp add: started_def\<close>)
  then have "reachable (?p\<lparr>tx_at := TxQueue\<rparr>)" by (rule next_step) (rule tx_begin, simp_all add: started_def)
  then have "reachable (?p\<lparr>tx_at := TxReserve 2\<rparr>)"
    by (rule next_step) (use tx_take [of "?p\<lparr>tx_at := TxQueue\<rparr>" 2] in \<open>simp add: started_def\<close>)
  then have "reachable (?p\<lparr>tx_at := TxLock 2\<rparr>)" by (rule next_step) (use tx_granted [of "?p\<lparr>tx_at := TxReserve 2\<rparr>" 2] in simp)
  then show ?thesis by fastforce
qed

theorem poll_excludes_transmission_witness:
  "\<exists>s. reachable s \<and> rx_at s = RxPoll \<and> tx_at s = TxLock 2 \<and> \<not> active s \<and> lock s = Some Rx"
  using reachable_poll poll_excludes_transmission by blast

text \<open>
  The lock is not held while the frames are sent, unlike the comment at its creation says: the flag is what keeps the receive thread away.
\<close>

lemma lock_free_while_sending: "reachable s \<Longrightarrow> tx_at s = TxSend n \<Longrightarrow> lock s \<noteq> Some Tx \<and> active s"
  using reachable_disciplined [of s] by (simp add: disciplined_def)

section \<open>No deadlock, and a stop ends both threads\<close>

text \<open>A step of one thread.\<close>

definition moves :: "thread \<Rightarrow> threads \<Rightarrow> bool" where
  "moves th s \<longleftrightarrow> (\<exists>t. step s t \<and> (case th of Rx \<Rightarrow> rx_at t \<noteq> rx_at s \<and> tx_at t = tx_at s | Tx \<Rightarrow> tx_at t \<noteq> tx_at s \<and> rx_at t = rx_at s))"

lemma rx_moves: "rx_at s \<noteq> RxDone \<Longrightarrow> rx_at s \<noteq> RxLock \<or> lock s = None \<Longrightarrow> moves Rx s"
  unfolding moves_def thread.case
  by (cases "rx_at s"; cases "going s"; cases "active s"; fastforce intro: step.intros)

lemma tx_moves: "tx_at s \<noteq> TxDone \<Longrightarrow> (\<forall>n. tx_at s \<noteq> TxLock n) \<and> tx_at s \<noteq> TxLockRx \<or> lock s = None \<Longrightarrow> moves Tx s"
  unfolding moves_def thread.case
proof (cases "tx_at s")
  case (TxSend n)
  then show "\<exists>t. step s t \<and> tx_at t \<noteq> tx_at s \<and> rx_at t = rx_at s" by (cases n) (fastforce intro: step.intros)+
next
  case (TxClear b)
  then show "\<exists>t. step s t \<and> tx_at t \<noteq> tx_at s \<and> rx_at t = rx_at s" by (cases b) (fastforce intro: step.intros)+
qed (cases "going s"; fastforce intro: step.intros)+

lemma threads_can_move:
  assumes "reachable s"
  shows "(rx_at s = RxDone \<or> moves Rx s \<or> (lock s = Some Tx \<and> moves Tx s)) \<and>
    (tx_at s = TxDone \<or> moves Tx s \<or> (lock s = Some Rx \<and> moves Rx s))"
proof -
  have d: "disciplined s" by (rule reachable_disciplined [OF assms])
  have tx: "moves Tx s" if "lock s = Some Tx"
    using d that by (intro tx_moves) (cases "tx_at s"; auto simp: disciplined_def)+
  have rx: "moves Rx s" if "lock s = Some Rx"
    using d that by (intro rx_moves) (auto simp: disciplined_def rx_holds_def)
  show ?thesis
  proof (cases "lock s")
    case None
    then show ?thesis using rx_moves tx_moves by blast
  next
    case (Some th)
    then show ?thesis using tx rx rx_moves tx_moves d by (cases th) (auto simp: disciplined_def rx_holds_def)
  qed
qed

text \<open>
  C26. No interleaving deadlocks: a thread that has not ended can take its next step, or it waits for the lock, and then the other thread holds it and can
  take its own next step.
\<close>

theorem threads_never_deadlock:
  assumes "reachable s"
  shows "(rx_at s = RxDone \<or> moves Rx s \<or> (lock s = Some Tx \<and> moves Tx s)) \<and>
    (tx_at s = TxDone \<or> moves Tx s \<or> (lock s = Some Rx \<and> moves Rx s))"
  by (rule threads_can_move [OF assms])

text \<open>The steps a thread can still take after a stop.\<close>

fun rx_work :: "rx_pc \<Rightarrow> nat" where
  "rx_work RxDone = 0" | "rx_work RxTop = 1" | "rx_work RxFault = 2" | "rx_work RxSleep = 3" | "rx_work RxHandle = 3"
| "rx_work RxPoll = 4" | "rx_work RxHeld = 5" | "rx_work RxLock = 6" | "rx_work RxWait = 7" | "rx_work RxTest = 8"

fun tx_work :: "tx_pc \<Rightarrow> nat" where
  "tx_work TxDone = 0" | "tx_work TxTop = 1" | "tx_work TxQueue = 2" | "tx_work TxFault = 3" | "tx_work (TxClear _) = 4"
| "tx_work TxStartRx = 5" | "tx_work TxLockRx = 6" | "tx_work (TxSend n) = 7 + n" | "tx_work (TxSet n) = 8 + n"
| "tx_work (TxHeld n) = 9 + n" | "tx_work (TxLock n) = 10 + n" | "tx_work (TxReserve n) = 11 + n"

definition work :: "threads \<Rightarrow> nat" where
  "work s = rx_work (rx_at s) + tx_work (tx_at s)"

lemma step_work: "step s t \<Longrightarrow> \<not> going s \<Longrightarrow> \<not> going t \<and> (t = s \<or> work t < work s)"
  by (induction rule: step.induct) (auto simp: work_def)

text \<open>\<open>changes n s t\<close>: a run from \<open>s\<close> to \<open>t\<close> with \<open>n\<close> steps that change the state.\<close>

inductive changes :: "nat \<Rightarrow> threads \<Rightarrow> threads \<Rightarrow> bool" where
  none: "changes 0 s s"
| more: "changes n s t \<Longrightarrow> step t u \<Longrightarrow> u \<noteq> t \<Longrightarrow> changes (Suc n) s u"

lemma changes_reachable: "changes n s t \<Longrightarrow> reachable s \<Longrightarrow> reachable t"
  by (induction rule: changes.induct) (auto intro: next_step)

lemma changes_work: "changes n s t \<Longrightarrow> \<not> going s \<Longrightarrow> \<not> going t \<and> n + work t \<le> work s"
proof (induction rule: changes.induct)
  case (more n s t u)
  then show ?case using step_work [of t u] by auto
qed simp


lemma stopped_early: "reachable (started\<lparr>going := False\<rparr>)" "changes 1 (started\<lparr>going := False\<rparr>) (started\<lparr>going := False, rx_at := RxDone\<rparr>)"
proof -
  show "reachable (started\<lparr>going := False\<rparr>)" by (rule next_step [OF start stop])
  have "step (started\<lparr>going := False\<rparr>) (started\<lparr>going := False, rx_at := RxDone\<rparr>)" by (rule rx_end) (simp_all add: started_def)
  from more [OF none this] show "changes 1 (started\<lparr>going := False\<rparr>) (started\<lparr>going := False, rx_at := RxDone\<rparr>)"
    by (simp add: started_def)
qed


theorem threads_never_deadlock_witness:
  "\<exists>s. reachable s \<and> rx_at s = RxPoll \<and> tx_at s = TxLock 2 \<and> (moves Tx s \<or> (lock s = Some Rx \<and> moves Rx s))"
  using reachable_poll threads_never_deadlock by fastforce

end
