(* ===== verification/Py_Prelude.thy ===== *)
theory Py_Prelude
  imports Complex_Main "HOL-Library.Word"
begin

text \<open>
  The prelude of the development: Python's exceptions as values, the effect type
  \<open>('s, 'a) py\<close> of a method that reads and writes an object state, may raise and may
  not return, its combinators (\<open>bindM\<close>, \<open>seqM\<close>, \<open>try_finally\<close>, \<open>try_except\<close>,
  \<open>loopM\<close>) and the rules by which the component theories prove invariants
  (\<open>keeps\<close>) and termination (\<open>tkeeps\<close>) of their methods.
\<close>

unbundle bit_operations_syntax

section \<open>Values shared by the components\<close>

type_synonym byte = "8 word"

datatype errno = EAGAIN | EACCES | EINTR | EINVAL | ENOTTY | EOPNOTSUPP | ENOENT | EEXIST | EOther nat

text \<open>
  The exceptions the program raises or handles. A message keeps its fixed part only.
  \<open>FileNotFoundError\<close> is \<open>OSError ENOENT\<close>, \<open>FileExistsError\<close> \<open>OSError EEXIST\<close>,
  \<open>InterruptedError\<close> \<open>OSError EINTR\<close>; \<open>OtherError\<close> is any exception of a
  third-party call.
\<close>

datatype exn =
    ValueError string | TypeError | KeyError | IndexError | OverflowError | ZeroDivisionError
  | OSError errno | ProfileError string | SpiBusError string | RadioError string
  | DutyError string | SubprocessError | OtherError | SystemExit int | KeyboardInterrupt

fun is_SpiBusError :: "exn \<Rightarrow> bool" where
  "is_SpiBusError (SpiBusError _) = True"
| "is_SpiBusError _ = False"

fun is_RadioError :: "exn \<Rightarrow> bool" where
  "is_RadioError (RadioError _) = True"
| "is_RadioError _ = False"

fun is_DutyError :: "exn \<Rightarrow> bool" where
  "is_DutyError (DutyError _) = True"
| "is_DutyError _ = False"

fun is_OSError :: "exn \<Rightarrow> bool" where
  "is_OSError (OSError _) = True"
| "is_OSError _ = False"

text \<open>\<open>ProfileError\<close> is a subclass of \<open>ValueError\<close>.\<close>

fun is_ValueError :: "exn \<Rightarrow> bool" where
  "is_ValueError (ValueError _) = True"
| "is_ValueError (ProfileError _) = True"
| "is_ValueError _ = False"

text \<open>\<open>except Exception\<close>: everything but \<open>SystemExit\<close> and \<open>KeyboardInterrupt\<close>.\<close>

fun is_Exception :: "exn \<Rightarrow> bool" where
  "is_Exception (SystemExit _) = False"
| "is_Exception KeyboardInterrupt = False"
| "is_Exception _ = True"

section \<open>Pure code that may raise\<close>

definition bindE :: "exn + 'a \<Rightarrow> ('a \<Rightarrow> exn + 'b) \<Rightarrow> exn + 'b" where
  "bindE m f = (case m of Inl e \<Rightarrow> Inl e | Inr x \<Rightarrow> f x)"

lemma bindE_simps [simp]:
  "bindE (Inl e) f = Inl e"
  "bindE (Inr x) f = f x"
  by (simp_all add: bindE_def)

lemma bindE_Inr_iff: "bindE m f = Inr y \<longleftrightarrow> (\<exists>x. m = Inr x \<and> f x = Inr y)"
  by (cases m) auto

lemma bindE_Inl_iff: "bindE m f = Inl e \<longleftrightarrow> m = Inl e \<or> (\<exists>x. m = Inr x \<and> f x = Inl e)"
  by (cases m) auto

text \<open>A list comprehension whose body may raise.\<close>

fun mapE :: "('a \<Rightarrow> exn + 'b) \<Rightarrow> 'a list \<Rightarrow> exn + 'b list" where
  "mapE f [] = Inr []"
| "mapE f (x # xs) = bindE (f x) (\<lambda>y. bindE (mapE f xs) (\<lambda>ys. Inr (y # ys)))"

lemma mapE_Inr_iff:
  "mapE f xs = Inr ys \<longleftrightarrow> list_all2 (\<lambda>x y. f x = Inr y) xs ys"
  by (induction xs arbitrary: ys) (auto simp: bindE_Inr_iff list_all2_Cons1)

lemma mapE_cong [fundef_cong]:
  "xs = ys \<Longrightarrow> (\<And>x. x \<in> set ys \<Longrightarrow> f x = g x) \<Longrightarrow> mapE f xs = mapE g ys"
  by (induction xs arbitrary: ys) auto

lemma mapE_total: "(\<And>x. x \<in> set xs \<Longrightarrow> f x = Inr (g x)) \<Longrightarrow> mapE f xs = Inr (map g xs)"
  by (induction xs) auto

section \<open>Methods: state, exceptions and non-termination\<close>

text \<open>
  A method maps the state to \<open>Some\<close> of its outcome (a raised exception or a value)
  and the state it leaves; a raised exception keeps the effects made before it, as
  in Python. \<open>None\<close> is a call that never returns.
\<close>

type_synonym ('s, 'a) py = "'s \<Rightarrow> ((exn + 'a) \<times> 's) option"

definition ret :: "'a \<Rightarrow> ('s, 'a) py" where
  "ret x = (\<lambda>s. Some (Inr x, s))"

definition raise :: "exn \<Rightarrow> ('s, 'a) py" where
  "raise e = (\<lambda>s. Some (Inl e, s))"

definition getM :: "('s \<Rightarrow> 'a) \<Rightarrow> ('s, 'a) py" where
  "getM f = (\<lambda>s. Some (Inr (f s), s))"

definition modM :: "('s \<Rightarrow> 's) \<Rightarrow> ('s, unit) py" where
  "modM f = (\<lambda>s. Some (Inr (), f s))"

text \<open>A pure computation that may raise, as a method.\<close>

definition ofE :: "exn + 'a \<Rightarrow> ('s, 'a) py" where
  "ofE r = (\<lambda>s. Some (r, s))"

definition bindM :: "('s, 'a) py \<Rightarrow> ('a \<Rightarrow> ('s, 'b) py) \<Rightarrow> ('s, 'b) py" where
  "bindM m f = (\<lambda>s. case m s of
       None \<Rightarrow> None
     | Some (Inl e, t) \<Rightarrow> Some (Inl e, t)
     | Some (Inr x, t) \<Rightarrow> f x t)"

definition thenM :: "('s, 'a) py \<Rightarrow> ('s, 'b) py \<Rightarrow> ('s, 'b) py" where
  "thenM m n = bindM m (\<lambda>_. n)"

fun seqM :: "('s, unit) py list \<Rightarrow> ('s, unit) py" where
  "seqM [] = ret ()"
| "seqM (m # ms) = thenM m (seqM ms)"

text \<open>\<open>try: m finally: h\<close>; an exception of \<open>h\<close> replaces the outcome of \<open>m\<close>.\<close>

definition try_finally :: "('s, 'a) py \<Rightarrow> ('s, unit) py \<Rightarrow> ('s, 'a) py" where
  "try_finally m h = (\<lambda>s. case m s of
       None \<Rightarrow> None
     | Some (r, t) \<Rightarrow> (case h t of
           None \<Rightarrow> None
         | Some (Inl e, u) \<Rightarrow> Some (Inl e, u)
         | Some (Inr _, u) \<Rightarrow> Some (r, u)))"

definition try_except :: "('s, 'a) py \<Rightarrow> (exn \<Rightarrow> ('s, 'a) py) \<Rightarrow> ('s, 'a) py" where
  "try_except m h = (\<lambda>s. case m s of
       None \<Rightarrow> None
     | Some (Inl e, t) \<Rightarrow> h e t
     | Some (Inr x, t) \<Rightarrow> Some (Inr x, t))"

text \<open>
  A \<open>while\<close> loop: the body ends the loop with \<open>Some x\<close> (a \<open>return\<close>, a
  \<open>break\<close> or a false condition), goes round again with \<open>None\<close>, or raises.
\<close>

partial_function (option) loopM :: "('s, 'a option) py \<Rightarrow> ('s, 'a) py" where
  "loopM body s = (case body s of
       None \<Rightarrow> None
     | Some (r, t) \<Rightarrow> (case r of
           Inl e \<Rightarrow> Some (Inl e, t)
         | Inr (Some x) \<Rightarrow> Some (Inr x, t)
         | Inr None \<Rightarrow> loopM body t))"

text \<open>Iterating over a Python list.\<close>

fun forM :: "'a list \<Rightarrow> ('a \<Rightarrow> ('s, unit) py) \<Rightarrow> ('s, unit) py" where
  "forM [] f = ret ()"
| "forM (x # xs) f = thenM (f x) (forM xs f)"

text \<open>A method of a component object, run on the part of a larger state that holds it.\<close>

definition liftM :: "('s \<Rightarrow> 't) \<Rightarrow> ('t \<Rightarrow> 's \<Rightarrow> 's) \<Rightarrow> ('t, 'a) py \<Rightarrow> ('s, 'a) py" where
  "liftM get put m = (\<lambda>s. case m (get s) of
       None \<Rightarrow> None
     | Some (r, t) \<Rightarrow> Some (r, put t s))"

named_theorems py_defs "the combinators, unfolded to their effect on the state"

lemmas py_combinators [py_defs] =
  ret_def raise_def getM_def modM_def ofE_def bindM_def thenM_def try_finally_def try_except_def
  liftM_def

lemma thenM_assoc: "thenM (thenM a b) c = thenM a (thenM b c)"
  by (rule ext) (simp add: thenM_def bindM_def split: option.splits prod.splits sum.splits)

lemma thenM_modM: "thenM (modM f) m s = m (f s)"
  by (simp add: thenM_def bindM_def modM_def)

lemma seqM_append: "seqM (xs @ ys) = thenM (seqM xs) (seqM ys)"
  by (induction xs) (simp_all add: thenM_assoc, simp add: thenM_def bindM_def ret_def)

section \<open>Invariants of methods\<close>

text \<open>
  \<open>wp m Q X s\<close>: a call of \<open>m\<close> in state \<open>s\<close> that returns \<open>x\<close> leaves \<open>Q x\<close>, and one that
  raises \<open>e\<close> leaves \<open>X e\<close> (partial correctness). Its equations turn a method into a
  condition on its state. \<open>keeps I m\<close> is the invariant case; \<open>tkeeps I m\<close> adds that
  the call ends.
\<close>

definition wp :: "('s, 'a) py \<Rightarrow> ('a \<Rightarrow> 's \<Rightarrow> bool) \<Rightarrow> (exn \<Rightarrow> 's \<Rightarrow> bool) \<Rightarrow> 's \<Rightarrow> bool" where
  "wp m Q X s = (case m s of
       None \<Rightarrow> True
     | Some (r, t) \<Rightarrow> (case r of Inl e \<Rightarrow> X e t | Inr x \<Rightarrow> Q x t))"

definition keeps :: "('s \<Rightarrow> bool) \<Rightarrow> ('s, 'a) py \<Rightarrow> bool" where
  "keeps I m \<longleftrightarrow> (\<forall>s r t. I s \<longrightarrow> m s = Some (r, t) \<longrightarrow> I t)"

definition tkeeps :: "('s \<Rightarrow> bool) \<Rightarrow> ('s, 'a) py \<Rightarrow> bool" where
  "tkeeps I m \<longleftrightarrow> (\<forall>s. I s \<longrightarrow> (\<exists>r t. m s = Some (r, t) \<and> I t))"

text \<open>\<open>raises X m\<close>: the exceptions a call of \<open>m\<close> can end with all satisfy \<open>X\<close>.\<close>

definition raises :: "(exn \<Rightarrow> bool) \<Rightarrow> ('s, 'a) py \<Rightarrow> bool" where
  "raises X m \<longleftrightarrow> (\<forall>s e t. m s = Some (Inl e, t) \<longrightarrow> X e)"

named_theorems keeps_rules "invariant preservation, one rule per combinator"
named_theorems tkeeps_rules "termination with an invariant, one rule per combinator"
named_theorems raises_rules "the exceptions of a method, one rule per combinator"

lemma keepsI: "(\<And>s r t. I s \<Longrightarrow> m s = Some (r, t) \<Longrightarrow> I t) \<Longrightarrow> keeps I m"
  by (auto simp: keeps_def)

lemma keepsD: "keeps I m \<Longrightarrow> I s \<Longrightarrow> m s = Some (r, t) \<Longrightarrow> I t"
  by (auto simp: keeps_def)

lemma tkeepsD: "tkeeps I m \<Longrightarrow> I s \<Longrightarrow> \<exists>r t. m s = Some (r, t) \<and> I t"
  by (auto simp: tkeeps_def)

lemma tkeeps_keeps: "tkeeps I m \<Longrightarrow> keeps I m"
  by (fastforce simp: tkeeps_def keeps_def)

lemma raisesD: "raises X m \<Longrightarrow> m s = Some (Inl e, t) \<Longrightarrow> X e"
  by (auto simp: raises_def)

lemma bindM_Some_iff:
  "bindM m f s = Some (r, t) \<longleftrightarrow>
     (\<exists>e. m s = Some (Inl e, t) \<and> r = Inl e) \<or> (\<exists>x u. m s = Some (Inr x, u) \<and> f x u = Some (r, t))"
  by (cases "m s") (auto simp: bindM_def split: sum.splits)

lemma bindM_None_iff:
  "bindM m f s = None \<longleftrightarrow> m s = None \<or> (\<exists>x u. m s = Some (Inr x, u) \<and> f x u = None)"
  by (cases "m s") (auto simp: bindM_def split: sum.splits)

lemma thenM_Some_iff:
  "thenM m n s = Some (r, t) \<longleftrightarrow>
     (\<exists>e. m s = Some (Inl e, t) \<and> r = Inl e) \<or> (\<exists>x u. m s = Some (Inr x, u) \<and> n u = Some (r, t))"
  by (simp add: thenM_def bindM_Some_iff)

lemma try_finally_Some_iff:
  "try_finally m h s = Some (r, t) \<longleftrightarrow>
     (\<exists>r' u e. m s = Some (r', u) \<and> h u = Some (Inl e, t) \<and> r = Inl e) \<or>
     (\<exists>u. m s = Some (r, u) \<and> h u = Some (Inr (), t))"
  by (cases "m s") (auto simp: try_finally_def split: option.split prod.split sum.split)

lemma try_except_Some_iff:
  "try_except m h s = Some (r, t) \<longleftrightarrow>
     (\<exists>e u. m s = Some (Inl e, u) \<and> h e u = Some (r, t)) \<or> (\<exists>x. m s = Some (Inr x, t) \<and> r = Inr x)"
  by (cases "m s") (auto simp: try_except_def split: sum.splits)

lemmas py_Some_iffs = bindM_Some_iff thenM_Some_iff try_finally_Some_iff try_except_Some_iff

subsection \<open>Weakest preconditions\<close>

lemma wpI:
  "(\<And>x t. m s = Some (Inr x, t) \<Longrightarrow> Q x t) \<Longrightarrow> (\<And>e t. m s = Some (Inl e, t) \<Longrightarrow> X e t) \<Longrightarrow> wp m Q X s"
  by (auto simp: wp_def split: option.split sum.split)

lemma wpD:
  "wp m Q X s \<Longrightarrow> m s = Some (Inr x, t) \<Longrightarrow> Q x t"
  "wp m Q X s \<Longrightarrow> m s = Some (Inl e, t) \<Longrightarrow> X e t"
  by (simp_all add: wp_def)

lemma wp_mono:
  "wp m Q X s \<Longrightarrow> (\<And>x t. Q x t \<Longrightarrow> Q' x t) \<Longrightarrow> (\<And>e t. X e t \<Longrightarrow> X' e t) \<Longrightarrow> wp m Q' X' s"
  by (auto simp: wp_def split: option.splits sum.splits)

lemma wp_ret [simp]: "wp (ret x) Q X s = Q x s"
  and wp_raise [simp]: "wp (raise e) Q X s = X e s"
  and wp_getM [simp]: "wp (getM f) Q' X s = Q' (f s) s"
  and wp_modM [simp]: "wp (modM g) Q'' X s = Q'' () (g s)"
  and wp_ofE [simp]: "wp (ofE r) Q X s = (case r of Inl e \<Rightarrow> X e s | Inr x \<Rightarrow> Q x s)"
  by (simp_all add: wp_def py_defs)

lemma wp_bindM [simp]: "wp (bindM m f) Q X s = wp m (\<lambda>x. wp (f x) Q X) X s"
  by (simp add: wp_def bindM_def split: option.split sum.split)

lemma wp_thenM [simp]: "wp (thenM m n) Q X s = wp m (\<lambda>_. wp n Q X) X s"
  by (simp add: thenM_def)

lemma wp_try_except [simp]: "wp (try_except m h) Q X s = wp m Q (\<lambda>e. wp (h e) Q X) s"
  by (simp add: wp_def try_except_def split: option.split sum.split)

lemma wp_try_finally [simp]:
  "wp (try_finally m h) Q X s = wp m (\<lambda>x. wp h (\<lambda>_. Q x) X) (\<lambda>e. wp h (\<lambda>_. X e) X) s"
  by (simp add: wp_def try_finally_def split: option.split sum.split prod.split)

lemma keeps_ret [keeps_rules]: "keeps I (ret x)"
  and keeps_raise [keeps_rules]: "keeps I (raise e)"
  and keeps_getM [keeps_rules]: "keeps I (getM f)"
  and keeps_ofE [keeps_rules]: "keeps I (ofE r)"
  by (auto simp: keeps_def py_defs)

lemma keeps_modM [keeps_rules]: "(\<And>s. I s \<Longrightarrow> I (f s)) \<Longrightarrow> keeps I (modM f)"
  by (auto simp: keeps_def py_defs)

lemma keeps_bindM [keeps_rules]:
  "keeps I m \<Longrightarrow> (\<And>x. keeps I (f x)) \<Longrightarrow> keeps I (bindM m f)"
  unfolding keeps_def bindM_Some_iff by blast

lemma keeps_thenM [keeps_rules]: "keeps I m \<Longrightarrow> keeps I n \<Longrightarrow> keeps I (thenM m n)"
  unfolding thenM_def by (rule keeps_bindM)

lemma keeps_seqM [keeps_rules]: "(\<And>m. m \<in> set ms \<Longrightarrow> keeps I m) \<Longrightarrow> keeps I (seqM ms)"
  by (induction ms) (auto intro: keeps_rules)

lemma keeps_forM [keeps_rules]: "(\<And>x. x \<in> set xs \<Longrightarrow> keeps I (f x)) \<Longrightarrow> keeps I (forM xs f)"
  by (induction xs) (auto intro: keeps_rules)

lemma keeps_try_finally [keeps_rules]: "keeps I m \<Longrightarrow> keeps I h \<Longrightarrow> keeps I (try_finally m h)"
  unfolding keeps_def try_finally_Some_iff by blast

lemma keeps_try_except [keeps_rules]:
  "keeps I m \<Longrightarrow> (\<And>e. keeps I (h e)) \<Longrightarrow> keeps I (try_except m h)"
  unfolding keeps_def try_except_Some_iff by blast

lemma keeps_if [keeps_rules]:
  "(b \<Longrightarrow> keeps I m) \<Longrightarrow> (\<not> b \<Longrightarrow> keeps I n) \<Longrightarrow> keeps I (if b then m else n)"
  by simp

lemma keeps_case_option [keeps_rules]:
  "(x = None \<Longrightarrow> keeps I m) \<Longrightarrow> (\<And>y. x = Some y \<Longrightarrow> keeps I (f y)) \<Longrightarrow>
   keeps I (case x of None \<Rightarrow> m | Some y \<Rightarrow> f y)"
  by (cases x) auto

lemma keeps_case_prod [keeps_rules]:
  "(\<And>a b. p = (a, b) \<Longrightarrow> keeps I (f a b)) \<Longrightarrow> keeps I (case p of (a, b) \<Rightarrow> f a b)"
  by (cases p) auto

lemma keeps_Let [keeps_rules]: "(\<And>x. x = a \<Longrightarrow> keeps I (f x)) \<Longrightarrow> keeps I (Let a f)"
  by simp

lemma loopM_partial:
  fixes body :: "('s, 'a option) py"
  assumes ret: "loopM body s = Some (r, t)" and start: "I s"
    and keep: "\<And>s t. I s \<Longrightarrow> body s = Some (Inr None, t) \<Longrightarrow> I t"
  shows "\<exists>u. I u \<and> (case r of Inl e \<Rightarrow> body u = Some (Inl e, t)
                            | Inr x \<Rightarrow> body u = Some (Inr (Some x), t))"
proof -
  let ?Q = "\<lambda>body s y. (\<forall>s t. I s \<longrightarrow> body s = Some (Inr None, t) \<longrightarrow> I t) \<longrightarrow> I s \<longrightarrow>
     (\<exists>u. I u \<and> (case fst y of Inl e \<Rightarrow> body u = Some (Inl e, snd y)
                            | Inr x \<Rightarrow> body u = Some (Inr (Some x), snd y)))"
  have "?Q body s (r, t)"
  proof (rule loopM.raw_induct [where P = ?Q, OF _ ret])
    fix f :: "('s, 'a option) py \<Rightarrow> ('s, 'a) py" and body :: "('s, 'a option) py" and s y
    assume IH: "\<And>body s y. f body s = Some y \<Longrightarrow> ?Q body s y"
      and eq: "(case body s of None \<Rightarrow> None | Some (r, t) \<Rightarrow> (case r of Inl e \<Rightarrow> Some (Inl e, t)
        | Inr None \<Rightarrow> f body t | Inr (Some x) \<Rightarrow> Some (Inr x, t))) = Some y"
    from eq obtain r t where b: "body s = Some (r, t)" by (cases "body s") auto
    show "?Q body s y"
    proof (cases "r = Inr None")
      case True
      with eq b have "f body t = Some y" by simp
      from IH [OF this] b True show ?thesis by blast
    next
      case False
      with eq b show ?thesis
        by (cases y) (auto intro!: exI [of _ s] split: sum.splits option.splits)
    qed
  qed
  with start keep show ?thesis by (cases r) auto
qed

lemma loopM_keeps:
  assumes "keeps I body" and "loopM body s = Some (r, t)" and "I s"
  shows "I t"
  using loopM_partial [of body s r t I] assms by (cases r) (auto simp: keeps_def)

lemma wp_loopM:
  assumes "I s" and "\<And>s. I s \<Longrightarrow> wp body (\<lambda>r t. case r of None \<Rightarrow> I t | Some x \<Rightarrow> Q x t) X s"
  shows "wp (loopM body) Q X s"
proof (rule wpI)
  have cont: "\<And>s t. I s \<Longrightarrow> body s = Some (Inr None, t) \<Longrightarrow> I t"
    using assms(2) wpD(1) by fastforce
  show "Q x t" if "loopM body s = Some (Inr x, t)" for x t
    using loopM_partial [of body s "Inr x" t I, OF that assms(1) cont] assms(2) wpD(1) by fastforce
  show "X e t" if "loopM body s = Some (Inl e, t)" for e t
    using loopM_partial [of body s "Inl e" t I, OF that assms(1) cont] assms(2) wpD(2) by fastforce
qed

lemma keeps_wp: "keeps I m \<longleftrightarrow> (\<forall>s. I s \<longrightarrow> wp m (\<lambda>_. I) (\<lambda>_. I) s)"
  by (fastforce simp: keeps_def wp_def split: option.splits sum.splits)

lemma keeps_loopM [keeps_rules]: "keeps I body \<Longrightarrow> keeps I (loopM body)"
  by (rule keepsI) (rule loopM_keeps)

text \<open>Termination of a loop: the body returns, and a measure falls on every further round.\<close>

lemma tkeeps_loopM:
  assumes body: "\<And>s. I s \<Longrightarrow> \<exists>r t. body s = Some (r, t) \<and> I t \<and> (r = Inr None \<longrightarrow> f t < (f s :: nat))"
  shows "tkeeps I (loopM body)"
proof -
  have "I s \<Longrightarrow> \<exists>r t. loopM body s = Some (r, t) \<and> I t" for s
  proof (induction "f s" arbitrary: s rule: less_induct)
    case less
    from body [OF \<open>I s\<close>] obtain r t where
      b: "body s = Some (r, t)" "I t" "r = Inr None \<longrightarrow> f t < f s" by blast
    show ?case
      using b less.hyps [of t]
      by (subst (1) loopM.simps) (auto split: sum.split option.split)
  qed
  then show ?thesis by (simp add: tkeeps_def)
qed

subsection \<open>Termination\<close>

lemma tkeeps_ret [tkeeps_rules]: "tkeeps I (ret x)"
  and tkeeps_raise [tkeeps_rules]: "tkeeps I (raise e)"
  and tkeeps_getM [tkeeps_rules]: "tkeeps I (getM f)"
  and tkeeps_ofE [tkeeps_rules]: "tkeeps I (ofE r)"
  by (auto simp: tkeeps_def py_defs)

lemma tkeeps_modM [tkeeps_rules]: "(\<And>s. I s \<Longrightarrow> I (f s)) \<Longrightarrow> tkeeps I (modM f)"
  by (auto simp: tkeeps_def py_defs)

lemma tkeeps_bindM [tkeeps_rules]:
  "tkeeps I m \<Longrightarrow> (\<And>x. tkeeps I (f x)) \<Longrightarrow> tkeeps I (bindM m f)"
  unfolding tkeeps_def bindM_Some_iff by (metis sumE)

lemma tkeeps_thenM [tkeeps_rules]: "tkeeps I m \<Longrightarrow> tkeeps I n \<Longrightarrow> tkeeps I (thenM m n)"
  unfolding thenM_def by (rule tkeeps_bindM)

lemma tkeeps_seqM [tkeeps_rules]: "(\<And>m. m \<in> set ms \<Longrightarrow> tkeeps I m) \<Longrightarrow> tkeeps I (seqM ms)"
  by (induction ms) (auto intro: tkeeps_rules)

lemma tkeeps_forM [tkeeps_rules]: "(\<And>x. x \<in> set xs \<Longrightarrow> tkeeps I (f x)) \<Longrightarrow> tkeeps I (forM xs f)"
  by (induction xs) (auto intro: tkeeps_rules)

lemma tkeeps_try_finally [tkeeps_rules]:
  "tkeeps I m \<Longrightarrow> tkeeps I h \<Longrightarrow> tkeeps I (try_finally m h)"
  unfolding tkeeps_def try_finally_Some_iff by (metis old.unit.exhaust sumE)

lemma tkeeps_try_except [tkeeps_rules]:
  "tkeeps I m \<Longrightarrow> (\<And>e. tkeeps I (h e)) \<Longrightarrow> tkeeps I (try_except m h)"
  unfolding tkeeps_def try_except_Some_iff by (metis sumE)

lemma tkeeps_if [tkeeps_rules]:
  "(b \<Longrightarrow> tkeeps I m) \<Longrightarrow> (\<not> b \<Longrightarrow> tkeeps I n) \<Longrightarrow> tkeeps I (if b then m else n)"
  by simp

lemma tkeeps_case_option [tkeeps_rules]:
  "(x = None \<Longrightarrow> tkeeps I m) \<Longrightarrow> (\<And>y. x = Some y \<Longrightarrow> tkeeps I (f y)) \<Longrightarrow>
   tkeeps I (case x of None \<Rightarrow> m | Some y \<Rightarrow> f y)"
  by (cases x) auto

lemma tkeeps_case_prod [tkeeps_rules]:
  "(\<And>a b. p = (a, b) \<Longrightarrow> tkeeps I (f a b)) \<Longrightarrow> tkeeps I (case p of (a, b) \<Rightarrow> f a b)"
  by (cases p) auto

lemma tkeeps_Let [tkeeps_rules]: "(\<And>x. x = a \<Longrightarrow> tkeeps I (f x)) \<Longrightarrow> tkeeps I (Let a f)"
  by simp

subsection \<open>Exceptions\<close>

lemma raises_ret [raises_rules]: "raises X (ret x)"
  and raises_getM [raises_rules]: "raises X (getM f)"
  and raises_modM [raises_rules]: "raises X (modM g)"
  by (auto simp: raises_def py_defs)

lemma raises_raise [raises_rules]: "X e \<Longrightarrow> raises X (raise e)"
  by (auto simp: raises_def py_defs)

lemma raises_ofE [raises_rules]: "(\<And>e. r = Inl e \<Longrightarrow> X e) \<Longrightarrow> raises X (ofE r)"
  by (auto simp: raises_def py_defs)

lemma raises_bindM [raises_rules]:
  "raises X m \<Longrightarrow> (\<And>x. raises X (f x)) \<Longrightarrow> raises X (bindM m f)"
  unfolding raises_def bindM_Some_iff by blast

lemma raises_thenM [raises_rules]: "raises X m \<Longrightarrow> raises X n \<Longrightarrow> raises X (thenM m n)"
  unfolding thenM_def by (rule raises_bindM)

lemma raises_seqM [raises_rules]: "(\<And>m. m \<in> set ms \<Longrightarrow> raises X m) \<Longrightarrow> raises X (seqM ms)"
  by (induction ms) (auto intro: raises_rules)

lemma raises_forM [raises_rules]: "(\<And>x. x \<in> set xs \<Longrightarrow> raises X (f x)) \<Longrightarrow> raises X (forM xs f)"
  by (induction xs) (auto intro: raises_rules)

lemma raises_try_finally [raises_rules]:
  "raises X m \<Longrightarrow> raises X h \<Longrightarrow> raises X (try_finally m h)"
  unfolding raises_def try_finally_Some_iff by blast

lemma raises_try_except [raises_rules]:
  "(\<And>e. raises X (h e)) \<Longrightarrow> raises X (try_except m h)"
  unfolding raises_def try_except_Some_iff by blast

lemma raises_if [raises_rules]:
  "(b \<Longrightarrow> raises X m) \<Longrightarrow> (\<not> b \<Longrightarrow> raises X n) \<Longrightarrow> raises X (if b then m else n)"
  by simp

lemma raises_case_option [raises_rules]:
  "(x = None \<Longrightarrow> raises X m) \<Longrightarrow> (\<And>y. x = Some y \<Longrightarrow> raises X (f y)) \<Longrightarrow>
   raises X (case x of None \<Rightarrow> m | Some y \<Rightarrow> f y)"
  by (cases x) auto

lemma raises_case_prod [raises_rules]:
  "(\<And>a b. p = (a, b) \<Longrightarrow> raises X (f a b)) \<Longrightarrow> raises X (case p of (a, b) \<Rightarrow> f a b)"
  by (cases p) auto

lemma raises_Let [raises_rules]: "(\<And>x. x = a \<Longrightarrow> raises X (f x)) \<Longrightarrow> raises X (Let a f)"
  by simp

lemma raises_loopM [raises_rules]:
  assumes "raises X body"
  shows "raises X (loopM body)"
  unfolding raises_def
proof (intro allI impI)
  fix s e t
  assume "loopM body s = Some (Inl e, t)"
  then have "\<exists>u. body u = Some (Inl e, t)"
    using loopM_partial [of body s "Inl e" t "\<lambda>_. True"] by auto
  with assms show "X e" by (auto simp: raises_def)
qed

lemma keeps_liftM:
  assumes "keeps J m" and "\<And>s. I s \<Longrightarrow> J (get s)" and "\<And>s t. I s \<Longrightarrow> J t \<Longrightarrow> I (put t s)"
  shows "keeps I (liftM get put m)"
  using assms by (fastforce simp: keeps_def liftM_def split: option.splits prod.splits)

lemma raises_liftM [raises_rules]: "raises X m \<Longrightarrow> raises X (liftM get put m)"
  by (fastforce simp: raises_def liftM_def split: option.splits prod.splits)

lemma wp_liftM:
  "wp (liftM get put m) Q X s = wp m (\<lambda>x t. Q x (put t s)) (\<lambda>e t. X e (put t s)) (get s)"
  by (auto simp: wp_def liftM_def split: option.split sum.split)

lemma wp_forM:
  assumes "I [] s" and "\<And>pre x s. I pre s \<Longrightarrow> x \<in> set xs \<Longrightarrow> wp (f x) (\<lambda>_. I (pre @ [x])) X s"
  shows "wp (forM xs f) (\<lambda>_. I xs) X s"
proof -
  have "wp (forM ys f) (\<lambda>_. I (pre @ ys)) X s" if "I pre s" "set ys \<subseteq> set xs" for ys pre s
    using that
  proof (induction ys arbitrary: pre s)
    case (Cons y ys)
    have "wp (f y) (\<lambda>_. I (pre @ [y])) X s" using Cons.prems by (auto intro: assms(2))
    then have "wp (f y) (\<lambda>_. wp (forM ys f) (\<lambda>_. I ((pre @ [y]) @ ys)) X) X s"
    proof (rule wp_mono)
      show "wp (forM ys f) (\<lambda>_. I ((pre @ [y]) @ ys)) X t" if "I (pre @ [y]) t" for t
        by (rule Cons.IH [OF that]) (use Cons.prems in simp)
    qed
    then show ?case by simp
  qed simp
  from this [of "[]" s xs] assms(1) show ?thesis by simp
qed

end
