(* ===== verification/Py_Text.thy ===== *)
theory Py_Text
  imports Py_Prelude
begin

text \<open>
  What the program uses of Python's strings and numbers: \<open>str.strip\<close>, \<open>lower\<close>,
  \<open>partition\<close>, \<open>rpartition\<close>, \<open>split\<close>, \<open>int(s, base)\<close>, \<open>float(s)\<close>, \<open>str(n)\<close>,
  \<open>round\<close>, and the values a configuration section can hold. Strings are lists of code
  points 0 to 255. A finite \<open>float\<close> is the real number it stands for (the
  rounding of an arithmetic operation is not modelled); the infinities, NaN, the overflow of
  a conversion and the failure of every comparison with NaN are.
\<close>

section \<open>Floats\<close>

datatype pyfloat = Fin real | PInf | NInf | NaN

definition isfinite :: "pyfloat \<Rightarrow> bool" where
  "isfinite x = (case x of Fin _ \<Rightarrow> True | _ \<Rightarrow> False)"

lemma isfinite_simps [simp]:
  "isfinite (Fin r)" "\<not> isfinite PInf" "\<not> isfinite NInf" "\<not> isfinite NaN"
  by (simp_all add: isfinite_def)

lemma isfiniteE: "isfinite x \<Longrightarrow> (\<And>r. x = Fin r \<Longrightarrow> P) \<Longrightarrow> P"
  by (cases x) auto

text \<open>IEEE comparison: NaN is neither below nor above anything.\<close>

instantiation pyfloat :: ord
begin

fun less_pyfloat :: "pyfloat \<Rightarrow> pyfloat \<Rightarrow> bool" where
  "less_pyfloat (Fin a) (Fin b) = (a < b)"
| "less_pyfloat (Fin a) PInf = True"
| "less_pyfloat NInf (Fin a) = True"
| "less_pyfloat NInf PInf = True"
| "less_pyfloat _ _ = False"

fun less_eq_pyfloat :: "pyfloat \<Rightarrow> pyfloat \<Rightarrow> bool" where
  "less_eq_pyfloat (Fin a) (Fin b) = (a \<le> b)"
| "less_eq_pyfloat NaN _ = False"
| "less_eq_pyfloat _ NaN = False"
| "less_eq_pyfloat NInf _ = True"
| "less_eq_pyfloat _ PInf = True"
| "less_eq_pyfloat _ _ = False"

instance ..

end

lemma pyfloat_between_finite:
  "Fin a < x \<Longrightarrow> x \<le> Fin b \<Longrightarrow> \<exists>r. x = Fin r \<and> a < r \<and> r \<le> b"
  by (cases x) auto

text \<open>The least magnitude that rounds to infinity in binary64.\<close>

definition float_overflow :: real where
  "float_overflow = 2 ^ 1024 - 2 ^ 970"

definition fl :: "real \<Rightarrow> pyfloat" where
  "fl r = (if r \<ge> float_overflow then PInf else if r \<le> - float_overflow then NInf else Fin r)"

text \<open>\<open>float(i)\<close> of an integer raises where \<open>float(s)\<close> of a literal gives infinity.\<close>

definition float_of_int :: "int \<Rightarrow> exn + pyfloat" where
  "float_of_int i = (case fl (of_int i) of Fin r \<Rightarrow> Inr (Fin r) | _ \<Rightarrow> Inl OverflowError)"

lemma fl_small: "\<bar>r\<bar> \<le> 10 ^ 12 \<Longrightarrow> fl r = Fin r"
proof -
  assume r: "\<bar>r\<bar> \<le> 10 ^ 12"
  have "(10 ^ 12 :: real) < float_overflow" by (simp add: float_overflow_def)
  with r have "\<bar>r\<bar> < float_overflow" by linarith
  then show ?thesis by (auto simp: fl_def abs_less_iff)
qed

lemma float_of_int_small: "\<bar>i\<bar> \<le> 10 ^ 12 \<Longrightarrow> float_of_int i = Inr (Fin (of_int i))"
  using fl_small [of "of_int i"] by (simp add: float_of_int_def flip: of_int_abs)

lemma fl_FinD: "fl r = Fin x \<Longrightarrow> x = r"
  by (simp add: fl_def split: if_splits)

text \<open>\<open>round(x)\<close>: to the nearest integer, ties to even.\<close>

definition py_round :: "real \<Rightarrow> int" where
  "py_round x = (let f = \<lfloor>x\<rfloor>; d = x - of_int f
     in if d < 1 / 2 then f else if d > 1 / 2 then f + 1 else if even f then f else f + 1)"

lemma py_round_near: "\<bar>x - of_int (py_round x)\<bar> \<le> 1 / 2"
  unfolding py_round_def Let_def by (auto simp: abs_le_iff)

section \<open>Strings\<close>

definition code :: "char \<Rightarrow> nat" where
  "code c = of_char c"

definition is_space :: "char \<Rightarrow> bool" where
  "is_space c = (let n = code c in 9 \<le> n \<and> n \<le> 13 \<or> 28 \<le> n \<and> n \<le> 32 \<or> n = 133 \<or> n = 160)"

definition strip_by :: "(char \<Rightarrow> bool) \<Rightarrow> string \<Rightarrow> string" where
  "strip_by p s = rev (dropWhile p (rev (dropWhile p s)))"

definition strip :: "string \<Rightarrow> string" where
  "strip s = strip_by is_space s"

definition lower_char :: "char \<Rightarrow> char" where
  "lower_char c = (let n = code c in
     if 65 \<le> n \<and> n \<le> 90 \<or> 192 \<le> n \<and> n \<le> 222 \<and> n \<noteq> 215 then char_of (n + 32) else c)"

definition lower :: "string \<Rightarrow> string" where
  "lower s = map lower_char s"

definition startswith :: "string \<Rightarrow> string \<Rightarrow> bool" where
  "startswith s p = (take (length p) s = p)"

text \<open>\<open>s.partition(c)\<close> without its middle part: \<open>(s, "")\<close> when \<open>c\<close> is not in \<open>s\<close>.\<close>

definition partition_at :: "char \<Rightarrow> string \<Rightarrow> string \<times> string" where
  "partition_at c s = (takeWhile (\<lambda>x. x \<noteq> c) s, drop 1 (dropWhile (\<lambda>x. x \<noteq> c) s))"

text \<open>\<open>s.rpartition(c)\<close> without its middle part: \<open>("", s)\<close> when \<open>c\<close> is not in \<open>s\<close>.\<close>

definition rpartition_at :: "char \<Rightarrow> string \<Rightarrow> string \<times> string" where
  "rpartition_at c s = (rev (drop 1 (dropWhile (\<lambda>x. x \<noteq> c) (rev s))), rev (takeWhile (\<lambda>x. x \<noteq> c) (rev s)))"

fun split_at :: "char \<Rightarrow> string \<Rightarrow> string list" where
  "split_at c [] = [[]]"
| "split_at c (x # xs) = (if x = c then [] # split_at c xs
     else (case split_at c xs of [] \<Rightarrow> [[x]] | y # ys \<Rightarrow> (x # y) # ys))"

text \<open>\<open>s.split()\<close>: the maximal runs of non-space characters.\<close>

function split_ws :: "string \<Rightarrow> string list" where
  "split_ws [] = []"
| "split_ws (x # xs) = (if is_space x then split_ws xs
     else (x # takeWhile (\<lambda>c. \<not> is_space c) xs) # split_ws (dropWhile (\<lambda>c. \<not> is_space c) xs))"
  by pat_completeness auto
termination
  by (relation "measure length") (auto simp: le_imp_less_Suc length_dropWhile_le)

definition basename :: "string \<Rightarrow> string" where
  "basename s = snd (rpartition_at (CHR ''/'') s)"

lemma takeWhile_neq_append [simp]:
  "c \<notin> set xs \<Longrightarrow> takeWhile (\<lambda>x. x \<noteq> c) (xs @ c # ys) = xs"
  "c \<notin> set xs \<Longrightarrow> dropWhile (\<lambda>x. x \<noteq> c) (xs @ c # ys) = c # ys"
  by (induction xs) auto

lemma partition_at_append: "c \<notin> set xs \<Longrightarrow> partition_at c (xs @ c # ys) = (xs, ys)"
  by (simp add: partition_at_def)

lemma rpartition_at_append: "c \<notin> set ys \<Longrightarrow> rpartition_at c (xs @ c # ys) = (xs, ys)"
  by (simp add: rpartition_at_def)

section \<open>Numbers as text\<close>

definition digit_val :: "char \<Rightarrow> int option" where
  "digit_val c = (let n = code c in
     if 48 \<le> n \<and> n \<le> 57 then Some (int n - 48)
     else if 97 \<le> n \<and> n \<le> 122 then Some (int n - 87)
     else if 65 \<le> n \<and> n \<le> 90 then Some (int n - 55)
     else None)"

text \<open>Digits of a base; a single underscore may stand between two of them.\<close>

fun digits_acc :: "int \<Rightarrow> int \<Rightarrow> bool \<Rightarrow> string \<Rightarrow> int option" where
  "digits_acc b acc after [] = (if after then Some acc else None)"
| "digits_acc b acc after (c # cs) =
     (if c = CHR ''_'' then (if after then digits_acc b acc False cs else None)
      else (case digit_val c of
              None \<Rightarrow> None
            | Some d \<Rightarrow> if d < b then digits_acc b (acc * b + d) True cs else None))"

abbreviation digits :: "int \<Rightarrow> string \<Rightarrow> int option" where
  "digits b s \<equiv> digits_acc b 0 False s"

definition take_sign :: "string \<Rightarrow> int \<times> string" where
  "take_sign s = (case s of
       [] \<Rightarrow> (1, [])
     | c # cs \<Rightarrow> if c = CHR ''-'' then (-1, cs) else if c = CHR ''+'' then (1, cs) else (1, c # cs))"

definition prefixed_digits :: "int \<Rightarrow> string \<Rightarrow> int option" where
  "prefixed_digits b s = (case s of
       [] \<Rightarrow> None
     | c # cs \<Rightarrow> if c = CHR ''_'' then digits b cs else digits b (c # cs))"

definition base_of_prefix :: "string \<Rightarrow> int option" where
  "base_of_prefix s = (case s of
       z # x # _ \<Rightarrow> (if z \<noteq> CHR ''0'' then None
          else if lower_char x = CHR ''x'' then Some 16
          else if lower_char x = CHR ''o'' then Some 8
          else if lower_char x = CHR ''b'' then Some 2 else None)
     | _ \<Rightarrow> None)"

text \<open>
  \<open>int(s, base)\<close> for the bases the program uses: 10, 16 and 0 (the base is read from the
  literal's prefix; a decimal literal other than zero has no leading zero).
\<close>

definition py_int_str :: "string \<Rightarrow> int \<Rightarrow> int option" where
  "py_int_str s base = (let (sg, d) = take_sign (strip s) in map_option ((*) sg)
     (case base_of_prefix d of
        Some b \<Rightarrow> if base = 0 \<or> base = b then prefixed_digits b (drop 2 d) else digits base d
      | None \<Rightarrow> if base = 0
          then (case digits 10 d of
                  None \<Rightarrow> None
                | Some v \<Rightarrow> if hd d = CHR ''0'' \<and> v \<noteq> 0 then None else Some v)
          else digits base d))"

definition exponent_of :: "string \<Rightarrow> int option" where
  "exponent_of s = (let (sg, d) = take_sign s in map_option ((*) sg) (digits 10 d))"

definition scale10 :: "real \<Rightarrow> int \<Rightarrow> real" where
  "scale10 m e = (if 0 \<le> e then m * 10 ^ nat e else m / 10 ^ nat (- e))"

definition mantissa_of :: "string \<Rightarrow> real option" where
  "mantissa_of s = (let (ip, fp) = partition_at (CHR ''.'') s;
       n = length (filter (\<lambda>c. c \<noteq> CHR ''_'') fp)
     in if ip = [] \<and> fp = [] then None
        else (case (if ip = [] then Some 0 else digits 10 ip, if fp = [] then Some 0 else digits 10 fp) of
                (Some i, Some f) \<Rightarrow> Some (of_int i + of_int f / 10 ^ n)
              | _ \<Rightarrow> None))"

text \<open>\<open>float(s)\<close>: \<open>None\<close> is the \<open>ValueError\<close> of a text that is no float literal.\<close>

definition py_float_str :: "string \<Rightarrow> pyfloat option" where
  "py_float_str s = (let (sg, d) = take_sign (strip s); l = lower d in
     if l = ''inf'' \<or> l = ''infinity'' then Some (if sg = 1 then PInf else NInf)
     else if l = ''nan'' then Some NaN
     else let (m, x) = partition_at (CHR ''e'') l in
       (case (mantissa_of m, if CHR ''e'' \<in> set l then exponent_of x else Some 0) of
          (Some r, Some e) \<Rightarrow> Some (fl (of_int sg * scale10 r e))
        | _ \<Rightarrow> None))"

text \<open>\<open>str(n)\<close> of an integer.\<close>

definition digit_char :: "nat \<Rightarrow> char" where
  "digit_char d = (if d < 10 then char_of (48 + d) else char_of (87 + d))"

fun show_nat :: "nat \<Rightarrow> string" where
  "show_nat n = (if n < 10 then [digit_char n] else show_nat (n div 10) @ [digit_char (n mod 10)])"

declare show_nat.simps [simp del]

definition show_int :: "int \<Rightarrow> string" where
  "show_int i = (if i < 0 then CHR ''-'' # show_nat (nat (- i)) else show_nat (nat i))"

lemma code_char_of [simp]: "n < 256 \<Longrightarrow> code (char_of n) = n"
  by (simp add: code_def)

lemma code_digit_char: "d < 16 \<Longrightarrow> code (digit_char d) = (if d < 10 then 48 + d else 87 + d)"
  by (simp add: digit_char_def)

lemma digit_val_digit_char [simp]: "d < 16 \<Longrightarrow> digit_val (digit_char d) = Some (int d)"
  by (simp add: digit_val_def code_digit_char Let_def)

lemma digit_char_neqI: "d < 16 \<Longrightarrow> code c < 48 \<or> code c = 95 \<Longrightarrow> digit_char d \<noteq> c"
  using code_digit_char [of d] by (auto split: if_splits)

lemma digit_char_not_underscore [simp]: "d < 16 \<Longrightarrow> digit_char d \<noteq> CHR ''_''"
  by (rule digit_char_neqI) (simp_all add: code_def)

lemma digits_acc_snoc:
  "digits_acc b acc a xs = Some v \<Longrightarrow> d < 16 \<Longrightarrow> int d < b \<Longrightarrow>
   digits_acc b acc a (xs @ [digit_char d]) = Some (v * b + int d)"
  by (induction xs arbitrary: acc a) (auto split: if_splits option.splits)

lemma show_nat_nonempty [simp]: "show_nat n \<noteq> []"
  by (subst show_nat.simps) simp

lemma digits_show_nat: "digits 10 (show_nat n) = Some (int n)"
proof (induction n rule: show_nat.induct)
  case (1 n)
  show ?case
  proof (cases "n < 10")
    case True
    then show ?thesis by (simp add: show_nat.simps [of n])
  next
    case False
    with 1 have "digits 10 (show_nat (n div 10) @ [digit_char (n mod 10)])
        = Some (int (n div 10) * 10 + int (n mod 10))"
      by (intro digits_acc_snoc) auto
    also have "int (n div 10) * 10 + int (n mod 10) = int n"
      by (metis div_mult_mod_eq of_nat_add of_nat_mult of_nat_numeral)
    finally show ?thesis using False by (simp add: show_nat.simps [of n])
  qed
qed

lemma show_nat_set: "set (show_nat n) \<subseteq> digit_char ` {..<10}"
proof (induction n rule: show_nat.induct)
  case (1 n)
  then show ?case
    by (cases "n < 10") (auto simp: show_nat.simps [of n])
qed

lemma show_nat_codes: "c \<in> set (show_nat n) \<Longrightarrow> 48 \<le> code c \<and> code c \<le> 57"
proof -
  assume "c \<in> set (show_nat n)"
  with show_nat_set [of n] obtain d where "c = digit_char d" "d < 10" by blast
  then show ?thesis by (simp add: code_digit_char)
qed

lemma strip_by_id: "(\<And>c. c \<in> set s \<Longrightarrow> \<not> p c) \<Longrightarrow> strip_by p s = s"
proof -
  assume none: "\<And>c. c \<in> set s \<Longrightarrow> \<not> p c"
  have "dropWhile p xs = xs" if "set xs = set s" for xs
    using none that by (cases xs) auto
  then show ?thesis by (simp add: strip_by_def)
qed

lemma strip_show_nat [simp]: "strip (show_nat n) = show_nat n"
  unfolding strip_def
  by (rule strip_by_id) (auto dest!: show_nat_codes simp: is_space_def Let_def)

lemma take_sign_show_nat [simp]: "take_sign (show_nat n) = (1, show_nat n)"
proof (cases "show_nat n")
  case (Cons c cs)
  with show_nat_codes [of c n] have "48 \<le> code c" by simp
  then have "c \<noteq> CHR ''-''" "c \<noteq> CHR ''+''" by (auto simp: code_def)
  with Cons show ?thesis by (simp add: take_sign_def)
qed simp

lemma lower_char_digit: "code c \<le> 57 \<Longrightarrow> lower_char c = c"
  by (simp add: lower_char_def Let_def)

lemma base_of_prefix_show_nat [simp]: "base_of_prefix (show_nat n) = None"
proof -
  have "lower_char c \<noteq> CHR ''x'' \<and> lower_char c \<noteq> CHR ''o'' \<and> lower_char c \<noteq> CHR ''b''"
    if "c \<in> set (show_nat n)" for c
    using show_nat_codes [OF that] lower_char_digit [of c] by (auto simp: code_def)
  then show ?thesis
    by (auto simp: base_of_prefix_def split: list.splits)
qed

text \<open>Printing and reading back an integer.\<close>

lemma py_int_show_nat [simp]: "py_int_str (show_nat n) 10 = Some (int n)"
  by (simp add: py_int_str_def digits_show_nat)

lemma code_inj: "code a = code b \<longleftrightarrow> a = b"
  by (simp add: code_def)

lemma code_less: "code c < 256"
  by (simp add: code_def)

text \<open>The digits of \<open>format(n, "X")\<close>.\<close>

definition hex_char :: "nat \<Rightarrow> char" where
  "hex_char d = char_of (if d < 10 then 48 + d else 55 + d)"

lemma code_hex_char: "d < 16 \<Longrightarrow> code (hex_char d) = (if d < 10 then 48 + d else 55 + d)"
  by (simp add: hex_char_def)

lemma hex_char_neqI: "d < 16 \<Longrightarrow> code c < 48 \<or> code c = 95 \<Longrightarrow> hex_char d \<noteq> c"
  using code_hex_char [of d] by (auto split: if_splits)

lemma digit_val_hex_char [simp]: "d < 16 \<Longrightarrow> digit_val (hex_char d) = Some (int d)"
  by (simp add: digit_val_def code_hex_char Let_def)

lemma hex_not_underscore [simp]: "d < 16 \<Longrightarrow> hex_char d \<noteq> CHR ''_''"
  by (rule hex_char_neqI) (simp_all add: code_def)

lemma hex_not_space: "d < 16 \<Longrightarrow> \<not> is_space (hex_char d)"
  by (simp add: is_space_def code_hex_char Let_def)

text \<open>\<open>c.join(fs)\<close> of a one-character separator, and its inverse \<open>split\<close>.\<close>

fun join :: "char \<Rightarrow> string list \<Rightarrow> string" where
  "join c [] = []"
| "join c [x] = x"
| "join c (x # y # ys) = x @ c # join c (y # ys)"

lemma split_at_nonempty [simp]: "split_at c s \<noteq> []"
  by (cases s) (auto split: list.split)

lemma split_at_append: "c \<notin> set x \<Longrightarrow> split_at c (x @ c # s) = x # split_at c s"
  by (induction x) auto

lemma split_at_none: "c \<notin> set x \<Longrightarrow> split_at c x = [x]"
  by (induction x) auto

lemma split_join: "fs \<noteq> [] \<Longrightarrow> (\<And>f. f \<in> set fs \<Longrightarrow> c \<notin> set f) \<Longrightarrow> split_at c (join c fs) = fs"
  by (induction c fs rule: join.induct) (simp_all add: split_at_append split_at_none)

section \<open>Configuration values\<close>

text \<open>
  A value of a configuration section. A float carries its \<open>repr\<close>, which is what
  \<open>str\<close> of it gives.
\<close>

datatype pyval = PNone | PBool bool | PInt int | PFloat pyfloat string | PStr string

fun py_str :: "pyval \<Rightarrow> string" where
  "py_str PNone = ''None''"
| "py_str (PBool b) = (if b then ''True'' else ''False'')"
| "py_str (PInt i) = show_int i"
| "py_str (PFloat x r) = r"
| "py_str (PStr s) = s"

fun truthy :: "pyval \<Rightarrow> bool" where
  "truthy PNone = False"
| "truthy (PBool b) = b"
| "truthy (PInt i) = (i \<noteq> 0)"
| "truthy (PFloat x r) = (x \<noteq> Fin 0)"
| "truthy (PStr s) = (s \<noteq> [])"

definition truncate :: "real \<Rightarrow> int" where
  "truncate r = (if r < 0 then \<lceil>r\<rceil> else \<lfloor>r\<rfloor>)"

fun py_int :: "pyval \<Rightarrow> exn + int" where
  "py_int PNone = Inl TypeError"
| "py_int (PBool b) = Inr (if b then 1 else 0)"
| "py_int (PInt i) = Inr i"
| "py_int (PFloat x r) = (case x of Fin v \<Rightarrow> Inr (truncate v) | NaN \<Rightarrow> Inl (ValueError ''int'')
                                 | _ \<Rightarrow> Inl OverflowError)"
| "py_int (PStr s) = (case py_int_str s 10 of None \<Rightarrow> Inl (ValueError ''int'') | Some i \<Rightarrow> Inr i)"

fun py_float :: "pyval \<Rightarrow> exn + pyfloat" where
  "py_float PNone = Inl TypeError"
| "py_float (PBool b) = Inr (Fin (if b then 1 else 0))"
| "py_float (PInt i) = float_of_int i"
| "py_float (PFloat x r) = Inr x"
| "py_float (PStr s) = (case py_float_str s of None \<Rightarrow> Inl (ValueError ''float'') | Some x \<Rightarrow> Inr x)"

type_synonym pydict = "string \<rightharpoonup> pyval"

text \<open>\<open>c.get(key, default)\<close> and \<open>c[key]\<close>.\<close>

definition dict_get :: "pydict \<Rightarrow> string \<Rightarrow> pyval \<Rightarrow> pyval" where
  "dict_get c k d = (case c k of None \<Rightarrow> d | Some v \<Rightarrow> v)"

definition dict_item :: "pydict \<Rightarrow> string \<Rightarrow> exn + pyval" where
  "dict_item c k = (case c k of None \<Rightarrow> Inl KeyError | Some v \<Rightarrow> Inr v)"

end
