(* ===== verification/Profiles.thy ===== *)
theory Profiles
  imports Py_Text
begin

text \<open>
  The hardware profile table of \<open>loraham_rns/profiles.py\<close>: the wiring of every supported
  board, the setups that select it, and \<open>resolve\<close>. The table is closed: a setup never
  names a preset without a wiring, and every profile it yields is consistent with the driver
  its chip selects.
\<close>

definition NC :: int where
  "NC = -1"

record profile =
  p_name :: string
  chip :: string
  cs :: int
  irq :: int
  reset :: int
  busy :: int
  txen :: int
  rxen :: int
  tcxo_voltage :: real
  dio2_rf_switch :: bool

definition PRESETS :: "string \<times> string \<rightharpoonup> profile" where
  "PRESETS = map_of
    [((''loraham'', ''433''), \<lparr>p_name = ''loraham-433'', chip = ''sx1278'', cs = 8, irq = 25, reset = 5,
        busy = NC, txen = NC, rxen = NC, tcxo_voltage = 0, dio2_rf_switch = False\<rparr>),
     ((''loraham'', ''868''), \<lparr>p_name = ''loraham-868'', chip = ''sx1276'', cs = 7, irq = 16, reset = 6,
        busy = NC, txen = NC, rxen = NC, tcxo_voltage = 0, dio2_rf_switch = False\<rparr>),
     ((''uputronics-ce0'', ''433''), \<lparr>p_name = ''uputronics-ce0'', chip = ''sx1278'', cs = 8, irq = 25,
        reset = NC, busy = NC, txen = NC, rxen = NC, tcxo_voltage = 0, dio2_rf_switch = False\<rparr>),
     ((''uputronics-ce1'', ''868''), \<lparr>p_name = ''uputronics-ce1'', chip = ''sx1276'', cs = 7, irq = 16,
        reset = NC, busy = NC, txen = NC, rxen = NC, tcxo_voltage = 0, dio2_rf_switch = False\<rparr>),
     ((''waveshare-sx1262'', ''433''), \<lparr>p_name = ''waveshare-sx1262'', chip = ''sx1262'', cs = 21, irq = 16,
        reset = 18, busy = 20, txen = 6, rxen = NC, tcxo_voltage = 9 / 5, dio2_rf_switch = True\<rparr>),
     ((''waveshare-sx1262'', ''868''), \<lparr>p_name = ''waveshare-sx1262'', chip = ''sx1262'', cs = 21, irq = 16,
        reset = 18, busy = 20, txen = 6, rxen = NC, tcxo_voltage = 9 / 5, dio2_rf_switch = True\<rparr>)]"

definition SETUPS :: "(string \<times> (string \<times> string) list) list" where
  "SETUPS =
    [(''loraham'', [(''433'', ''loraham''), (''868'', ''loraham'')]),
     (''uputronics'', [(''433'', ''uputronics-ce0''), (''868'', ''uputronics-ce1'')]),
     (''uputronics-433'', [(''433'', ''uputronics-ce0'')]),
     (''uputronics-868'', [(''868'', ''uputronics-ce1'')]),
     (''waveshare-433'', [(''433'', ''waveshare-sx1262'')]),
     (''waveshare-868'', [(''868'', ''waveshare-sx1262'')])]"

definition resolve :: "string \<Rightarrow> string \<Rightarrow> exn + profile" where
  "resolve setup band = (case map_of SETUPS setup of
       None \<Rightarrow> Inl (ProfileError ''unknown hardware setup'')
     | Some bands \<Rightarrow> (case map_of bands band of
           None \<Rightarrow> Inl (ProfileError ''hardware setup does not serve band'')
         | Some preset \<Rightarrow> (case PRESETS (preset, band) of
               None \<Rightarrow> Inl (ProfileError ''no wiring for preset'')
             | Some prof \<Rightarrow> Inr prof)))"

text \<open>
  \<open>_DRIVERS\<close> of \<open>loraham_rns/interface.py\<close>: the driver class a chip name selects.
\<close>

datatype driver = SX127x | SX1262

definition DRIVERS :: "string \<rightharpoonup> driver" where
  "DRIVERS = map_of [(''sx1276'', SX127x), (''sx1277'', SX127x), (''sx1278'', SX127x), (''sx1262'', SX1262)]"

text \<open>The combinations of setup and band that a board exists for.\<close>

definition served :: "(string \<times> string) list" where
  "served = [(''loraham'', ''433''), (''loraham'', ''868''), (''uputronics'', ''433''), (''uputronics'', ''868''),
     (''uputronics-433'', ''433''), (''uputronics-868'', ''868''), (''waveshare-433'', ''433''),
     (''waveshare-868'', ''868'')]"

text \<open>What a profile must satisfy for the driver its chip selects.\<close>

definition wiring_ok :: "string \<Rightarrow> profile \<Rightarrow> bool" where
  "wiring_ok band p \<longleftrightarrow>
     DRIVERS (chip p) \<noteq> None \<and> 0 \<le> cs p \<and> 0 \<le> irq p \<and> band \<in> {''433'', ''868''} \<and>
     (DRIVERS (chip p) = Some SX1262 \<longleftrightarrow> busy p \<noteq> NC) \<and>
     (DRIVERS (chip p) = Some SX127x \<longrightarrow> txen p = NC \<and> tcxo_voltage p = 0 \<and> \<not> dio2_rf_switch p) \<and>
     distinct (filter (\<lambda>l. l \<noteq> NC) [cs p, irq p, reset p, busy p, txen p, rxen p])"

lemmas table_defs = SETUPS_def PRESETS_def DRIVERS_def NC_def

lemma resolve_table: "list_all (\<lambda>(s, b). case resolve s b of Inr p \<Rightarrow> wiring_ok b p | Inl _ \<Rightarrow> False) served"
  by code_simp

lemma resolve_served: "(s, b) \<in> set served \<Longrightarrow> \<exists>p. resolve s b = Inr p \<and> wiring_ok b p"
proof -
  assume "(s, b) \<in> set served"
  with resolve_table have "case resolve s b of Inr p \<Rightarrow> wiring_ok b p | Inl _ \<Rightarrow> False"
    unfolding list_all_iff by blast
  then show ?thesis by (cases "resolve s b") auto
qed

lemma setups_table: "list_all (\<lambda>(s, bands). list_all (\<lambda>(b, _). List.member served (s, b)) bands) SETUPS"
  by code_simp

lemma setups_served:
  assumes "map_of SETUPS s = Some bands" and "map_of bands b = Some preset"
  shows "(s, b) \<in> set served"
proof -
  from assms have "(s, bands) \<in> set SETUPS" "(b, preset) \<in> set bands" by (auto dest: map_of_SomeD)
  with setups_table show ?thesis unfolding list_all_iff by fastforce
qed

lemma resolve_unserved:
  assumes "(s, b) \<notin> set served"
  shows "resolve s b \<in> {Inl (ProfileError ''unknown hardware setup''),
                        Inl (ProfileError ''hardware setup does not serve band'')}"
proof (cases "map_of SETUPS s")
  case None
  then show ?thesis by (simp add: resolve_def)
next
  case (Some bands)
  with assms setups_served [OF Some, of b] have "map_of bands b = None"
    by (cases "map_of bands b") auto
  with Some show ?thesis by (simp add: resolve_def)
qed

lemma resolve_wiring: "resolve s b = Inr p \<Longrightarrow> wiring_ok b p"
  using resolve_served [of s b] resolve_unserved [of s b] by fastforce

lemma resolve_driver: "resolve s b = Inr p \<Longrightarrow> \<exists>d. DRIVERS (chip p) = Some d"
  using resolve_wiring by (auto simp: wiring_ok_def)

lemma resolve_band: "resolve s b = Inr p \<Longrightarrow> b = ''433'' \<or> b = ''868''"
  using resolve_wiring by (auto simp: wiring_ok_def)

text \<open>
  C36. \<open>resolve\<close> never guesses: it returns a profile for exactly the eight combinations of
  setup and band a board exists for, every profile it returns has a driver and a wiring that
  fits it (BUSY is wired exactly on the SX1262, no line is used twice), and everything else
  raises \<open>ProfileError\<close>; the third error of the code, a preset without wiring, never occurs.
\<close>

theorem resolve_exact:
  "(case resolve s b of
      Inr p \<Rightarrow> (s, b) \<in> set served \<and> wiring_ok b p
    | Inl e \<Rightarrow> (s, b) \<notin> set served \<and>
        e \<in> {ProfileError ''unknown hardware setup'', ProfileError ''hardware setup does not serve band''})"
  using resolve_served [of s b] resolve_unserved [of s b]
  by (cases "(s, b) \<in> set served") auto

end
