(* ===== verification/Framing.thy ===== *)
theory Framing
  imports Py_Text
begin

text \<open>
  RNode air framing, \<open>loraham_rns/framing.py\<close>: the firmware's preamble rule, the one-byte
  header that \<open>frame\<close> puts on every LoRa frame, and the \<open>Reassembler\<close> of the receive path.
  The firmware's own receive rules, as the module's documentation lists them, are the
  abstract machine \<open>fw_feed\<close> that the reassembler is compared with.
\<close>

section \<open>Constants and the preamble rule\<close>

definition HEADER_L :: nat where "HEADER_L = 1"
definition FLAG_SPLIT :: byte where "FLAG_SPLIT = 0x01"
definition SEQ_UNSET :: byte where "SEQ_UNSET = 0xFF"
definition FRAME_PAYLOAD :: nat where "FRAME_PAYLOAD = 255 - HEADER_L"
definition FRAMED_MTU :: nat where "FRAMED_MTU = 2 * FRAME_PAYLOAD"

definition PREAMBLE_SYMBOLS_MIN :: int where "PREAMBLE_SYMBOLS_MIN = 18"
definition PREAMBLE_TARGET_MS :: real where "PREAMBLE_TARGET_MS = 24"
definition PREAMBLE_FAST_DELTA_MS :: real where "PREAMBLE_FAST_DELTA_MS = 18"
definition FAST_THRESHOLD_BPS :: real where "FAST_THRESHOLD_BPS = 30000"

text \<open>\<open>2 ** n\<close> of an integer exponent.\<close>

definition pow2 :: "int \<Rightarrow> real" where
  "pow2 n = (if 0 \<le> n then 2 ^ nat n else 1 / 2 ^ nat (- n))"

text \<open>
  \<open>(2 ** sf) / bw\<close> overflows a float from \<open>sf = 1024\<close> on; \<open>bw = 0\<close> and \<open>cr = 0\<close> divide
  by zero.
\<close>

definition rnode_preamble :: "int \<Rightarrow> int \<Rightarrow> int \<Rightarrow> exn + int" where
  "rnode_preamble sf bandwidth cr = (let bw = real_of_int bandwidth in
     if sf \<ge> 1024 then Inl OverflowError
     else if bw = 0 then Inl ZeroDivisionError
     else let symbol_time_ms = pow2 sf / bw * 1000 in
       if cr = 0 then Inl ZeroDivisionError
       else let bitrate = of_int sf * (4 / of_int cr) / (pow2 sf / (bw / 1000)) * 1000;
              target_ms = PREAMBLE_TARGET_MS - (if bitrate > FAST_THRESHOLD_BPS then PREAMBLE_FAST_DELTA_MS else 0);
              symbols = target_ms / symbol_time_ms
            in Inr (if symbols < of_int PREAMBLE_SYMBOLS_MIN then PREAMBLE_SYMBOLS_MIN else \<lceil>symbols\<rceil>))"

lemma pow2_pos [simp]: "0 < pow2 n"
  by (simp add: pow2_def)

section \<open>Splitting a packet\<close>

text \<open>\<open>[data[i:i + n] for i in range(0, len(data), n)]\<close>\<close>

definition slices :: "nat \<Rightarrow> 'a list \<Rightarrow> 'a list list" where
  "slices n xs = map (\<lambda>k. take n (drop (k * n) xs)) [0 ..< (length xs + n - 1) div n]"

text \<open>
  \<open>frame(data, header)\<close>; \<open>rnd\<close> is the value of \<open>random.getrandbits(8)\<close>, used when no
  header is given.
\<close>

definition frame :: "byte \<Rightarrow> int option \<Rightarrow> byte list \<Rightarrow> exn + byte list list" where
  "frame rnd header data =
     (if length data > FRAMED_MTU then Inl (ValueError ''exceeds the RNode MTU'')
      else let head = (case header of None \<Rightarrow> rnd | Some h \<Rightarrow> word_of_int h) AND 0xF0;
             head' = (if length data > FRAME_PAYLOAD then head OR FLAG_SPLIT else head);
             chunks = (if slices FRAME_PAYLOAD data = [] then [[]] else slices FRAME_PAYLOAD data)
           in Inr (map (\<lambda>chunk. [head'] @ chunk) chunks))"

section \<open>The reassembler\<close>

record reassembler =
  max_age :: "real option"
  r_seq :: byte
  r_buf :: "byte list"
  r_since :: real
  r_dropped :: nat

definition new_reassembler :: "real option \<Rightarrow> reassembler" where
  "new_reassembler age = \<lparr>max_age = age, r_seq = SEQ_UNSET, r_buf = [], r_since = 0, r_dropped = 0\<rparr>"

definition r_reset :: "reassembler \<Rightarrow> reassembler" where
  "r_reset r = r\<lparr>r_seq := SEQ_UNSET, r_buf := []\<rparr>"

definition r_drop :: "reassembler \<Rightarrow> reassembler" where
  "r_drop r = r\<lparr>r_dropped := r_dropped r + 1\<rparr>"

definition r_hold :: "byte \<Rightarrow> byte list \<Rightarrow> real \<Rightarrow> reassembler \<Rightarrow> reassembler" where
  "r_hold seq payload now r = r\<lparr>r_seq := seq, r_buf := payload, r_since := now\<rparr>"

definition header_seq :: "byte \<Rightarrow> byte" where
  "header_seq h = drop_bit 4 h"

definition header_split :: "byte \<Rightarrow> bool" where
  "header_split h = (h AND FLAG_SPLIT \<noteq> 0)"

definition stale :: "reassembler \<Rightarrow> real \<Rightarrow> bool" where
  "stale r now = (r_seq r \<noteq> SEQ_UNSET \<and>
     (case max_age r of None \<Rightarrow> False | Some age \<Rightarrow> now - r_since r > age))"

text \<open>\<open>feed(raw)\<close>; \<open>now\<close> is the value of the reassembler's clock at this call.\<close>

definition feed :: "reassembler \<Rightarrow> real \<Rightarrow> byte list \<Rightarrow> byte list option \<times> reassembler" where
  "feed r now raw =
     (if length raw \<le> HEADER_L then
        (let r1 = (if r_seq r \<noteq> SEQ_UNSET then r_reset (r_drop r) else r) in (None, r_drop r1))
      else
        let header = hd raw; payload = drop HEADER_L raw;
            seq = header_seq header; split = header_split header;
            r1 = (if stale r now then r_reset (r_drop r) else r)
        in if split then
             (if r_seq r1 = SEQ_UNSET then (None, r_hold seq payload now r1)
              else if r_seq r1 = seq then (Some (r_buf r1 @ payload), r_reset r1)
              else (None, r_hold seq payload now (r_drop r1)))
           else (Some payload, if r_seq r1 \<noteq> SEQ_UNSET then r_reset (r_drop r1) else r1))"

text \<open>A run of the reassembler over the frames received, each with its arrival time.\<close>

fun feed_all :: "reassembler \<Rightarrow> (real \<times> byte list) list \<Rightarrow> byte list option list \<times> reassembler" where
  "feed_all r [] = ([], r)"
| "feed_all r ((now, raw) # fs) =
     (let (out, r1) = feed r now raw; (outs, r2) = feed_all r1 fs in (out # outs, r2))"

subsection \<open>The firmware's receive rules\<close>

text \<open>
  The abstract machine of the module's documentation: a pending first fragment with its
  sequence, no clock. Split with no buffer starts one; split with the same sequence appends
  and delivers; split with another sequence replaces the buffer; not split discards the
  buffer and delivers the frame. A header with nothing behind it is a frame with an empty payload.
\<close>

fun fw_feed :: "(byte \<times> byte list) option \<Rightarrow> byte list \<Rightarrow> byte list option \<times> (byte \<times> byte list) option" where
  "fw_feed p [] = (None, p)"
| "fw_feed p (h # payload) =
     (if header_split h then
        (case p of
           None \<Rightarrow> (None, Some (header_seq h, payload))
         | Some (q, b) \<Rightarrow> if q = header_seq h then (Some (b @ payload), None)
                         else (None, Some (header_seq h, payload)))
      else (Some payload, None))"

fun fw_feed_all ::
  "(byte \<times> byte list) option \<Rightarrow> byte list list \<Rightarrow> byte list option list \<times> (byte \<times> byte list) option" where
  "fw_feed_all p [] = ([], p)"
| "fw_feed_all p (raw # fs) =
     (let (out, p1) = fw_feed p raw; (outs, p2) = fw_feed_all p1 fs in (out # outs, p2))"

definition pending :: "reassembler \<Rightarrow> (byte \<times> byte list) option" where
  "pending r = (if r_seq r = SEQ_UNSET then None else Some (r_seq r, r_buf r))"

text \<open>The invariant of the reassembler: an unset sequence has no buffer, a set one is a nibble.\<close>

definition reassembler_inv :: "reassembler \<Rightarrow> bool" where
  "reassembler_inv r \<longleftrightarrow> (if r_seq r = SEQ_UNSET then r_buf r = [] else unat (r_seq r) < 16 \<and> r_buf r \<noteq> [])"

section \<open>Lemmas\<close>

lemmas frame_consts = HEADER_L_def FRAME_PAYLOAD_def FRAMED_MTU_def

lemma header_seq_bound: "unat (header_seq h) < 16"
proof -
  have "unat (drop_bit 4 h) = unat h div 2 ^ 4"
    by (simp add: drop_bit_eq_div unat_div_distrib)
  moreover have "unat h < 2 ^ LENGTH(8)" by (rule unsigned_less)
  ultimately show ?thesis by (simp add: header_seq_def)
qed

lemma header_seq_set [simp]: "header_seq h \<noteq> SEQ_UNSET"
  using header_seq_bound [of h] by (auto simp: SEQ_UNSET_def)

lemma SEQ_UNSET_neq [simp]: "SEQ_UNSET \<noteq> header_seq h"
  using header_seq_set [of h] by metis

lemma reassembler_fields [simp]:
  "r_seq (r_reset r) = SEQ_UNSET" "r_buf (r_reset r) = []" "max_age (r_reset r) = max_age r"
  "r_since (r_reset r) = r_since r" "r_dropped (r_reset r) = r_dropped r"
  "r_seq (r_drop r) = r_seq r" "r_buf (r_drop r) = r_buf r" "max_age (r_drop r) = max_age r"
  "r_since (r_drop r) = r_since r" "r_dropped (r_drop r) = Suc (r_dropped r)"
  "r_seq (r_hold q p n r) = q" "r_buf (r_hold q p n r) = p" "max_age (r_hold q p n r) = max_age r"
  "r_since (r_hold q p n r) = n" "r_dropped (r_hold q p n r) = r_dropped r"
  by (simp_all add: r_reset_def r_drop_def r_hold_def)

lemma feed_max_age [simp]: "max_age (snd (feed r now raw)) = max_age r"
  by (simp add: feed_def Let_def)

lemma feed_max_age_eq: "feed r now raw = (out, r') \<Longrightarrow> max_age r' = max_age r"
  using feed_max_age [of r now raw] by (simp del: feed_max_age)

lemma reassembler_inv_new [simp]: "reassembler_inv (new_reassembler age)"
  by (simp add: reassembler_inv_def new_reassembler_def)

lemma feed_inv: "reassembler_inv r \<Longrightarrow> reassembler_inv (snd (feed r now raw))"
  using header_seq_bound
  by (cases raw) (auto simp: feed_def reassembler_inv_def Let_def frame_consts)

lemma feed_all_snoc:
  "feed_all r (fs @ [f]) =
     (fst (feed_all r fs) @ [fst (feed (snd (feed_all r fs)) (fst f) (snd f))],
      snd (feed (snd (feed_all r fs)) (fst f) (snd f)))"
  by (induction fs arbitrary: r) (cases f, auto simp: case_prod_beta)

lemma feed_all_length [simp]: "length (fst (feed_all r fs)) = length fs"
  by (induction r fs rule: feed_all.induct) (auto split: prod.splits)

lemma feed_all_inv: "reassembler_inv r \<Longrightarrow> reassembler_inv (snd (feed_all r fs))"
proof (induction r fs rule: feed_all.induct)
  case (2 r now raw fs)
  then show ?case using feed_inv [of r now raw] by (auto split: prod.splits)
qed simp

lemma feed_all_max_age [simp]: "max_age (snd (feed_all r fs)) = max_age r"
proof (induction r fs rule: feed_all.induct)
  case (2 r now raw fs)
  then show ?case using feed_max_age [of r now raw] by (auto split: prod.splits simp del: feed_max_age)
qed simp

subsection \<open>Frames\<close>

lemma slices_short: "xs \<noteq> [] \<Longrightarrow> length xs \<le> n \<Longrightarrow> slices n xs = [xs]"
proof -
  assume xs: "xs \<noteq> []" "length xs \<le> n"
  then have "(length xs + n - 1) div n = Suc 0"
    by (cases xs) (auto intro!: div_nat_eqI)
  with xs show ?thesis by (simp add: slices_def)
qed

lemma slices_two:
  "n < length xs \<Longrightarrow> length xs \<le> 2 * n \<Longrightarrow> slices n xs = [take n xs, drop n xs]"
proof -
  assume xs: "n < length xs" "length xs \<le> 2 * n"
  then have "(length xs + n - 1) div n = Suc (Suc 0)"
    by (intro div_nat_eqI) auto
  with xs show ?thesis by (simp add: slices_def)
qed

lemma slices_Nil [simp]: "0 < n \<Longrightarrow> slices n [] = []"
  by (simp add: slices_def)

definition base_header :: "byte \<Rightarrow> int option \<Rightarrow> byte" where
  "base_header rnd header = (case header of None \<Rightarrow> rnd | Some h \<Rightarrow> word_of_int h) AND 0xF0"

lemma base_header_split: "\<not> header_split (base_header rnd h)" "header_split (base_header rnd h OR FLAG_SPLIT)"
  by (auto simp: header_split_def base_header_def FLAG_SPLIT_def and.assoc bit.conj_disj_distrib2)

lemma high_nibble_kept: "drop_bit 4 (x AND 0xF0) = drop_bit 4 (x :: byte)"
proof -
  have "take_bit 4 (drop_bit 4 x) = drop_bit 4 x"
    by (rule bit_eqI) (auto simp: bit_take_bit_iff bit_drop_bit_eq dest: bit_imp_le_length)
  moreover have "(mask 4 :: byte) = 15" by (simp add: mask_eq_exp_minus_1)
  ultimately have "drop_bit 4 x AND 15 = drop_bit 4 x" by (metis take_bit_eq_mask)
  then show ?thesis by simp
qed

lemma header_seq_or_flag: "header_seq (x OR FLAG_SPLIT) = header_seq x"
  by (simp add: header_seq_def FLAG_SPLIT_def)

lemma frame_cases:
  assumes "frame rnd h data = Inr fs"
  shows "(length data \<le> FRAME_PAYLOAD \<and> fs = [base_header rnd h # data]) \<or>
         (FRAME_PAYLOAD < length data \<and> length data \<le> FRAMED_MTU \<and>
          fs = [(base_header rnd h OR FLAG_SPLIT) # take FRAME_PAYLOAD data,
                (base_header rnd h OR FLAG_SPLIT) # drop FRAME_PAYLOAD data])"
proof (cases "length data \<le> FRAME_PAYLOAD")
  case True
  with assms show ?thesis
    by (cases "data = []") (auto simp: frame_def base_header_def Let_def slices_short frame_consts split: if_splits)
next
  case False
  with assms show ?thesis
    by (auto simp: frame_def base_header_def Let_def slices_two frame_consts split: if_splits)
qed

lemma frame_total: "length data \<le> FRAMED_MTU \<Longrightarrow> \<exists>fs. frame rnd h data = Inr fs"
  by (simp add: frame_def Let_def)

subsection \<open>One step of the reassembler\<close>

lemma stale_pending: "stale r now \<Longrightarrow> pending r \<noteq> None"
  by (simp add: stale_def pending_def)

lemma feed_whole:
  "payload \<noteq> [] \<Longrightarrow> \<not> header_split h \<Longrightarrow>
   \<exists>r'. feed r now (h # payload) = (Some payload, r') \<and> pending r' = None \<and>
     r_dropped r' = r_dropped r + (if pending r = None then 0 else 1)"
  by (cases payload) (auto simp: feed_def Let_def frame_consts pending_def stale_def)

lemma feed_first_half:
  "payload \<noteq> [] \<Longrightarrow> header_split h \<Longrightarrow> pending r = None \<or> fst (the (pending r)) \<noteq> header_seq h \<or> stale r now \<Longrightarrow>
   \<exists>r'. feed r now (h # payload) = (None, r') \<and> pending r' = Some (header_seq h, payload) \<and>
     r_since r' = now \<and> r_dropped r' = r_dropped r + (if pending r = None then 0 else 1)"
  by (cases payload) (auto simp: feed_def Let_def frame_consts pending_def stale_def)

lemma feed_second_half:
  "payload \<noteq> [] \<Longrightarrow> header_split h \<Longrightarrow> pending r = Some (header_seq h, b) \<Longrightarrow> \<not> stale r now \<Longrightarrow>
   \<exists>r'. feed r now (h # payload) = (Some (b @ payload), r') \<and> pending r' = None \<and> r_dropped r' = r_dropped r"
  by (cases payload) (auto simp: feed_def Let_def frame_consts pending_def split: if_splits)

lemma feed_header_only:
  "length raw \<le> 1 \<Longrightarrow>
   \<exists>r'. feed r now raw = (None, r') \<and> pending r' = None \<and>
     r_dropped r' = r_dropped r + (if pending r = None then 1 else 2)"
  by (auto simp: feed_def Let_def frame_consts pending_def)

lemma feed_delivers:
  assumes "feed r now raw = (Some p, r')"
  obtains h payload where "raw = h # payload" "payload \<noteq> []" "\<not> header_split h" "p = payload"
  | h payload b where "raw = h # payload" "payload \<noteq> []" "header_split h"
      "pending r = Some (header_seq h, b)" "\<not> stale r now" "p = b @ payload"
proof -
  from assms obtain h payload where raw: "raw = h # payload" "payload \<noteq> []"
    by (cases raw; cases "tl raw") (auto simp: feed_def Let_def frame_consts)
  show thesis
  proof (cases "header_split h")
    case False
    with feed_whole [OF raw(2) False, of r now] assms raw that(1) show ?thesis by auto
  next
    case True
    with feed_first_half [OF raw(2) True, of r now] assms raw
    have "pending r \<noteq> None" "fst (the (pending r)) = header_seq h" "\<not> stale r now"
      by (cases "pending r"; auto)+
    then obtain b where b: "pending r = Some (header_seq h, b)" by (cases "pending r") auto
    with feed_second_half [OF raw(2) True b \<open>\<not> stale r now\<close>] assms raw \<open>\<not> stale r now\<close> True that(2)
    show ?thesis by auto
  qed
qed

lemma feed_pending:
  assumes "feed r now raw = (out, r')" and "pending r' = Some (q, b)"
  shows "\<exists>h. raw = h # b \<and> b \<noteq> [] \<and> header_split h \<and> q = header_seq h \<and> r_since r' = now \<and> out = None"
proof (cases "length raw \<le> 1")
  case True
  with feed_header_only [OF True, of r now] assms show ?thesis by auto
next
  case False
  then obtain h payload where raw: "raw = h # payload" "payload \<noteq> []"
    by (cases raw) auto
  show ?thesis
  proof (cases "header_split h")
    case split: True
    show ?thesis
    proof (cases "pending r = None \<or> fst (the (pending r)) \<noteq> header_seq h \<or> stale r now")
      case True
      with feed_first_half [OF raw(2) split True] assms raw split show ?thesis by auto
    next
      case no: False
      then obtain c where "pending r = Some (header_seq h, c)" by auto
      with feed_second_half [OF raw(2) split, of r c now] no assms raw show ?thesis by auto
    qed
  next
    case False
    with feed_whole [OF raw(2) False, of r now] assms raw show ?thesis by auto
  qed
qed

lemma feed_all_nth:
  "i < length fs \<Longrightarrow>
   fst (feed_all r fs) ! i = fst (feed (snd (feed_all r (take i fs))) (fst (fs ! i)) (snd (fs ! i)))"
proof (induction fs rule: rev_induct)
  case (snoc f fs)
  then show ?case
    by (cases "i = length fs") (auto simp: feed_all_snoc nth_append)
qed simp

lemma feed_all_pending:
  assumes "pending (snd (feed_all (new_reassembler age) fs)) = Some (q, b)"
  shows "fs \<noteq> [] \<and> (\<exists>h. last fs = (r_since (snd (feed_all (new_reassembler age) fs)), h # b) \<and>
     b \<noteq> [] \<and> header_split h \<and> q = header_seq h)"
proof (cases fs rule: rev_cases)
  case Nil
  with assms show ?thesis by (simp add: pending_def new_reassembler_def)
next
  case (snoc gs f)
  let ?r = "snd (feed_all (new_reassembler age) gs)"
  obtain out r' where f: "feed ?r (fst f) (snd f) = (out, r')" by (cases "feed ?r (fst f) (snd f)")
  then have r': "snd (feed_all (new_reassembler age) fs) = r'"
    by (simp add: snoc feed_all_snoc)
  with feed_pending [OF f] assms snoc show ?thesis by (cases f) auto
qed

lemma feed_all_deliveries:
  assumes i: "i < length fs" and out: "fst (feed_all (new_reassembler age) fs) ! i = Some p"
    and fi: "fs ! i = (t, raw)"
  shows "raw \<noteq> [] \<and> (\<not> header_split (hd raw) \<and> p = tl raw \<or>
     (\<exists>t0 raw0. 0 < i \<and> fs ! (i - 1) = (t0, raw0) \<and> raw0 \<noteq> [] \<and>
        header_split (hd raw) \<and> header_split (hd raw0) \<and> header_seq (hd raw0) = header_seq (hd raw) \<and>
        p = tl raw0 @ tl raw \<and> (\<forall>a. age = Some a \<longrightarrow> t - t0 \<le> a)))"
proof -
  let ?r = "snd (feed_all (new_reassembler age) (take i fs))"
  have "fst (feed ?r t raw) = Some p"
    using feed_all_nth [OF i, of "new_reassembler age"] out fi by simp
  then obtain r' where f: "feed ?r t raw = (Some p, r')" by (cases "feed ?r t raw") auto
  then show ?thesis
  proof (cases rule: feed_delivers)
    case (1 h payload)
    then show ?thesis by simp
  next
    case (2 h payload b)
    from feed_all_pending [OF 2(4)] obtain h0 where
      last: "take i fs \<noteq> []" "last (take i fs) = (r_since ?r, h0 # b)" "header_split h0" "header_seq h = header_seq h0"
      by auto
    then have pos: "0 < i" "fs ! (i - 1) = (r_since ?r, h0 # b)"
      using i by (auto simp: last_conv_nth min_def split: if_splits)
    have "max_age ?r = age" by (simp add: new_reassembler_def)
    with 2 have "\<forall>a. age = Some a \<longrightarrow> t - r_since ?r \<le> a"
      by (auto simp: stale_def pending_def split: if_splits)
    with 2 last pos show ?thesis by auto
  qed
qed

subsection \<open>Accounting of received frames\<close>

definition held :: "reassembler \<Rightarrow> nat" where
  "held r = (if pending r = None then 0 else 1)"

text \<open>The frames a delivery consumes: two for a split packet, one for a whole one.\<close>

definition consumed :: "byte list \<Rightarrow> byte list option \<Rightarrow> nat" where
  "consumed raw out = (case out of None \<Rightarrow> 0 | Some _ \<Rightarrow> if header_split (hd raw) then 2 else 1)"

lemma feed_accounts:
  "feed r now raw = (out, r') \<Longrightarrow>
   r_dropped r' + consumed raw out + held r' = Suc (r_dropped r + held r)"
proof (cases "length raw \<le> 1")
  case True
  assume "feed r now raw = (out, r')"
  with feed_header_only [OF True, of r now] show ?thesis by (auto simp: held_def consumed_def)
next
  case False
  assume f: "feed r now raw = (out, r')"
  from False obtain h payload where raw: "raw = h # payload" "payload \<noteq> []"
    by (cases raw) auto
  show ?thesis
  proof (cases "header_split h")
    case split: True
    show ?thesis
    proof (cases "pending r = None \<or> fst (the (pending r)) \<noteq> header_seq h \<or> stale r now")
      case True
      with feed_first_half [OF raw(2) split True] f raw split show ?thesis
        by (auto simp: held_def consumed_def)
    next
      case no: False
      then obtain c where "pending r = Some (header_seq h, c)" by auto
      with feed_second_half [OF raw(2) split, of r c now] no f raw split show ?thesis
        by (auto simp: held_def consumed_def)
    qed
  next
    case False
    with feed_whole [OF raw(2) False, of r now] f raw show ?thesis
      by (auto simp: held_def consumed_def)
  qed
qed

lemma feed_all_accounts:
  "feed_all r fs = (outs, r') \<Longrightarrow>
   r_dropped r' + (\<Sum>(f, out) \<leftarrow> zip fs outs. consumed (snd f) out) + held r' = r_dropped r + held r + length fs"
proof (induction r fs arbitrary: outs r' rule: feed_all.induct)
  case (2 r now raw fs)
  obtain out r1 where f: "feed r now raw = (out, r1)" by fastforce
  obtain outs2 r2 where fa: "feed_all r1 fs = (outs2, r2)" by fastforce
  from 2 f fa have "outs = out # outs2" "r' = r2" by auto
  with feed_accounts [OF f] "2.IH" [OF refl f [symmetric]] fa show ?case by simp
qed simp

section \<open>The interface of a packet reassembler\<close>

text \<open>
  What the receive loop relies on: a state with a pending half or none, whole frames always
  delivered, and the two halves of a packet delivered as one when nothing comes between
  them. \<open>in_time\<close> is the age test on the pending half. The receive loop's guarantee, that
  the frames of one packet come out as that packet from an idle state, is proved from these
  laws alone.
\<close>

locale packet_reassembler =
  fixes step :: "'r \<Rightarrow> real \<Rightarrow> byte list \<Rightarrow> byte list option \<times> 'r"
    and idle :: "'r \<Rightarrow> bool"
    and half :: "'r \<Rightarrow> byte \<Rightarrow> byte list \<Rightarrow> real \<Rightarrow> bool"
    and in_time :: "'r \<Rightarrow> real \<Rightarrow> real \<Rightarrow> bool"
    and lost :: "'r \<Rightarrow> nat"
  assumes whole_law: "payload \<noteq> [] \<Longrightarrow> \<not> header_split h \<Longrightarrow> idle r \<Longrightarrow>
      \<exists>r'. step r now (h # payload) = (Some payload, r') \<and> idle r' \<and> lost r' = lost r"
    and first_law: "payload \<noteq> [] \<Longrightarrow> header_split h \<Longrightarrow> idle r \<Longrightarrow>
      \<exists>r'. step r now (h # payload) = (None, r') \<and> half r' (header_seq h) payload now \<and> lost r' = lost r \<and>
        (\<forall>t0 t. in_time r' t0 t = in_time r t0 t)"
    and second_law: "payload \<noteq> [] \<Longrightarrow> header_split h \<Longrightarrow> half r (header_seq h) b t0 \<Longrightarrow> in_time r t0 now \<Longrightarrow>
      \<exists>r'. step r now (h # payload) = (Some (b @ payload), r') \<and> idle r' \<and> lost r' = lost r"
begin

lemma packet_delivered:
  assumes fr: "frame rnd hdr data = Inr fs" and data: "data \<noteq> []" and idle: "idle r" and late: "in_time r t0 t1"
  shows "(\<exists>f r'. fs = [f] \<and> step r t0 f = (Some data, r') \<and> idle r' \<and> lost r' = lost r) \<or>
     (\<exists>f g r1 r'. fs = [f, g] \<and> step r t0 f = (None, r1) \<and> step r1 t1 g = (Some data, r') \<and>
        idle r' \<and> lost r' = lost r)"
  using frame_cases [OF fr]
proof (elim disjE conjE)
  assume "fs = [base_header rnd hdr # data]"
  with whole_law [OF data base_header_split(1) [of rnd hdr] idle, of t0] show ?thesis by blast
next
  let ?h = "base_header rnd hdr OR FLAG_SPLIT"
  assume len: "FRAME_PAYLOAD < length data"
    and fs: "fs = [?h # take FRAME_PAYLOAD data, ?h # drop FRAME_PAYLOAD data]"
  have ne: "take FRAME_PAYLOAD data \<noteq> []" "drop FRAME_PAYLOAD data \<noteq> []"
    using len by (auto simp: frame_consts)
  from first_law [OF ne(1) base_header_split(2) idle, of t0] obtain r1 where r1:
    "step r t0 (?h # take FRAME_PAYLOAD data) = (None, r1)"
    "half r1 (header_seq ?h) (take FRAME_PAYLOAD data) t0" "lost r1 = lost r" "in_time r1 t0 t1"
    using late by blast
  from second_law [OF ne(2) base_header_split(2) r1(2,4)] obtain r' where
    "step r1 t1 (?h # drop FRAME_PAYLOAD data) = (Some data, r')" "idle r'" "lost r' = lost r1"
    unfolding append_take_drop_id by blast
  with r1 fs show ?thesis by simp
qed

end

interpretation rx: packet_reassembler feed "\<lambda>r. pending r = None"
    "\<lambda>r q b t. pending r = Some (q, b) \<and> r_since r = t"
    "\<lambda>r t0 t. \<forall>a. max_age r = Some a \<longrightarrow> t - t0 \<le> a" r_dropped
proof unfold_locales
  fix payload :: "byte list" and h r now
  assume "payload \<noteq> []" "\<not> header_split h" "pending r = None"
  with feed_whole [of payload h r now]
  show "\<exists>r'. feed r now (h # payload) = (Some payload, r') \<and> pending r' = None \<and> r_dropped r' = r_dropped r"
    by auto
next
  fix payload :: "byte list" and h r now
  assume "payload \<noteq> []" "header_split h" "pending r = None"
  with feed_first_half [of payload h r now] obtain r' where r':
    "feed r now (h # payload) = (None, r')" "pending r' = Some (header_seq h, payload)" "r_since r' = now"
    "r_dropped r' = r_dropped r" by auto
  then show "\<exists>r'. feed r now (h # payload) = (None, r') \<and>
      (pending r' = Some (header_seq h, payload) \<and> r_since r' = now) \<and> r_dropped r' = r_dropped r \<and>
      (\<forall>t0 t. (\<forall>a. max_age r' = Some a \<longrightarrow> t - t0 \<le> a) = (\<forall>a. max_age r = Some a \<longrightarrow> t - t0 \<le> a))"
    using feed_max_age_eq [OF r'(1)] by auto
next
  fix payload b :: "byte list" and h r now t0
  assume "payload \<noteq> []" "header_split h" "pending r = Some (header_seq h, b) \<and> r_since r = t0"
    and "\<forall>a. max_age r = Some a \<longrightarrow> now - t0 \<le> a"
  moreover from this have "\<not> stale r now" by (auto simp: stale_def split: option.splits)
  ultimately
  show "\<exists>r'. feed r now (h # payload) = (Some (b @ payload), r') \<and> pending r' = None \<and> r_dropped r' = r_dropped r"
    using feed_second_half [of payload h r b now] by auto
qed

section \<open>Properties\<close>

text \<open>
  C7. Round trip of the air framing: for every non-empty packet up to the firmware's MTU, the
  frames that \<open>frame\<close> makes, fed to an idle reassembler in order, deliver exactly that
  packet, leave the reassembler idle and count no drop, whatever the random header, provided
  the second frame of a split packet arrives within \<open>max_age\<close> of the first.
\<close>

theorem frame_feed_roundtrip:
  assumes "data \<noteq> []" and "length data \<le> FRAMED_MTU" and "pending r = None"
    and "\<forall>a. max_age r = Some a \<longrightarrow> t1 - t0 \<le> a"
  shows "\<exists>fs r'. frame rnd header data = Inr fs \<and> length fs \<le> 2 \<and>
     feed_all r (zip [t0, t1] fs) = (replicate (length fs - 1) None @ [Some data], r') \<and>
     pending r' = None \<and> r_dropped r' = r_dropped r"
proof -
  from frame_total [OF assms(2)] obtain fs where fs: "frame rnd header data = Inr fs" by blast
  from rx.packet_delivered [OF fs assms(1,3,4)] fs show ?thesis
    by (elim disjE exE conjE) auto
qed

theorem frame_feed_roundtrip_witness:
  "\<exists>fs r'. frame 7 None (replicate 300 1) = Inr fs \<and> length fs \<le> 2 \<and>
     feed_all (new_reassembler (Some 5)) (zip [10, 12] fs)
       = (replicate (length fs - 1) None @ [Some (replicate 300 1)], r') \<and>
     pending r' = None \<and> r_dropped r' = r_dropped (new_reassembler (Some 5))"
  by (rule frame_feed_roundtrip) (simp_all add: frame_consts pending_def new_reassembler_def)

text \<open>
  What the reassembler delivers: whenever frame \<open>i\<close> of a run delivers a packet, either that
  frame is not split and the packet is its payload, or it is split, the frame received
  immediately before it was split with the same sequence and arrived no longer than \<open>max_age\<close>
  earlier, and the packet is the two payloads in order. Halves of different packets are
  never glued across another frame.
\<close>

theorem feed_all_provenance:
  assumes "i < length fs" and "fst (feed_all (new_reassembler age) fs) ! i = Some p" and "fs ! i = (t, raw)"
  shows "raw \<noteq> [] \<and> (\<not> header_split (hd raw) \<and> p = tl raw \<or>
     (\<exists>t0 raw0. 0 < i \<and> fs ! (i - 1) = (t0, raw0) \<and> raw0 \<noteq> [] \<and>
        header_split (hd raw) \<and> header_split (hd raw0) \<and> header_seq (hd raw0) = header_seq (hd raw) \<and>
        p = tl raw0 @ tl raw \<and> (\<forall>a. age = Some a \<longrightarrow> t - t0 \<le> a)))"
  using assms by (rule feed_all_deliveries)

theorem feed_all_provenance_witness:
  "let fs = [(0, [0x51, 1]), (1, [0x51, 2])]; raw = [0x51, 2] in
   fst (feed_all (new_reassembler (Some 5)) fs) ! 1 = Some [1, 2] \<and>
   raw \<noteq> [] \<and> (\<not> header_split (hd raw) \<and> [1, 2] = tl raw \<or>
     (\<exists>t0 raw0. 0 < (1::nat) \<and> fs ! (1 - 1) = (t0, raw0) \<and> raw0 \<noteq> [] \<and>
        header_split (hd raw) \<and> header_split (hd raw0) \<and> header_seq (hd raw0) = header_seq (hd raw) \<and>
        [1, 2] = tl raw0 @ tl raw \<and> (\<forall>a. Some 5 = Some a \<longrightarrow> 1 - t0 \<le> a)))"
proof -
  let ?fs = "[(0, [0x51, 1]), (1, [0x51, 2])] :: (real \<times> byte list) list"
  have out: "fst (feed_all (new_reassembler (Some 5)) ?fs) ! 1 = Some [1, 2]"
    by (simp add: feed_def new_reassembler_def stale_def frame_consts header_seq_def header_split_def
        FLAG_SPLIT_def SEQ_UNSET_def r_hold_def r_reset_def)
  from feed_all_provenance [of 1 ?fs, OF _ out, of 1 "[0x51, 2]"] out show ?thesis
    by (simp add: Let_def)
qed

text \<open>
  C18. No frame is lost silently: after any run, the frames received are exactly those
  consumed by deliveries (two for a split packet, one for a whole one), those counted in
  \<open>dropped\<close> and the one that may still be held.
\<close>

theorem feed_all_no_silent_loss:
  assumes "feed_all (new_reassembler age) fs = (outs, r)"
  shows "length fs = (\<Sum>(f, out) \<leftarrow> zip fs outs. consumed (snd f) out) + r_dropped r + held r"
proof -
  have "r_dropped (new_reassembler age) = 0" "held (new_reassembler age) = 0"
    by (simp_all add: new_reassembler_def held_def pending_def)
  with feed_all_accounts [OF assms] show ?thesis by simp
qed

theorem feed_all_no_silent_loss_witness:
  "let outs = fst (feed_all (new_reassembler None) [(0, [0x51, 1]), (1, [0x60, 2])]);
       r = snd (feed_all (new_reassembler None) [(0, [0x51, 1]), (1, [0x60, 2])]) in
   length [(0 :: real, [0x51, 1 :: byte]), (1, [0x60, 2])]
     = (\<Sum>(f, out) \<leftarrow> zip [(0 :: real, [0x51, 1]), (1, [0x60, 2])] outs. consumed (snd f) out) + r_dropped r + held r"
  unfolding Let_def by (rule feed_all_no_silent_loss [OF prod.collapse [symmetric]])

lemma feed_firmware:
  assumes "1 < length raw" and "\<not> stale r now"
  shows "fst (feed r now raw) = fst (fw_feed (pending r) raw) \<and>
     pending (snd (feed r now raw)) = snd (fw_feed (pending r) raw)"
proof -
  from assms obtain h payload where raw: "raw = h # payload" "payload \<noteq> []" by (cases raw) auto
  show ?thesis
  proof (cases "header_split h")
    case False
    with feed_whole [OF raw(2) False, of r now] raw show ?thesis by auto
  next
    case split: True
    show ?thesis
    proof (cases "pending r = None \<or> fst (the (pending r)) \<noteq> header_seq h")
      case True
      with feed_first_half [OF raw(2) split, of r now] raw split show ?thesis
        by (cases "pending r") auto
    next
      case False
      then obtain b where "pending r = Some (header_seq h, b)" by auto
      with feed_second_half [OF raw(2) split, of r b now] assms(2) raw split show ?thesis by auto
    qed
  qed
qed



text \<open>
  With the age guard the reassembler delivers packets the firmware would not. The
  module's documentation says of the guard that it only ever discards and "never delivers
  anything the firmware would not"; but dropping a stale half changes which later frame is
  a first half: here the third frame completes the second into a packet that the firmware,
  having glued the stale first frame to the second, never delivers.
\<close>

theorem age_guard_delivers_more:
  "\<exists>fs p. Some p \<in> set (fst (feed_all (new_reassembler (Some 5)) fs)) \<and>
     Some p \<notin> set (fst (fw_feed_all None (map snd fs)))"
proof (intro exI conjI)
  let ?fs = "[(0, [0x51, 1]), (61, [0x51, 2]), (62, [0x51, 3])] :: (real \<times> byte list) list"
  show "Some [2, 3] \<in> set (fst (feed_all (new_reassembler (Some 5)) ?fs))"
    by (simp add: feed_def new_reassembler_def stale_def frame_consts header_seq_def header_split_def
        FLAG_SPLIT_def SEQ_UNSET_def r_hold_def r_reset_def r_drop_def)
  show "Some [2, 3] \<notin> set (fst (fw_feed_all None (map snd ?fs)))"
    by (simp add: header_seq_def header_split_def FLAG_SPLIT_def)
qed

text \<open>
  Every frame on the air fits a LoRa payload and carries the firmware's header: for a
  packet within the MTU there are one or two frames of 1 to 255 bytes with the same header
  byte, whose split flag is set exactly when there are two, whose sequence is the high nibble
  of the random byte, and whose payloads concatenate to the packet. Longer packets raise.
\<close>

theorem frame_on_air:
  "(case frame rnd None data of
      Inr fs \<Rightarrow> length data \<le> 508 \<and> length fs = (if length data > 254 then 2 else 1) \<and>
        concat (map tl fs) = data \<and>
        list_all (\<lambda>f. 1 \<le> length f \<and> length f \<le> 255 \<and> hd f = hd (hd fs) \<and>
          header_split (hd f) = (length data > 254) \<and> header_seq (hd f) = drop_bit 4 rnd) fs
    | Inl e \<Rightarrow> length data > 508 \<and> is_ValueError e)"
proof (cases "frame rnd None data")
  case (Inl e)
  then show ?thesis by (auto simp: frame_def Let_def frame_consts split: if_splits)
next
  case (Inr fs)
  have seq: "header_seq (base_header rnd None) = drop_bit 4 rnd"
    by (simp add: header_seq_def base_header_def high_nibble_kept del: drop_bit_and)
  from frame_cases [OF Inr] Inr show ?thesis
    by (elim disjE conjE) (auto simp: seq header_seq_or_flag base_header_split frame_consts)
qed

text \<open>
  The preamble rule: for a positive bandwidth and a coding rate, \<open>rnode_preamble\<close> gives
  the least number of symbols, never under 18, whose duration reaches the target of 24 ms
  (6 ms above 30 kbps).
\<close>

theorem rnode_preamble_covers_target:
  assumes "sf < 1024" and "0 < bw" and "cr \<noteq> 0"
  defines "target \<equiv> if of_int sf * (4 / of_int cr) / (pow2 sf / (of_int bw / 1000)) * 1000 > 30000 then 6 else 24"
  defines "symbol \<equiv> pow2 sf / of_int bw * 1000"
  shows "\<exists>n. rnode_preamble sf bw cr = Inr n \<and> 18 \<le> n \<and> target \<le> of_int n * symbol \<and>
     (n = 18 \<or> of_int (n - 1) * symbol < target)"
proof -
  have pos: "0 < symbol" using assms by (simp add: symbol_def)
  have eq: "rnode_preamble sf bw cr = Inr (if target / symbol < 18 then 18 else \<lceil>target / symbol\<rceil>)"
    using assms(1-3) unfolding rnode_preamble_def Let_def target_def symbol_def
    by (simp add: PREAMBLE_TARGET_MS_def PREAMBLE_FAST_DELTA_MS_def PREAMBLE_SYMBOLS_MIN_def FAST_THRESHOLD_BPS_def)
  show ?thesis
  proof (cases "target / symbol < 18")
    case True
    with eq pos show ?thesis by (simp add: field_simps)
  next
    case False
    have "target / symbol \<le> of_int \<lceil>target / symbol\<rceil>" by linarith
    then have up: "target \<le> of_int \<lceil>target / symbol\<rceil> * symbol" using pos by (simp only: pos_divide_le_eq)
    have "of_int (\<lceil>target / symbol\<rceil> - 1) < target / symbol" by linarith
    then have down: "of_int (\<lceil>target / symbol\<rceil> - 1) * symbol < target" using pos by (simp only: pos_less_divide_eq)
    from False have "18 \<le> \<lceil>target / symbol\<rceil>" by linarith
    with False eq up down show ?thesis by auto
  qed
qed

theorem rnode_preamble_covers_target_witness:
  "rnode_preamble 7 500000 5 = Inr 94 \<and>
   (\<exists>n. rnode_preamble 7 500000 5 = Inr n \<and> 18 \<le> n \<and> 24 \<le> of_int n * (pow2 7 / of_int 500000 * 1000) \<and>
     (n = 18 \<or> of_int (n - 1) * (pow2 7 / of_int 500000 * 1000) < 24))"
proof
  show "rnode_preamble 7 500000 5 = Inr 94"
    by (simp add: rnode_preamble_def pow2_def PREAMBLE_TARGET_MS_def PREAMBLE_SYMBOLS_MIN_def FAST_THRESHOLD_BPS_def)
  show "\<exists>n. rnode_preamble 7 500000 5 = Inr n \<and> 18 \<le> n \<and> 24 \<le> of_int n * (pow2 7 / of_int 500000 * 1000) \<and>
     (n = 18 \<or> of_int (n - 1) * (pow2 7 / of_int 500000 * 1000) < 24)"
    using rnode_preamble_covers_target [of 7 500000 5] by (simp add: pow2_def)
qed

end
