(* ===== verification/Platform.thy ===== *)
theory Platform
  imports Py_Text
begin

text \<open>
  The surroundings of the program as parameters: a record \<open>platform\<close> of the calls it makes to
  the operating system (files, \<open>flock\<close>, clocks, \<open>sleep\<close>) and to the libraries \<open>spidev\<close>
  and \<open>gpiod\<close>, each a function on an opaque device state \<open>'d\<close>. Nothing is assumed about
  them: a call may fail whenever the platform says so, and a theorem that needs more of
  the platform (an advancing clock, a full-duplex bus) says so as a hypothesis.
\<close>

datatype os_call =
    OpenLock | CreateLock | FlockEx | FlockUn
  | OpenTmp | WriteTmp | FsyncTmp | RenameTmp | OpenDir | FsyncDir | UnlinkTmp
  | OpenSpiLock | CloseSpi | ReleaseCs | CloseSpiLock | ReleaseLine
  | OpenLog | StatLog | OpenPrev | ReadLog | WritePrev | ClosePrev | TruncLog | WriteLog | CloseLog

text \<open>
  A text file as iteration over it shows it: the lines read and the exception that ends the
  reading early, if one does. \<open>None\<close> is a path that is not a regular file.
\<close>

type_synonym text_file = "(string list \<times> exn option) option"

text \<open>What \<open>fstat\<close> says of the lock directory.\<close>

record dir_stat =
  is_dir :: bool
  owned_by_us :: bool
  shared_writable :: bool

record 'd platform =
  os_call_p :: "os_call \<Rightarrow> 'd \<Rightarrow> errno option \<times> 'd"
  os_write_p :: "nat \<Rightarrow> 'd \<Rightarrow> nat \<times> 'd"
  time_p :: "'d \<Rightarrow> real \<times> 'd"
  monotonic_p :: "'d \<Rightarrow> real \<times> 'd"
  sleep_p :: "real \<Rightarrow> 'd \<Rightarrow> bool \<times> 'd"
  random_p :: "'d \<Rightarrow> byte \<times> 'd"
  boot_id_p :: string
  lock_dir_p :: "string \<Rightarrow> dir_stat option"
  cs_gpios_p :: "int \<Rightarrow> byte list option"
  cs_gpios_size_p :: "int \<Rightarrow> int \<Rightarrow> nat option"
  spi_open_p :: "int \<Rightarrow> int \<Rightarrow> 'd \<Rightarrow> bool \<times> 'd"
  no_cs_p :: "'d \<Rightarrow> (errno + bool) \<times> 'd"
  spi_xfer2_p :: "int list \<Rightarrow> 'd \<Rightarrow> byte list option \<times> 'd"
  line_set_p :: "int \<Rightarrow> bool \<Rightarrow> 'd \<Rightarrow> bool \<times> 'd"
  line_get_p :: "int \<Rightarrow> 'd \<Rightarrow> bool option \<times> 'd"
  line_request_p :: "int \<Rightarrow> 'd \<Rightarrow> bool \<times> 'd"
  edge_wait_p :: "real \<Rightarrow> 'd \<Rightarrow> bool option \<times> 'd"

text \<open>Every object state of the model carries the device state.\<close>

record 'd world =
  dev :: 'd

text \<open>A query of the device: its answer, with the device state threaded through.\<close>

definition askM :: "('d \<Rightarrow> 'a \<times> 'd) \<Rightarrow> (('d, 'z) world_scheme, 'a) py" where
  "askM q = (\<lambda>s. case q (dev s) of (x, d) \<Rightarrow> Some (Inr x, s\<lparr>dev := d\<rparr>))"

text \<open>A call that may raise, and one that returns a value or raises.\<close>

definition callM :: "('d \<Rightarrow> exn option \<times> 'd) \<Rightarrow> (('d, 'z) world_scheme, unit) py" where
  "callM q = bindM (askM q) (\<lambda>err. case err of None \<Rightarrow> ret () | Some e \<Rightarrow> raise e)"

definition askE :: "('d \<Rightarrow> (exn + 'a) \<times> 'd) \<Rightarrow> (('d, 'z) world_scheme, 'a) py" where
  "askE q = bindM (askM q) ofE"

text \<open>An operating-system call that raises \<open>OSError\<close> when it fails.\<close>

definition osM :: "('d, 'y) platform_scheme \<Rightarrow> os_call \<Rightarrow> (('d, 'z) world_scheme, unit) py" where
  "osM E c = bindM (askM (os_call_p E c)) (\<lambda>err.
     case err of None \<Rightarrow> ret () | Some e \<Rightarrow> raise (OSError e))"

definition timeM :: "('d, 'y) platform_scheme \<Rightarrow> (('d, 'z) world_scheme, real) py" where
  "timeM E = askM (time_p E)"

definition monotonicM :: "('d, 'y) platform_scheme \<Rightarrow> (('d, 'z) world_scheme, real) py" where
  "monotonicM E = askM (monotonic_p E)"

text \<open>\<open>time.sleep\<close>; the platform says whether an interrupt arrives during it.\<close>

definition sleepM :: "('d, 'y) platform_scheme \<Rightarrow> real \<Rightarrow> (('d, 'z) world_scheme, unit) py" where
  "sleepM E t = bindM (askM (sleep_p E t)) (\<lambda>intr. if intr then raise KeyboardInterrupt else ret ())"

lemmas platform_defs = osM_def timeM_def monotonicM_def sleepM_def

text \<open>A predicate that does not look at the device state.\<close>

definition dev_free :: "(('d, 'z) world_scheme \<Rightarrow> bool) \<Rightarrow> bool" where
  "dev_free I \<longleftrightarrow> (\<forall>s d. I s \<longrightarrow> I (s\<lparr>dev := d\<rparr>))"

lemma dev_freeD: "dev_free I \<Longrightarrow> I s \<Longrightarrow> I (s\<lparr>dev := d\<rparr>)"
  by (simp add: dev_free_def)

lemma keeps_askM [keeps_rules]: "dev_free I \<Longrightarrow> keeps I (askM q)"
  by (auto simp: keeps_def askM_def dev_free_def split: prod.splits)

lemma keeps_platform [keeps_rules]:
  assumes "dev_free I"
  shows "keeps I (osM E c)" "keeps I (timeM E)" "keeps I (monotonicM E)" "keeps I (sleepM E t)"
  unfolding platform_defs using assms by (auto intro!: keeps_rules)

lemma keeps_callM: "dev_free I \<Longrightarrow> keeps I (callM q)" "dev_free I \<Longrightarrow> keeps I (askE q')"
  unfolding callM_def askE_def by (intro keeps_rules; assumption)+

lemma raises_askM [raises_rules]: "raises X (askM q)"
  by (auto simp: raises_def askM_def split: prod.splits)

lemma raises_clocks [raises_rules]: "raises X (timeM E)" "raises X (monotonicM E)"
  by (auto simp: timeM_def monotonicM_def intro: raises_rules)

lemma raises_sleepM [raises_rules]: "X KeyboardInterrupt \<Longrightarrow> raises X (sleepM E t)"
  by (auto simp: sleepM_def intro!: raises_rules)

lemma raises_osM [raises_rules]: "(\<And>e. X (OSError e)) \<Longrightarrow> raises X (osM E c)"
  by (auto simp: osM_def intro!: raises_rules)

lemma askM_Some [simp]: "askM q s = Some (Inr (fst (q (dev s))), s\<lparr>dev := snd (q (dev s))\<rparr>)"
  by (simp add: askM_def split: prod.split)

lemma wp_askM [simp]: "wp (askM q) Q X s = Q (fst (q (dev s))) (s\<lparr>dev := snd (q (dev s))\<rparr>)"
  by (simp add: wp_def)

text \<open>Rules for methods whose outcome does not depend on what the platform answers.\<close>

lemma wp_osM:
  "(\<And>d. Q () (s\<lparr>dev := d\<rparr>)) \<Longrightarrow> (\<And>e d. X (OSError e) (s\<lparr>dev := d\<rparr>)) \<Longrightarrow> wp (osM E c) Q X s"
  by (simp add: osM_def split: option.split)

lemma wp_clock:
  "(\<And>x d. Q x (s\<lparr>dev := d\<rparr>)) \<Longrightarrow> wp (timeM E) Q X s"
  "(\<And>x d. Q x (s\<lparr>dev := d\<rparr>)) \<Longrightarrow> wp (monotonicM E) Q X s"
  by (simp_all add: timeM_def monotonicM_def)

lemma wp_sleepM:
  "(\<And>d. Q () (s\<lparr>dev := d\<rparr>)) \<Longrightarrow> (\<And>d. X KeyboardInterrupt (s\<lparr>dev := d\<rparr>)) \<Longrightarrow> wp (sleepM E t) Q X s"
  by (simp add: sleepM_def)

lemma wp_callM:
  "(\<And>d. Q () (s\<lparr>dev := d\<rparr>)) \<Longrightarrow> (\<And>e d. X e (s\<lparr>dev := d\<rparr>)) \<Longrightarrow> wp (callM q) Q X s"
  by (simp add: callM_def split: option.split)

section \<open>Deadlines\<close>

text \<open>A loop that runs while a clock is before a deadline and advances it by \<open>q\<close> each round ends.\<close>

definition rounds_left :: "('d \<Rightarrow> real) \<Rightarrow> real \<Rightarrow> real \<Rightarrow> ('d, 'z) world_scheme \<Rightarrow> nat" where
  "rounds_left clk q deadline s = nat \<lceil>(deadline - clk (dev s)) / q\<rceil>"

lemma rounds_fall:
  assumes "0 < q" "clk (dev s) < deadline" "clk (dev s) + q \<le> clk (dev t)"
  shows "rounds_left clk q deadline t < rounds_left clk q deadline s"
proof -
  have "deadline - clk (dev t) \<le> deadline - clk (dev s) - q" using assms by simp
  then have "(deadline - clk (dev t)) / q \<le> (deadline - clk (dev s) - q) / q"
    using assms(1) by (intro divide_right_mono) auto
  also have "\<dots> = (deadline - clk (dev s)) / q - 1" using assms(1) by (simp add: diff_divide_distrib)
  finally have "\<lceil>(deadline - clk (dev t)) / q\<rceil> \<le> \<lceil>(deadline - clk (dev s)) / q\<rceil> - 1" by linarith
  moreover have "0 < \<lceil>(deadline - clk (dev s)) / q\<rceil>" using assms by simp
  ultimately show ?thesis by (simp add: rounds_left_def)
qed

lemma tkeeps_deadline:
  fixes clk :: "'d \<Rightarrow> real"
  assumes "0 < q" and "\<And>s. I s \<Longrightarrow> \<exists>r t. body s = Some (r, t) \<and> I t \<and>
      (r = Inr None \<longrightarrow> clk (dev s) < deadline \<and> clk (dev s) + q \<le> clk (dev t))"
  shows "tkeeps I (loopM body)"
proof (rule tkeeps_loopM [where f = "rounds_left clk q deadline"])
  fix s assume "I s"
  then show "\<exists>r t. body s = Some (r, t) \<and> I t \<and>
      (r = Inr None \<longrightarrow> rounds_left clk q deadline t < rounds_left clk q deadline s)"
    using assms(2) rounds_fall [OF assms(1)] by meson
qed

text \<open>
  A platform with a clock: \<open>time.monotonic\<close> reads it, no call turns it back, \<open>time.sleep\<close>
  advances it by the time asked for, and a system call takes at least \<open>tick\<close>.
\<close>

definition advancing :: "('d, 'y) platform_scheme \<Rightarrow> ('d \<Rightarrow> real) \<Rightarrow> real \<Rightarrow> bool" where
  "advancing E clk tick \<longleftrightarrow> 0 < tick \<and>
     (\<forall>d. fst (monotonic_p E d) = clk d \<and> clk d \<le> clk (snd (monotonic_p E d))) \<and>
     (\<forall>t d. clk d + t \<le> clk (snd (sleep_p E t d))) \<and>
     (\<forall>c d. clk d + tick \<le> clk (snd (os_call_p E c d))) \<and>
     (\<forall>p d. clk d \<le> clk (snd (spi_xfer2_p E p d))) \<and>
     (\<forall>p v d. clk d \<le> clk (snd (line_set_p E p v d))) \<and>
     (\<forall>p d. clk d \<le> clk (snd (line_get_p E p d)))"

text \<open>Time passes: an invariant for calls that end without turning the clock back.\<close>

definition after :: "('d \<Rightarrow> real) \<Rightarrow> real \<Rightarrow> ('d, 'z) world_scheme \<Rightarrow> bool" where
  "after clk c s \<longleftrightarrow> c \<le> clk (dev s)"

lemma tkeeps_askM: "(\<And>d. c \<le> clk d \<Longrightarrow> c \<le> clk (snd (q d))) \<Longrightarrow> tkeeps (after clk c) (askM q)"
  by (simp add: tkeeps_def after_def)

lemma tkeeps_forward: "(\<And>d. clk d \<le> clk (snd (q d))) \<Longrightarrow> tkeeps (after clk c) (askM q)"
  by (rule tkeeps_askM) (rule order_trans)

lemma advancingD:
  assumes "advancing E clk tick"
  shows "0 < tick" "fst (monotonic_p E d) = clk d" "clk d \<le> clk (snd (monotonic_p E d))"
    "clk d + t \<le> clk (snd (sleep_p E t d))" "clk d + tick \<le> clk (snd (os_call_p E call d))"
    "clk d \<le> clk (snd (os_call_p E call d))" "clk d \<le> clk (snd (spi_xfer2_p E p d))"
    "clk d \<le> clk (snd (line_set_p E pin v d))" "clk d \<le> clk (snd (line_get_p E pin d))"
proof -
  show os: "clk d + tick \<le> clk (snd (os_call_p E call d))" and tick: "0 < tick"
    using assms by (simp_all add: advancing_def)
  then show "clk d \<le> clk (snd (os_call_p E call d))" by linarith
qed (use assms in \<open>simp_all add: advancing_def\<close>)

lemma tkeeps_clocked [tkeeps_rules]:
  assumes "advancing E clk tick"
  shows "tkeeps (after clk c) (monotonicM E)" "tkeeps (after clk c) (osM E call)"
    "tkeeps (after clk c) (askM (spi_xfer2_p E p))" "tkeeps (after clk c) (askM (line_set_p E pin v))"
    "tkeeps (after clk c) (askM (line_get_p E pin))"
  unfolding monotonicM_def osM_def
  by (intro tkeeps_rules tkeeps_forward advancingD [OF assms])+

lemma tkeeps_sleepM [tkeeps_rules]:
  assumes "advancing E clk tick" "0 \<le> t"
  shows "tkeeps (after clk c) (sleepM E t)"
proof -
  have "clk d \<le> clk (snd (sleep_p E t d))" for d
    using advancingD(4) [OF assms(1), of d t] assms(2) by linarith
  then show ?thesis unfolding sleepM_def by (intro tkeeps_rules tkeeps_forward)
qed

end
