(* ===== verification/SpiBus.thy ===== *)
theory SpiBus
  imports Platform
begin

text \<open>
  \<open>SpiBus\<close> of \<open>loraham_rns/spibus.py\<close>: the setup that decides between kernel and soft chip
  selects, the bounded acquisition of the process-shared lock and the transaction \<open>xfer\<close>. The
  state records in \<open>bus_trace\<close> what was done to the hardware and the lock, so that the
  protocol (lock, chip select, transfer, release) is a property of a list of events.
\<close>

section \<open>State\<close>

datatype bus_event = Locked | Unlocked | SetLine int bool | Xfer "int list"

text \<open>
  \<open>soft_cs\<close> is \<open>self._cs is not None\<close>; \<open>lock_fd\<close>, \<open>spi_open\<close> and \<open>cs_claimed\<close> say which
  resources are held.
\<close>

record 'd bus = "'d world" +
  bus_path :: string
  cs_pin :: int
  soft_cs :: bool
  no_cs_mode :: string
  lock_fd :: bool
  spi_open :: bool
  cs_claimed :: bool
  bus_trace :: "bus_event list"

definition SPI_LOCK_TIMEOUT_S :: real where "SPI_LOCK_TIMEOUT_S = 2"
definition KERNEL_CS :: "int list" where "KERNEL_CS = [8, 7]"

definition happened :: "bus_event \<Rightarrow> (('d, 'z) bus_scheme, unit) py" where
  "happened e = modM (\<lambda>s. s\<lparr>bus_trace := bus_trace s @ [e]\<rparr>)"

section \<open>Setup\<close>

definition be_int :: "byte list \<Rightarrow> int" where
  "be_int bs = foldl (\<lambda>acc b. acc * 256 + uint b) 0 bs"

text \<open>The pins of big-endian triplets (phandle, pin, flags).\<close>

function cs_pins :: "byte list \<Rightarrow> int list" where
  "cs_pins raw = (if length raw < 12 then [] else be_int (take 4 (drop 4 raw)) # cs_pins (drop 12 raw))"
  by pat_completeness auto
termination
  by (relation "measure length") auto

declare cs_pins.simps [simp del]

definition controller_cs_pins :: "('d, 'y) platform_scheme \<Rightarrow> int \<Rightarrow> int list" where
  "controller_cs_pins E bus = (case cs_gpios_p E bus of None \<Rightarrow> [] | Some raw \<Rightarrow> cs_pins raw)"

text \<open>\<open>str.isdigit\<close>, true also of the superscripts that \<open>int\<close> refuses.\<close>

definition isdigit :: "string \<Rightarrow> bool" where
  "isdigit s = (s \<noteq> [] \<and> list_all (\<lambda>c. 48 \<le> code c \<and> code c \<le> 57 \<or> code c \<in> {178, 179, 185}) s)"

definition parse_spidev :: "string \<Rightarrow> exn + int \<times> int" where
  "parse_spidev path = (let base = basename path in
     if \<not> startswith base ''spidev'' \<or> CHR ''.'' \<notin> set base then Inl (SpiBusError ''not a spidev path'')
     else let (bus, d) = partition_at (CHR ''.'') (drop 6 base) in
       if \<not> (isdigit bus \<and> isdigit d) then Inl (SpiBusError ''not a spidev path'')
       else (case (py_int_str bus 10, py_int_str d 10) of
               (Some b, Some n) \<Rightarrow> Inr (b, n)
             | _ \<Rightarrow> Inl (ValueError ''int'')))"

definition open_lock :: "('d, 'y) platform_scheme \<Rightarrow> string \<Rightarrow> (('d, 'z) bus_scheme, unit) py" where
  "open_lock E runtime_dir =
     (if runtime_dir = [] then raise (SpiBusError ''LORAHAM_RUNTIME_DIR is unset'')
      else case lock_dir_p E runtime_dir of
        None \<Rightarrow> raise (SpiBusError ''lock directory unusable'')
      | Some st \<Rightarrow>
          if \<not> is_dir st then raise (SpiBusError ''lock directory is not a directory'')
          else if \<not> owned_by_us st then raise (SpiBusError ''lock directory is not owned by us'')
          else if shared_writable st then raise (SpiBusError ''lock directory is group/world writable'')
          else thenM (try_except (osM E OpenSpiLock) (\<lambda>e. raise (SpiBusError ''cannot open lock'')))
                 (modM (\<lambda>s. s\<lparr>lock_fd := True\<rparr>)))"

definition assert_no_kernel_cs_pins :: "('d, 'y) platform_scheme \<Rightarrow> int \<Rightarrow> int \<Rightarrow> (('d, 'z) bus_scheme, unit) py" where
  "assert_no_kernel_cs_pins E bus d = (case cs_gpios_size_p E bus d of
       None \<Rightarrow> raise (SpiBusError ''chip-select configuration could not be read'')
     | Some n \<Rightarrow> if n \<noteq> 0 then raise (SpiBusError ''controller declares hardware chip-selects'') else ret ())"

definition set_no_cs_mode :: "string \<Rightarrow> (('d, 'z) bus_scheme, unit) py" where
  "set_no_cs_mode m = modM (\<lambda>s. s\<lparr>no_cs_mode := m\<rparr>)"

definition confirm_claim :: "('d, 'y) platform_scheme \<Rightarrow> int \<Rightarrow> int \<Rightarrow> (('d, 'z) bus_scheme, unit) py" where
  "confirm_claim E bus d = bindM (getM cs_pin) (\<lambda>pin. bindM (askM (line_get_p E pin)) (\<lambda>v. case v of
       None \<Rightarrow> raise (SpiBusError ''chip-select line could not be confirmed held'')
     | Some _ \<Rightarrow> thenM (assert_no_kernel_cs_pins E bus d) (set_no_cs_mode ''gpio-claim'')))"

definition enforce_no_kernel_cs :: "('d, 'y) platform_scheme \<Rightarrow> int \<Rightarrow> int \<Rightarrow> (('d, 'z) bus_scheme, unit) py" where
  "enforce_no_kernel_cs E bus d = bindM (askM (no_cs_p E)) (\<lambda>r. case r of
       Inr True \<Rightarrow> set_no_cs_mode ''SPI_NO_CS''
     | Inr False \<Rightarrow> confirm_claim E bus d
     | Inl e \<Rightarrow> if e \<notin> {EINVAL, ENOTTY, EOPNOTSUPP} then raise (SpiBusError ''setting SPI_NO_CS failed'')
               else confirm_claim E bus d)"

text \<open>\<open>KERNEL_CS.index(pin)\<close> for a pin of the tuple.\<close>

definition kernel_index :: "int \<Rightarrow> int" where
  "kernel_index pin = int (length (takeWhile (\<lambda>p. p \<noteq> pin) KERNEL_CS))"

definition kernel_cs_device :: "int list \<Rightarrow> int \<Rightarrow> exn + int" where
  "kernel_cs_device pins pin =
     (if pins \<noteq> KERNEL_CS then Inl (SpiBusError ''unsupported SPI chip-select configuration'')
      else if pin \<notin> set KERNEL_CS then Inl (SpiBusError ''the kernel owns the chip selects'')
      else Inr (kernel_index pin))"

definition open_spi :: "('d, 'y) platform_scheme \<Rightarrow> int \<Rightarrow> int \<Rightarrow> (('d, 'z) bus_scheme, unit) py" where
  "open_spi E bus d = bindM (askM (spi_open_p E bus d)) (\<lambda>ok.
     if ok then modM (\<lambda>s. s\<lparr>spi_open := True\<rparr>) else raise OtherError)"

definition claim_cs :: "('d, 'y) platform_scheme \<Rightarrow> (('d, 'z) bus_scheme, unit) py" where
  "claim_cs E = bindM (getM cs_pin) (\<lambda>pin. bindM (askM (line_request_p E pin)) (\<lambda>ok.
     if ok then seqM [modM (\<lambda>s. s\<lparr>soft_cs := True, cs_claimed := True\<rparr>), happened (SetLine pin False)]
     else raise OtherError))"

definition bus_init ::
  "('d, 'y) platform_scheme \<Rightarrow> string \<Rightarrow> int \<Rightarrow> string \<Rightarrow> (('d, 'z) bus_scheme, unit) py" where
  "bus_init E path pin runtime_dir =
     thenM (modM (\<lambda>s. s\<lparr>bus_path := path, cs_pin := pin\<rparr>))
     (thenM (open_lock E runtime_dir)
     (bindM (ofE (parse_spidev path)) (\<lambda>(bus, d).
       let pins = controller_cs_pins E bus in
       if pins \<noteq> [] then
         bindM (ofE (kernel_cs_device pins pin)) (\<lambda>d'.
           seqM [modM (\<lambda>s. s\<lparr>bus_path := ''/dev/spidev'' @ show_int bus @ ''.'' @ show_int d'\<rparr>),
                 open_spi E bus d', modM (\<lambda>s. s\<lparr>soft_cs := False\<rparr>), set_no_cs_mode ''kernel-cs''])
       else seqM [open_spi E bus d, claim_cs E, enforce_no_kernel_cs E bus d])))"

section \<open>Transactions\<close>

definition acquire :: "('d, 'y) platform_scheme \<Rightarrow> (('d, 'z) bus_scheme, unit) py" where
  "acquire E = bindM (monotonicM E) (\<lambda>start. loopM (bindM (askM (os_call_p E FlockEx)) (\<lambda>err.
     case err of
       None \<Rightarrow> thenM (happened Locked) (ret (Some ()))
     | Some e \<Rightarrow>
         if e \<notin> {EAGAIN, EACCES, EINTR} then raise (SpiBusError ''SPI bus lock failed'')
         else bindM (monotonicM E) (\<lambda>now.
           if now \<ge> start + SPI_LOCK_TIMEOUT_S then raise (SpiBusError ''SPI bus lock not acquired'') else ret None))))"

definition release :: "('d, 'y) platform_scheme \<Rightarrow> (('d, 'z) bus_scheme, unit) py" where
  "release E = try_except (thenM (osM E FlockUn) (happened Unlocked))
     (\<lambda>e. raise (SpiBusError ''releasing the SPI lock failed''))"

text \<open>\<open>spi.xfer2\<close>; the bytes may have gone out even when it fails.\<close>

definition xfer2 :: "('d, 'y) platform_scheme \<Rightarrow> int list \<Rightarrow> (('d, 'z) bus_scheme, byte list) py" where
  "xfer2 E payload = thenM (happened (Xfer payload)) (bindM (askM (spi_xfer2_p E payload)) (\<lambda>r.
     case r of None \<Rightarrow> raise (SpiBusError ''SPI transfer failed'') | Some bs \<Rightarrow> ret bs))"

definition set_line :: "('d, 'y) platform_scheme \<Rightarrow> exn \<Rightarrow> int \<Rightarrow> bool \<Rightarrow> (('d, 'z) bus_scheme, unit) py" where
  "set_line E e pin v = bindM (askM (line_set_p E pin v)) (\<lambda>ok. if ok then happened (SetLine pin v) else raise e)"

definition xfer :: "('d, 'y) platform_scheme \<Rightarrow> int list \<Rightarrow> (('d, 'z) bus_scheme, byte list) py" where
  "xfer E payload = thenM (acquire E) (try_finally
     (bindM (getM soft_cs) (\<lambda>soft. if \<not> soft then xfer2 E payload
        else bindM (getM cs_pin) (\<lambda>pin.
          thenM (set_line E (SpiBusError ''chip-select assert failed'') pin True)
          (try_finally (xfer2 E payload) (set_line E (SpiBusError ''chip-select release failed'') pin False)))))
     (release E))"

text \<open>One of the three \<open>shut\<close> calls: any exception is swallowed.\<close>

definition shut :: "('d, 'y) platform_scheme \<Rightarrow> os_call \<Rightarrow> (('d, 'z) bus_scheme \<Rightarrow> ('d, 'z) bus_scheme) \<Rightarrow>
    (('d, 'z) bus_scheme, unit) py" where
  "shut E c f = try_except (thenM (osM E c) (modM f)) (\<lambda>e. if is_Exception e then ret () else raise e)"

definition bus_close :: "('d, 'y) platform_scheme \<Rightarrow> (('d, 'z) bus_scheme, unit) py" where
  "bus_close E = seqM
     [shut E CloseSpi (\<lambda>s. s\<lparr>spi_open := False\<rparr>),
      bindM (getM soft_cs) (\<lambda>soft. if soft then shut E ReleaseCs (\<lambda>s. s\<lparr>cs_claimed := False\<rparr>) else ret ()),
      shut E CloseSpiLock (\<lambda>s. s\<lparr>lock_fd := False\<rparr>)]"

section \<open>The bus protocol\<close>

text \<open>Updates of the device state stand innermost.\<close>

lemma dev_inner [simp]: "dev_update f (bus_trace_update g s) = bus_trace_update g (dev_update f s)"
  by (cases s) simp

text \<open>The events of a transaction that returns, and the ways in which one can end early.\<close>

definition xfer_events :: "bool \<Rightarrow> int \<Rightarrow> int list \<Rightarrow> bus_event list" where
  "xfer_events soft pin p = (if soft then [Locked, SetLine pin True, Xfer p, SetLine pin False, Unlocked]
     else [Locked, Xfer p, Unlocked])"

definition xfer_partial :: "bool \<Rightarrow> int \<Rightarrow> int list \<Rightarrow> bus_event list list" where
  "xfer_partial soft pin p = [] # (if soft then
       [[Locked], [Locked, Unlocked], [Locked, SetLine pin True, Xfer p], [Locked, SetLine pin True, Xfer p, Unlocked],
        [Locked, SetLine pin True, Xfer p, SetLine pin False],
        [Locked, SetLine pin True, Xfer p, SetLine pin False, Unlocked]]
     else [[Locked, Xfer p], [Locked, Xfer p, Unlocked]])"

text \<open>
  Early or not, the chip is deselected and the lock released at the end, unless the system refuses
  that very call.
\<close>

definition cleaned :: "('d, 'y) platform_scheme \<Rightarrow> int \<Rightarrow> bus_event list \<Rightarrow> bool" where
  "cleaned E pin ev \<longleftrightarrow>
     ((\<forall>d. fst (os_call_p E FlockUn d) = None) \<and> Locked \<in> set ev \<longrightarrow> last ev = Unlocked) \<and>
     ((\<forall>d. fst (line_set_p E pin False d)) \<and> SetLine pin True \<in> set ev \<longrightarrow> SetLine pin False \<in> set ev)"

text \<open>Every transfer happens with the lock held and, with a soft chip select, with the chip selected.\<close>

fun guarded :: "bool \<Rightarrow> int \<Rightarrow> bool \<Rightarrow> bool \<Rightarrow> bus_event list \<Rightarrow> bool" where
  "guarded soft pin l c [] = True"
| "guarded soft pin l c (Locked # es) = guarded soft pin True c es"
| "guarded soft pin l c (Unlocked # es) = guarded soft pin False c es"
| "guarded soft pin l c (SetLine p v # es) = guarded soft pin l (if p = pin then v else c) es"
| "guarded soft pin l c (Xfer bs # es) = (l \<and> (soft \<longrightarrow> c) \<and> guarded soft pin l c es)"

lemma wp_happened [simp]: "wp (happened e) Q X s = Q () (s\<lparr>bus_trace := bus_trace s @ [e]\<rparr>)"
  by (simp add: happened_def)

lemma wp_set_line:
  "(\<And>d. Q () (s\<lparr>dev := d, bus_trace := bus_trace s @ [SetLine pin v]\<rparr>)) \<Longrightarrow> (\<And>d d'. \<not> fst (line_set_p E pin v d') \<Longrightarrow> X e (s\<lparr>dev := d\<rparr>)) \<Longrightarrow>
   wp (set_line E e pin v) Q X s"
  by (simp add: set_line_def)

lemma wp_acquire:
  assumes "\<And>d. Q () (s\<lparr>dev := d, bus_trace := bus_trace s @ [Locked]\<rparr>)"
    and "\<And>m d. X (SpiBusError m) (s\<lparr>dev := d\<rparr>)"
  shows "wp (acquire E) Q X s"
  unfolding acquire_def wp_bindM
  by (rule wp_clock, rule wp_loopM [where I = "\<lambda>x. \<exists>d. x = s\<lparr>dev := d\<rparr>"])
    (auto split: option.split intro!: wp_clock assms)

lemma wp_release:
  assumes "\<And>d. Q () (s\<lparr>dev := d, bus_trace := bus_trace s @ [Unlocked]\<rparr>)"
    and "\<And>m d d'. fst (os_call_p E FlockUn d') \<noteq> None \<Longrightarrow> X (SpiBusError m) (s\<lparr>dev := d\<rparr>)"
  shows "wp (release E) Q X s"
  unfolding release_def osM_def by (auto simp: assms(1) intro: assms(2) split: option.split)

lemma wp_xfer2:
  assumes "\<And>r d d'. fst (spi_xfer2_p E p d') = Some r \<Longrightarrow> Q r (s\<lparr>dev := d, bus_trace := bus_trace s @ [Xfer p]\<rparr>)"
    and "\<And>m d. X (SpiBusError m) (s\<lparr>dev := d, bus_trace := bus_trace s @ [Xfer p]\<rparr>)"
  shows "wp (xfer2 E p) Q X s"
  using assms by (auto simp: xfer2_def split: option.split)

lemma wp_xfer:
  assumes "\<And>r d d'. fst (spi_xfer2_p E p d') = Some r \<Longrightarrow>
      Q r (s\<lparr>dev := d, bus_trace := bus_trace s @ xfer_events (soft_cs s) (cs_pin s) p\<rparr>)"
    and "\<And>m d ev. ev \<in> set (xfer_partial (soft_cs s) (cs_pin s) p) \<Longrightarrow> cleaned E (cs_pin s) ev \<Longrightarrow>
      X (SpiBusError m) (s\<lparr>dev := d, bus_trace := bus_trace s @ ev\<rparr>)"
  shows "wp (xfer E p) Q X s"
proof -
  have X0: "X (SpiBusError m) (s\<lparr>dev := d\<rparr>)" for m d
    using assms(2) [of "[]" m d] by (simp add: xfer_partial_def cleaned_def)
  note X = assms(2) [unfolded xfer_partial_def]
  show ?thesis
    unfolding xfer_def wp_thenM wp_try_finally wp_bindM wp_getM
  proof (rule wp_acquire, goal_cases)
    case (1 d)
    show ?case
    proof (cases "soft_cs s")
      case True
      then show ?thesis
        using assms(1) by (auto simp: xfer_events_def cleaned_def intro!: wp_set_line wp_xfer2 wp_release X) blast+
    next
      case False
      then show ?thesis
        using assms(1) by (auto simp: xfer_events_def cleaned_def intro!: wp_xfer2 wp_release X) blast+
    qed
  qed (rule X0)
qed

text \<open>Only the device state and the trace change.\<close>

definition bus_frame :: "('d, 'z) bus_scheme \<Rightarrow> ('d, 'z) bus_scheme \<Rightarrow> bool" where
  "bus_frame s t \<longleftrightarrow> (\<exists>d ev. t = s\<lparr>dev := d, bus_trace := bus_trace s @ ev\<rparr>)"

definition bus_ok :: "('d, 'z) bus_scheme \<Rightarrow> bool" where
  "bus_ok s = guarded (soft_cs s) (cs_pin s) False False (bus_trace s)"

lemma guarded_append:
  "guarded soft pin l c es \<Longrightarrow> (\<And>l c. guarded soft pin l c ev) \<Longrightarrow> guarded soft pin l c (es @ ev)"
  by (induction soft pin l c es rule: guarded.induct) auto

lemma guarded_xfer:
  "guarded soft pin l c (xfer_events soft pin p)"
  "ev \<in> set (xfer_partial soft pin p) \<Longrightarrow> guarded soft pin l c ev"
  by (auto simp: xfer_events_def xfer_partial_def split: if_splits)

lemma bus_ok_append:
  "bus_ok s \<Longrightarrow> (\<And>l c. guarded (soft_cs s) (cs_pin s) l c ev) \<Longrightarrow> bus_ok (s\<lparr>dev := d, bus_trace := bus_trace s @ ev\<rparr>)"
  by (simp add: bus_ok_def guarded_append)

lemma bus_ok_dev [simp]: "bus_ok (s\<lparr>dev := d\<rparr>) = bus_ok s"
  by (simp add: bus_ok_def)

lemma dev_free_bus_ok [simp]: "dev_free bus_ok"
  by (simp add: dev_free_def)

lemma keeps_xfer [keeps_rules]: "keeps bus_ok (xfer E p)"
  unfolding keeps_wp
  by (auto intro!: wp_xfer bus_ok_append guarded_xfer)

lemma keeps_set_line [keeps_rules]: "keeps bus_ok (set_line E e pin v)"
  unfolding keeps_wp
  by (auto intro!: wp_set_line bus_ok_append)

lemma raises_xfer [raises_rules]:
  assumes "\<And>m. X (SpiBusError m)"
  shows "raises X (xfer E p)"
proof -
  have "wp (xfer E p) (\<lambda>_ _. True) (\<lambda>e _. X e) s" for s :: "('a, 'b) bus_scheme"
    by (rule wp_xfer) (simp_all add: assms)
  then show ?thesis using wpD(2) unfolding raises_def by metis
qed

lemma raises_set_line [raises_rules]: "X e \<Longrightarrow> raises X (set_line E e pin v)"
  by (auto simp: set_line_def happened_def intro!: raises_rules)

section \<open>The interface of the bus\<close>

text \<open>
  What the radio drivers rely on: a transaction keeps the bus protocol, and it fails with one
  kind of exception only. Any straight-line use of such a bus has both properties.
\<close>

locale spi_bus =
  fixes transact :: "int list \<Rightarrow> ('s, byte list) py"
    and protocol :: "'s \<Rightarrow> bool"
    and fatal :: "exn \<Rightarrow> bool"
  assumes transact_keeps: "keeps protocol (transact p)"
    and transact_raises: "raises fatal (transact p)"
begin

primrec batch :: "int list list \<Rightarrow> ('s, byte list list) py" where
  "batch [] = ret []"
| "batch (p # ps) = bindM (transact p) (\<lambda>r. bindM (batch ps) (\<lambda>rs. ret (r # rs)))"

lemma batch_keeps: "keeps protocol (batch ps)"
  by (induction ps) (auto intro!: keeps_rules transact_keeps)

lemma batch_raises: "raises fatal (batch ps)"
  by (induction ps) (auto intro!: raises_rules transact_raises)

end

interpretation spi: spi_bus "xfer E" bus_ok is_SpiBusError for E
  by unfold_locales (auto intro!: keeps_xfer raises_xfer)

section \<open>Properties\<close>

text \<open>C13. One transaction is exactly: take the lock, select the chip (soft chip select only), transfer,
  deselect, release. When the call raises it raises \<open>SpiBusError\<close>, and the events are one of the
  listed prefixes; a lock that was taken has been released and a chip that was selected has been
  deselected, unless the system refused the release itself.
\<close>

theorem xfer_transaction:
  assumes "xfer E p s = Some (r, s')"
  shows "\<exists>ev. bus_trace s' = bus_trace s @ ev \<and> soft_cs s' = soft_cs s \<and> (case r of
      Inr reply \<Rightarrow> ev = xfer_events (soft_cs s) (cs_pin s) p
    | Inl e \<Rightarrow> is_SpiBusError e \<and> ev \<in> set (xfer_partial (soft_cs s) (cs_pin s) p) \<and> cleaned E (cs_pin s) ev)"
proof -
  have "wp (xfer E p)
      (\<lambda>_ t. bus_trace t = bus_trace s @ xfer_events (soft_cs s) (cs_pin s) p \<and> soft_cs t = soft_cs s)
      (\<lambda>e t. is_SpiBusError e \<and> soft_cs t = soft_cs s \<and>
        (\<exists>ev \<in> set (xfer_partial (soft_cs s) (cs_pin s) p). cleaned E (cs_pin s) ev \<and> bus_trace t = bus_trace s @ ev)) s"
    by (rule wp_xfer) auto
  from wpD [OF this] assms show ?thesis by (cases r) auto
qed

text \<open>The chip-select configurations under which a bus may be used.\<close>

definition proven_bus :: "('d, 'y) platform_scheme \<Rightarrow> int \<Rightarrow> int \<Rightarrow> ('d, 'z) bus_scheme \<Rightarrow> bool" where
  "proven_bus E bus d s \<longleftrightarrow>
     (if controller_cs_pins E bus \<noteq> [] then
        controller_cs_pins E bus = [8, 7] \<and> cs_pin s \<in> {8, 7} \<and> \<not> soft_cs s \<and> no_cs_mode s = ''kernel-cs''
      else soft_cs s \<and> cs_claimed s \<and>
        (no_cs_mode s = ''SPI_NO_CS'' \<or> no_cs_mode s = ''gpio-claim'' \<and> cs_gpios_size_p E bus d = Some 0))"

lemma wp_enforce_no_kernel_cs:
  assumes "\<And>dd. Q () (s\<lparr>dev := dd, no_cs_mode := ''SPI_NO_CS''\<rparr>)"
    and "\<And>dd. cs_gpios_size_p E bus d = Some 0 \<Longrightarrow> Q () (s\<lparr>dev := dd, no_cs_mode := ''gpio-claim''\<rparr>)"
    and "\<And>m dd. X (SpiBusError m) (s\<lparr>dev := dd\<rparr>)"
  shows "wp (enforce_no_kernel_cs E bus d) Q X s"
  unfolding enforce_no_kernel_cs_def confirm_claim_def assert_no_kernel_cs_pins_def set_no_cs_mode_def
  using assms by (auto split: option.split sum.split bool.split)

lemma wp_open_lock:
  assumes "\<And>d st. runtime_dir \<noteq> [] \<Longrightarrow> lock_dir_p E runtime_dir = Some st \<Longrightarrow>
      is_dir st \<Longrightarrow> owned_by_us st \<Longrightarrow> \<not> shared_writable st \<Longrightarrow> Q () (s\<lparr>dev := d, lock_fd := True\<rparr>)"
    and "\<And>m d. X (SpiBusError m) (s\<lparr>dev := d\<rparr>)"
  shows "wp (open_lock E runtime_dir) Q X s"
  using assms assms(2) [of _ "dev s"]
  by (auto simp: open_lock_def intro!: wp_osM split: option.split)

text \<open>C35. A bus is set up only on a trusted lock directory (ours, not writable by others) and only with a
  chip-select configuration that is proven: the kernel's two chip selects with our pin among
  them, or our own line claimed and the kernel shown unable to assert one. Everything else raises.
\<close>

theorem bus_init_proven:
  assumes "bus_init E path pin runtime_dir s = Some (Inr (), s')"
  shows "\<exists>bus d st. parse_spidev path = Inr (bus, d) \<and> proven_bus E bus d s' \<and> lock_fd s' \<and> spi_open s' \<and>
    lock_dir_p E runtime_dir = Some st \<and> is_dir st \<and> owned_by_us st \<and> \<not> shared_writable st"
proof -
  let ?Q = "\<lambda>_ t. \<exists>bus d st. parse_spidev path = Inr (bus, d) \<and> proven_bus E bus d t \<and> lock_fd t \<and> spi_open t \<and>
    lock_dir_p E runtime_dir = Some st \<and> is_dir st \<and> owned_by_us st \<and> \<not> shared_writable st"
  have "wp (bus_init E path pin runtime_dir) ?Q (\<lambda>_ _. True) s"
    unfolding bus_init_def wp_thenM wp_modM wp_bindM wp_ofE
    by (rule wp_open_lock)
      (auto simp: Let_def open_spi_def claim_cs_def set_no_cs_mode_def happened_def kernel_cs_device_def KERNEL_CS_def
        proven_bus_def split: sum.split intro!: wp_enforce_no_kernel_cs)
  from wpD(1) [OF this assms] show ?thesis .
qed

lemma show_nat_no_dot: "CHR ''.'' \<notin> set (show_nat n)" "CHR ''/'' \<notin> set (show_nat n)"
  using show_nat_codes [of "CHR ''.''" n] show_nat_codes [of "CHR ''/''" n] by (auto simp: code_def)

lemma isdigit_show_nat [simp]: "isdigit (show_nat n)"
  using show_nat_codes [of _ n] by (auto simp: isdigit_def list_all_iff)

lemma parse_spidev_lemma:
  "parse_spidev (dir @ ''/spidev'' @ show_nat b @ ''.'' @ show_nat n) = Inr (int b, int n)"
proof -
  let ?base = "''spidev'' @ show_nat b @ CHR ''.'' # show_nat n"
  have "rpartition_at (CHR ''/'') (dir @ CHR ''/'' # ?base) = (dir, ?base)"
    by (rule rpartition_at_append) (auto simp: show_nat_no_dot)
  then have "basename (dir @ ''/spidev'' @ show_nat b @ ''.'' @ show_nat n) = ?base"
    by (simp add: basename_def)
  moreover have "partition_at (CHR ''.'') (drop 6 ?base) = (show_nat b, show_nat n)"
    using partition_at_append [OF show_nat_no_dot(1), of b "show_nat n"] by simp
  ultimately show ?thesis
    by (simp add: parse_spidev_def startswith_def)
qed

text \<open>The device path the kernel path builds, \<open>/dev/spidev<bus>.<dev>\<close>, is read back as the same
  bus and device, under any directory.
\<close>

theorem parse_spidev_roundtrip:
  "parse_spidev (dir @ ''/spidev'' @ show_nat b @ ''.'' @ show_nat n) = Inr (int b, int n)"
  by (rule parse_spidev_lemma)

section \<open>Termination\<close>

lemma tkeeps_happened [tkeeps_rules]: "tkeeps (after clk c) (happened e)"
  by (simp add: tkeeps_def happened_def py_defs after_def)

lemma tkeeps_acquire [tkeeps_rules]:
  assumes "advancing E clk tick"
  shows "tkeeps (after clk c) (acquire E)"
  unfolding acquire_def
proof (rule tkeeps_bindM [OF tkeeps_clocked(1) [OF assms]],
    rule_tac clk = clk and q = tick and deadline = "x + SPI_LOCK_TIMEOUT_S" in tkeeps_deadline, goal_cases)
  case 1
  then show ?case by (rule advancingD(1) [OF assms])
next
  case (2 start s)
  obtain r d1 where o: "os_call_p E FlockEx (dev s) = (r, d1)" by fastforce
  obtain d2 where m: "monotonic_p E d1 = (clk d1, d2)" using advancingD(2) [OF assms] by (metis prod.collapse)
  have "clk (dev s) + tick \<le> clk d1" "clk d1 \<le> clk d2" "0 < tick"
    using advancingD(5) [OF assms, of "dev s" FlockEx] advancingD(3) [OF assms, of d1] advancingD(1) [OF assms] o m
    by simp_all
  then show ?case
    using 2 by (auto simp: py_defs happened_def monotonicM_def o m after_def split: option.split)
qed

lemma tkeeps_set_line [tkeeps_rules]: "advancing E clk tick \<Longrightarrow> tkeeps (after clk c) (set_line E e pin v)"
  unfolding set_line_def by (intro tkeeps_rules)

lemma tkeeps_xfer [tkeeps_rules]: "advancing E clk tick \<Longrightarrow> tkeeps (after clk c) (xfer E p)"
  unfolding xfer_def xfer2_def release_def by (intro tkeeps_rules)

section \<open>A bus for concrete runs\<close>

text \<open>A platform whose clock advances by a millisecond per call; \<open>reply\<close> answers the transfers.\<close>

definition bench_bus :: "(int list \<Rightarrow> byte list option) \<Rightarrow> real platform" where
  "bench_bus reply = \<lparr>os_call_p = \<lambda>c d. (None, d + 1/1000), os_write_p = \<lambda>n d. (n, d), time_p = \<lambda>d. (d, d),
     monotonic_p = \<lambda>d. (d, d), sleep_p = \<lambda>t d. (False, d + t), random_p = \<lambda>d. (0, d), boot_id_p = ''boot'',
     lock_dir_p = \<lambda>_. Some \<lparr>is_dir = True, owned_by_us = True, shared_writable = False\<rparr>,
     cs_gpios_p = \<lambda>_. None, cs_gpios_size_p = \<lambda>_ _. Some 0, spi_open_p = \<lambda>_ _ d. (True, d),
     no_cs_p = \<lambda>d. (Inl EINVAL, d), spi_xfer2_p = \<lambda>bs d. (reply bs, d),
     line_set_p = \<lambda>p v d. (True, d), line_get_p = \<lambda>p d. (Some False, d),
     line_request_p = \<lambda>p d. (True, d), edge_wait_p = \<lambda>t d. (Some False, d + t)\<rparr>"

definition idle_bus :: "real bus" where
  "idle_bus = \<lparr>dev = 0, bus_path = ''/dev/spidev0.0'', cs_pin = 21, soft_cs = True, no_cs_mode = ''gpio-claim'',
     lock_fd = True, spi_open = True, cs_claimed = True, bus_trace = []\<rparr>"

lemmas bus_run = xfer_def xfer2_def acquire_def release_def set_line_def happened_def loopM.simps platform_defs py_defs
  bench_bus_def

lemma bench_bus_advancing: "advancing (bench_bus reply) (\<lambda>d. d) (1/1000)"
  by (simp add: advancing_def bench_bus_def)

text \<open>On a platform whose clock advances with every system call a transaction always ends, even when
  the lock is never released by its holder.
\<close>

theorem xfer_terminates:
  assumes "advancing E clk tick"
  shows "\<exists>r s'. xfer E p s = Some (r, s')"
  using tkeepsD [OF tkeeps_xfer [OF assms, of "clk (dev s)" p], of s] by (auto simp: after_def)

section \<open>Witnesses\<close>

theorem xfer_transaction_witness:
  "\<exists>s'. xfer (bench_bus (\<lambda>p. Some [0, 0x12])) [0x42, 0] idle_bus = Some (Inr [0, 0x12], s') \<and>
     bus_trace s' = [Locked, SetLine 21 True, Xfer [0x42, 0], SetLine 21 False, Unlocked]"
proof -
  obtain s' where s': "xfer (bench_bus (\<lambda>p. Some [0, 0x12])) [0x42, 0] idle_bus = Some (Inr [0, 0x12], s')"
    by (simp add: bus_run idle_bus_def)
  from xfer_transaction [OF s'] s' show ?thesis by (auto simp: idle_bus_def xfer_events_def)
qed

theorem bus_init_proven_witness:
  "\<exists>s'. bus_init (bench_bus (\<lambda>_. None)) ''/dev/spidev0.1'' 21 ''/run/loraham'' idle_bus = Some (Inr (), s') \<and>
     no_cs_mode s' = ''gpio-claim'' \<and>
     (\<exists>bus d st. parse_spidev ''/dev/spidev0.1'' = Inr (bus, d) \<and> proven_bus (bench_bus (\<lambda>_. None)) bus d s' \<and> lock_fd s' \<and>
        lock_dir_p (bench_bus (\<lambda>_. None)) ''/run/loraham'' = Some st \<and> owned_by_us st)"
proof -
  have p: "parse_spidev ''/dev/spidev0.1'' = Inr (0, 1)"
    by code_simp
  obtain s' where s': "bus_init (bench_bus (\<lambda>_. None)) ''/dev/spidev0.1'' 21 ''/run/loraham'' idle_bus = Some (Inr (), s')"
    "no_cs_mode s' = ''gpio-claim''"
    by (simp add: bus_init_def open_lock_def controller_cs_pins_def open_spi_def claim_cs_def enforce_no_kernel_cs_def
      confirm_claim_def assert_no_kernel_cs_pins_def set_no_cs_mode_def bus_run p idle_bus_def)
  from bus_init_proven [OF s'(1)] s' show ?thesis by blast
qed

theorem xfer_terminates_witness:
  "\<exists>r s'. xfer ((bench_bus (\<lambda>_. None))\<lparr>os_call_p := \<lambda>c d. (Some EAGAIN, d + 1/1000)\<rparr>) [1] idle_bus = Some (r, s')"
  by (rule xfer_terminates [of _ "\<lambda>d. d" "1/1000"]) (simp add: advancing_def bench_bus_def)

end
