(* ===== verification/Radio.thy ===== *)
theory Radio
  imports SpiBus Profiles
begin

text \<open>
  The base class \<open>Radio\<close> of \<open>loraham_rns/radio.py\<close>: the GPIO lines a profile wires, the
  IRQ wait, reset and TX-enable, and the arithmetic both drivers share (time on air, bit rate).
  The state extends the bus by the radio's fields; \<open>lf_bit\<close> belongs to the SX127x driver,
  \<open>preamble_set\<close> to the SX1262 driver.
\<close>

section \<open>State\<close>

record 'd radio = "'d bus" +
  prof :: profile
  reset_req :: bool
  irq_req :: bool
  busy_req :: bool
  txen_req :: bool
  radio_notes :: "string list"
  lf_bit :: int
  preamble_set :: "int option"

definition MAX_PAYLOAD :: nat where "MAX_PAYLOAD = 255"

section \<open>Lines\<close>

text \<open>\<open>gpiod.request_lines\<close>; an output line starts at the level given.\<close>

definition request_line ::
  "('d, 'y) platform_scheme \<Rightarrow> int \<Rightarrow> bool option \<Rightarrow> (('d, 'z) radio_scheme \<Rightarrow> ('d, 'z) radio_scheme) \<Rightarrow> (('d, 'z) radio_scheme, unit) py" where
  "request_line E pin level f = bindM (askM (line_request_p E pin)) (\<lambda>ok.
     if \<not> ok then raise OtherError
     else thenM (modM f) (case level of None \<Rightarrow> ret () | Some v \<Rightarrow> happened (SetLine pin v)))"

definition claim_lines :: "('d, 'y) platform_scheme \<Rightarrow> (('d, 'z) radio_scheme, unit) py" where
  "claim_lines E = bindM (getM prof) (\<lambda>p. seqM
     [if reset p \<ge> 0 then request_line E (reset p) (Some True) (\<lambda>s. s\<lparr>reset_req := True\<rparr>) else ret (),
      request_line E (irq p) None (\<lambda>s. s\<lparr>irq_req := True\<rparr>),
      if busy p \<ge> 0 then request_line E (busy p) None (\<lambda>s. s\<lparr>busy_req := True\<rparr>) else ret (),
      if txen p \<ge> 0 then request_line E (txen p) (Some False) (\<lambda>s. s\<lparr>txen_req := True\<rparr>)
      else modM (\<lambda>s. s\<lparr>txen_req := False\<rparr>)])"

definition radio_init :: "('d, 'y) platform_scheme \<Rightarrow> profile \<Rightarrow> (('d, 'z) radio_scheme, unit) py" where
  "radio_init E p = thenM
     (modM (\<lambda>s. s\<lparr>prof := p, reset_req := False, irq_req := False, busy_req := False, radio_notes := []\<rparr>))
     (claim_lines E)"

definition wait_irq :: "('d, 'y) platform_scheme \<Rightarrow> real \<Rightarrow> (('d, 'z) radio_scheme, bool) py" where
  "wait_irq E timeout = bindM (askM (edge_wait_p E timeout)) (\<lambda>r. case r of
       None \<Rightarrow> raise (RadioError ''IRQ line failed'')
     | Some b \<Rightarrow> ret b)"

definition hard_reset :: "('d, 'y) platform_scheme \<Rightarrow> (('d, 'z) radio_scheme, bool) py" where
  "hard_reset E = bindM (getM reset_req) (\<lambda>wired. if \<not> wired then ret False
     else bindM (getM (reset \<circ> prof)) (\<lambda>pin. thenM (seqM
       [set_line E (RadioError ''reset line failed'') pin False, sleepM E 0.002,
        set_line E (RadioError ''reset line failed'') pin True, sleepM E 0.010]) (ret True)))"

definition add_note :: "string \<Rightarrow> (('d, 'z) radio_scheme, unit) py" where
  "add_note msg = modM (\<lambda>s. s\<lparr>radio_notes := radio_notes s @ [msg]\<rparr>)"

definition set_txen :: "('d, 'y) platform_scheme \<Rightarrow> bool \<Rightarrow> (('d, 'z) radio_scheme, unit) py" where
  "set_txen E on = bindM (getM txen_req) (\<lambda>wired. if wired
     then bindM (getM (txen \<circ> prof)) (\<lambda>pin. set_line E (RadioError ''TX-enable line failed'') pin on)
     else ret ())"

definition release_line :: "('d, 'y) platform_scheme \<Rightarrow> (('d, 'z) radio_scheme \<Rightarrow> bool) \<Rightarrow>
    (('d, 'z) radio_scheme \<Rightarrow> ('d, 'z) radio_scheme) \<Rightarrow> (('d, 'z) radio_scheme, unit) py" where
  "release_line E held f = bindM (getM held) (\<lambda>h. if h then shut E ReleaseLine f else ret ())"

definition radio_close :: "('d, 'y) platform_scheme \<Rightarrow> (('d, 'z) radio_scheme, unit) py" where
  "radio_close E = seqM
     [release_line E reset_req (\<lambda>s. s\<lparr>reset_req := False\<rparr>), release_line E irq_req (\<lambda>s. s\<lparr>irq_req := False\<rparr>),
      release_line E busy_req (\<lambda>s. s\<lparr>busy_req := False\<rparr>), release_line E txen_req (\<lambda>s. s\<lparr>txen_req := False\<rparr>)]"

section \<open>Shared arithmetic\<close>

text \<open>
  \<open>(1 << sf) / bw\<close>: a quotient of integers that is no float raises, and so does an integer
  that is converted for a float operation.
\<close>

definition symbol_time :: "int \<Rightarrow> int \<Rightarrow> exn + real" where
  "symbol_time sf bw = (if sf < 0 then Inl (ValueError ''negative shift count'')
     else if bw = 0 then Inl ZeroDivisionError
     else (case fl (2 ^ nat sf / of_int bw) of Fin t \<Rightarrow> Inr t | _ \<Rightarrow> Inl OverflowError))"

definition time_on_air :: "nat \<Rightarrow> int \<Rightarrow> int \<Rightarrow> int \<Rightarrow> int \<Rightarrow> exn + real" where
  "time_on_air payload_len sf bw cr preamble = bindE (symbol_time sf bw) (\<lambda>tsym.
     let de = if tsym > 0.016 then 1 else 0;
         num = 8 * int payload_len - 4 * sf + 28 + 16;
         den = 4 * (sf - 2 * de)
     in if den = 0 then Inl ZeroDivisionError
        else let symbols = 8 + max (\<lceil>of_int num / of_int den :: real\<rceil> * cr) 0
             in bindE (float_of_int preamble) (\<lambda>_. bindE (float_of_int symbols) (\<lambda>_.
                  Inr ((of_int preamble + 4.25) * tsym + of_int symbols * tsym))))"

definition bitrate :: "int \<Rightarrow> int \<Rightarrow> int \<Rightarrow> exn + int" where
  "bitrate sf bw cr = (if cr = 0 then Inl ZeroDivisionError
     else if sf < 0 then Inl (ValueError ''negative shift count'')
     else if 1024 \<le> sf then Inl OverflowError
     else Inr (Py_Text.truncate (of_int sf * (4 / of_int cr) * of_int bw / 2 ^ nat sf :: real)))"

text \<open>Shared by the two drivers: the parameters of \<open>configure\<close> and small computations.\<close>

record modem =
  m_frequency :: int
  m_bandwidth :: int
  m_sf :: int
  m_cr :: int
  m_txpower :: int
  m_syncword :: int
  m_preamble :: int

text \<open>\<open>reply[i]\<close> of a list of bytes.\<close>

definition byte_at :: "byte list \<Rightarrow> nat \<Rightarrow> exn + int" where
  "byte_at bs i = (if i < length bs then Inr (uint (bs ! i)) else Inl IndexError)"

definition clamp :: "int \<Rightarrow> int \<Rightarrow> int \<Rightarrow> int" where
  "clamp lo hi x = max lo (min hi x)"

text \<open>\<open>ldro = 1 if (1 << sf) / bandwidth > 0.016 else 0\<close>\<close>

definition ldro :: "int \<Rightarrow> int \<Rightarrow> exn + int" where
  "ldro sf bw = bindE (symbol_time sf bw) (\<lambda>t. Inr (if t > 0.016 then 1 else 0))"

text \<open>A raw SNR byte is signed and in quarter decibels.\<close>

definition snr_of :: "int \<Rightarrow> real" where
  "snr_of raw = of_int (if raw > 127 then raw - 256 else raw) / 4"

section \<open>Lemmas\<close>

lemma radio_dev_inner [simp]:
  "dev_update f (radio_notes_update g s) = radio_notes_update g (dev_update f s)"
  "bus_trace_update h (radio_notes_update g s) = radio_notes_update g (bus_trace_update h s)"
  by (cases s, simp)+

lemma bus_ok_fields [simp]:
  "bus_ok (s\<lparr>radio_notes := x\<rparr>) = bus_ok s" "bus_ok (s\<lparr>lf_bit := l\<rparr>) = bus_ok s" "bus_ok (s\<lparr>preamble_set := q\<rparr>) = bus_ok s"
  "bus_ok (s\<lparr>reset_req := a\<rparr>) = bus_ok s" "bus_ok (s\<lparr>irq_req := a\<rparr>) = bus_ok s" "bus_ok (s\<lparr>busy_req := a\<rparr>) = bus_ok s"
  "bus_ok (s\<lparr>txen_req := a\<rparr>) = bus_ok s"
  by (simp_all add: bus_ok_def)

text \<open>The faults a radio operation may raise.\<close>

definition radio_fault :: "exn \<Rightarrow> bool" where
  "radio_fault e \<longleftrightarrow> is_SpiBusError e \<or> is_RadioError e \<or> e = IndexError \<or> e = KeyboardInterrupt"

lemma radio_fault_simps [simp]:
  "radio_fault (SpiBusError m)" "radio_fault (RadioError m)" "radio_fault IndexError" "radio_fault KeyboardInterrupt"
  by (simp_all add: radio_fault_def)

lemma keeps_radio [keeps_rules]:
  "keeps bus_ok (hard_reset E)" "keeps bus_ok (set_txen E on)" "keeps bus_ok (add_note msg)" "keeps bus_ok (wait_irq E t)"
  unfolding hard_reset_def set_txen_def add_note_def wait_irq_def seqM.simps
  by (intro keeps_rules dev_free_bus_ok; simp)+

lemma raises_radio [raises_rules]:
  "raises radio_fault (hard_reset E)" "raises radio_fault (set_txen E on)" "raises radio_fault (add_note msg)"
  "raises radio_fault (wait_irq E t)"
  unfolding hard_reset_def set_txen_def add_note_def wait_irq_def seqM.simps
  by (intro raises_rules radio_fault_simps)+

lemma tkeeps_radio [tkeeps_rules]:
  assumes "advancing E clk tick"
  shows "tkeeps (after clk c) (hard_reset E)" "tkeeps (after clk c) (set_txen E on)"
  unfolding hard_reset_def set_txen_def seqM.simps
  by (intro tkeeps_rules; (rule assms | simp))+

lemma tkeeps_note [tkeeps_rules]: "tkeeps (after clk c) (add_note msg)"
  by (simp add: add_note_def tkeeps_def py_defs after_def)

section \<open>What goes over the bus\<close>

text \<open>The transfers of a trace, and the level a line was last driven to.\<close>

fun payloads :: "bus_event list \<Rightarrow> int list list" where
  "payloads [] = []"
| "payloads (Xfer p # es) = p # payloads es"
| "payloads (_ # es) = payloads es"

fun line_level :: "int \<Rightarrow> bool \<Rightarrow> bus_event list \<Rightarrow> bool" where
  "line_level pin v [] = v"
| "line_level pin v (SetLine p w # es) = line_level pin (if p = pin then w else v) es"
| "line_level pin v (_ # es) = line_level pin v es"

lemma payloads_append [simp]: "payloads (es @ fs) = payloads es @ payloads fs"
  by (induction es rule: payloads.induct) simp_all

lemma line_level_append [simp]: "line_level pin v (es @ fs) = line_level pin (line_level pin v es) fs"
  by (induction pin v es rule: line_level.induct) simp_all

text \<open>\<open>sent s ps x\<close>: from \<open>s\<close> to \<open>x\<close> the transfers \<open>ps\<close> were made; only device and trace changed.\<close>

definition sent :: "('d, 'z) radio_scheme \<Rightarrow> int list list \<Rightarrow> ('d, 'z) radio_scheme \<Rightarrow> bool" where
  "sent s ps x \<longleftrightarrow> (\<exists>d ev. x = s\<lparr>dev := d, bus_trace := bus_trace s @ ev\<rparr> \<and> payloads ev = ps)"

lemma sentI: "payloads ev = ps \<Longrightarrow> sent s ps (s\<lparr>dev := d, bus_trace := bus_trace s @ ev\<rparr>)"
  by (auto simp: sent_def)

lemma sent_dev: "sent s [] (s\<lparr>dev := d\<rparr>)"
  using sentI [of "[]" "[]" s d] by simp

lemma sent_refl: "sent s [] s"
  using sent_dev [of s "dev s"] by simp

lemma sent_trans:
  assumes "sent s ps x" "sent x qs y"
  shows "sent s (ps @ qs) y"
proof -
  from assms obtain d ev d' ev' where "x = s\<lparr>dev := d, bus_trace := bus_trace s @ ev\<rparr>" "payloads ev = ps"
    "y = x\<lparr>dev := d', bus_trace := bus_trace x @ ev'\<rparr>" "payloads ev' = qs" by (auto simp: sent_def)
  then have "y = s\<lparr>dev := d', bus_trace := bus_trace s @ (ev @ ev')\<rparr>" "payloads (ev @ ev') = ps @ qs" by simp_all
  then show ?thesis unfolding sent_def by blast
qed

lemma sent_fields: "sent s ps x \<Longrightarrow> prof x = prof s \<and> lf_bit x = lf_bit s \<and> preamble_set x = preamble_set s \<and>
    txen_req x = txen_req s \<and> busy_req x = busy_req s \<and> radio_notes x = radio_notes s"
  by (auto simp: sent_def)

lemma sent_payloads: "sent s ps x \<Longrightarrow> payloads (bus_trace x) = payloads (bus_trace s) @ ps"
  by (auto simp: sent_def)

text \<open>
  \<open>sends P m ps\<close>: started with \<open>P\<close>, a call of \<open>m\<close> that returns has made exactly the transfers
  \<open>ps\<close>, in that order. \<open>P\<close> speaks of the fields that transfers do not touch.
\<close>

definition steady :: "(('d, 'z) radio_scheme \<Rightarrow> bool) \<Rightarrow> bool" where
  "steady P \<longleftrightarrow> (\<forall>s ps x. P s \<longrightarrow> sent s ps x \<longrightarrow> P x)"

definition sends :: "(('d, 'z) radio_scheme \<Rightarrow> bool) \<Rightarrow> (('d, 'z) radio_scheme, 'a) py \<Rightarrow> int list list \<Rightarrow> bool" where
  "sends P m ps \<longleftrightarrow> steady P \<and> (\<forall>s. P s \<longrightarrow> wp m (\<lambda>_ x. sent s ps x) (\<lambda>_ _. True) s)"

named_theorems sends_rules "transfers made, one rule per combinator"

lemma steady_fields [simp]:
  "steady (\<lambda>s. lf_bit s = lf)" "steady (\<lambda>s. preamble_set s = pr)" "steady (\<lambda>s. prof s = p)" "steady (\<lambda>s. prof s = p \<and> preamble_set s = pr)"
  by (auto simp: steady_def dest!: sent_fields)

lemma sendsD: "sends P m ps \<Longrightarrow> P s \<Longrightarrow> m s = Some (Inr v, x) \<Longrightarrow> sent s ps x"
  unfolding sends_def by (blast dest: wpD(1))

lemma sends_bindM [sends_rules]:
  assumes "sends P m ps" "\<And>v. sends P (f v) qs"
  shows "sends P (bindM m f) (ps @ qs)"
  unfolding sends_def wp_bindM
proof (intro conjI allI impI)
  show "steady P" using assms(1) by (simp add: sends_def)
  fix s assume P: "P s"
  have *: "wp (f v) (\<lambda>_. sent s (ps @ qs)) (\<lambda>_ _. True) x" if "sent s ps x" for v x
  proof (rule wp_mono [where Q = "\<lambda>_. sent x qs" and X = "\<lambda>_ _. True"])
    from assms(1) P that have "P x" unfolding sends_def steady_def by blast
    with assms(2) [of v] show "wp (f v) (\<lambda>_. sent x qs) (\<lambda>_ _. True) x" unfolding sends_def by blast
    show "sent s (ps @ qs) y" if y: "sent x qs y" for y
      by (rule sent_trans [OF \<open>sent s ps x\<close> y])
  qed
  from assms(1) P have "wp m (\<lambda>_ x. sent s ps x) (\<lambda>_ _. True) s" unfolding sends_def by blast
  then show "wp m (\<lambda>v. wp (f v) (\<lambda>_. sent s (ps @ qs)) (\<lambda>_ _. True)) (\<lambda>_ _. True) s"
    by (rule wp_mono) (auto intro: *)
qed

lemma sends_thenM [sends_rules]: "sends P m ps \<Longrightarrow> sends P n qs \<Longrightarrow> sends P (thenM m n) (ps @ qs)"
  unfolding thenM_def by (rule sends_bindM)

lemma sends_simple:
  assumes "steady P"
  shows "sends P (ret v) []" "sends P (raise e) ps" "sends P (getM g) []" "sends P (askM q) []"
    "sends P (sleepM E t) []" "sends P (monotonicM E) []" "sends P (xfer E p) [p]" "sends P (set_line E e pin lv) []"
proof -
  show "sends P (xfer E p) [p]"
    using assms by (auto simp: sends_def xfer_events_def intro!: wp_xfer sentI)
  show "sends P (set_line E e pin lv) []"
    using assms by (auto simp: sends_def intro!: wp_set_line sentI)
  show "sends P (ret v) []" "sends P (raise e) ps" "sends P (getM g) []" "sends P (askM q) []"
    "sends P (sleepM E t) []" "sends P (monotonicM E) []"
    using assms by (auto simp: sends_def intro!: sent_refl sent_dev wp_sleepM wp_clock)
qed

lemma sends_if [sends_rules]: "(b \<Longrightarrow> sends P m ps) \<Longrightarrow> (\<not> b \<Longrightarrow> sends P n ps) \<Longrightarrow> sends P (if b then m else n) ps"
  by simp

lemma sends_ofE: "steady P \<Longrightarrow> sends P (ofE r) []"
  by (auto simp: sends_def sent_refl split: sum.split)

lemma sends_option:
  "(x = None \<Longrightarrow> sends P m ps) \<Longrightarrow> (\<And>y. x = Some y \<Longrightarrow> sends P (f y) ps) \<Longrightarrow>
   sends P (case x of None \<Rightarrow> m | Some y \<Rightarrow> f y) ps"
  by (cases x) auto

text \<open>A value of the state that \<open>P\<close> fixes.\<close>

lemma sends_getM: "steady P \<Longrightarrow> (\<And>s. P s \<Longrightarrow> g s = v) \<Longrightarrow> sends P (f v) ps \<Longrightarrow> sends P (bindM (getM g) f) ps"
  unfolding sends_def by simp

lemma sends_hard_reset: "steady P \<Longrightarrow> sends P (hard_reset E) []"
  unfolding hard_reset_def seqM.simps
  by (rule sends_bindM [where ps = "[]" and qs = "[]", simplified], rule sends_simple, assumption)
    (auto intro!: sends_simple sends_bindM [where ps = "[]" and qs = "[]", simplified]
      sends_thenM [where ps = "[]" and qs = "[]", simplified])

section \<open>The TX-enable line\<close>

text \<open>Invariants that transfers and line changes keep.\<close>

definition trace_closed :: "(('d, 'z) radio_scheme \<Rightarrow> bool) \<Rightarrow> bool" where
  "trace_closed J \<longleftrightarrow> (\<forall>s d ev. J s \<longrightarrow> J (s\<lparr>dev := d, bus_trace := bus_trace s @ ev\<rparr>))"

lemma trace_closed_dev: "trace_closed J \<Longrightarrow> dev_free J"
  unfolding trace_closed_def dev_free_def
proof (intro allI impI)
  fix s d
  assume J: "\<forall>s d ev. J s \<longrightarrow> J (s\<lparr>dev := d, bus_trace := bus_trace s @ ev\<rparr>)" "J s"
  then have "J (s\<lparr>dev := d, bus_trace := bus_trace s @ []\<rparr>)" by blast
  moreover have "s\<lparr>dev := d, bus_trace := bus_trace s @ []\<rparr> = s\<lparr>dev := d\<rparr>" by (cases s) simp
  ultimately show "J (s\<lparr>dev := d\<rparr>)" by simp
qed

lemma keeps_closed:
  assumes "trace_closed J"
  shows "keeps J (xfer E p)" "keeps J (set_line E e pin v)" "keeps J (sleepM E t)" "keeps J (monotonicM E)"
    "keeps J (hard_reset E)" "keeps J (set_txen E on)" "keeps J (askM q)"
proof -
  note J = assms [unfolded trace_closed_def, rule_format]
  show x: "keeps J (xfer E p)" unfolding keeps_wp by (intro allI impI wp_xfer J)
  show l: "keeps J (set_line E e pin v)" for e pin v
    unfolding keeps_wp
    by (intro allI impI wp_set_line J) (use trace_closed_dev [OF assms] in \<open>auto simp: dev_free_def\<close>)
  show sl: "keeps J (sleepM E t)" "keeps J (monotonicM E)" "keeps J (askM q)" for t
    by (intro keeps_rules trace_closed_dev assms)+
  show "keeps J (hard_reset E)" "keeps J (set_txen E on)"
    unfolding hard_reset_def set_txen_def seqM.simps by (intro keeps_rules l sl)+
qed

text \<open>The trace was extended, the wiring is the same.\<close>

definition extends :: "('d, 'z) radio_scheme \<Rightarrow> ('d, 'z) radio_scheme \<Rightarrow> bool" where
  "extends s x \<longleftrightarrow> prof x = prof s \<and> txen_req x = txen_req s \<and> (\<exists>ev. bus_trace x = bus_trace s @ ev)"

lemma extends_closed: "trace_closed (extends s)"
  by (auto simp: trace_closed_def extends_def)

lemma extends_refl: "extends s s"
  by (simp add: extends_def)

text \<open>TX-enable, where wired, was last driven low.\<close>

definition txen_low :: "('d, 'z) radio_scheme \<Rightarrow> ('d, 'z) radio_scheme \<Rightarrow> bool" where
  "txen_low s x \<longleftrightarrow> (\<exists>ev. bus_trace x = bus_trace s @ ev \<and> (txen_req s \<longrightarrow> \<not> line_level (txen (prof s)) True ev))"

lemma wp_after_keeps:
  assumes "keeps J m" "J s" "\<And>v x. J x \<Longrightarrow> wp (f v) Q (\<lambda>_ _. True) x"
  shows "wp (bindM m f) Q (\<lambda>_ _. True) s"
  unfolding wp_bindM using assms by (auto simp: keeps_wp intro: wp_mono)

lemma wp_txen_released:
  assumes "keeps (extends s) m" "extends s x"
  shows "wp (try_finally m (set_txen E False)) (\<lambda>_. txen_low s) (\<lambda>_ _. True) x"
proof -
  have low: "wp (set_txen E False) (\<lambda>_. txen_low s) (\<lambda>_ _. True) y" if "extends s y" for y
  proof (cases "txen_req s")
    case True
    with that show ?thesis
      by (auto simp: set_txen_def extends_def txen_low_def intro!: wp_set_line)
  next
    case False
    with that show ?thesis by (auto simp: set_txen_def extends_def txen_low_def)
  qed
  have hold: "wp (set_txen E False) (\<lambda>_ _. True) (\<lambda>_ _. True) y" for y
    by (auto simp: set_txen_def intro!: wp_set_line)
  from assms have "wp m (\<lambda>_. extends s) (\<lambda>_. extends s) x" by (simp add: keeps_wp)
  then show ?thesis
    unfolding wp_try_finally by (rule wp_mono) (auto intro: low hold)
qed

section \<open>The interface of a radio driver\<close>

datatype radio_op = StartRx | Poll | Send "byte list" real

text \<open>
  What the interface relies on of a driver, whichever chip it is for: its operations keep the
  bus protocol, and raise only radio faults. Any sequence of operations then keeps the protocol.
\<close>

locale radio_driver =
  fixes start_rx :: "('s, unit) py"
    and poll_rx :: "('s, (byte list \<times> real \<times> real) option) py"
    and transmit :: "byte list \<Rightarrow> real \<Rightarrow> ('s, bool) py"
    and protocol :: "'s \<Rightarrow> bool"
  assumes start_keeps: "keeps protocol start_rx" and start_raises: "raises radio_fault start_rx"
    and poll_keeps: "keeps protocol poll_rx" and poll_raises: "raises radio_fault poll_rx"
    and transmit_keeps: "keeps protocol (transmit data t)" and transmit_raises: "raises radio_fault (transmit data t)"
begin

primrec perform :: "radio_op \<Rightarrow> ('s, unit) py" where
  "perform StartRx = start_rx"
| "perform Poll = thenM poll_rx (ret ())"
| "perform (Send data t) = thenM (transmit data t) (ret ())"

lemma perform_keeps: "keeps protocol (perform op)"
  by (cases op) (auto intro!: keeps_rules start_keeps poll_keeps transmit_keeps)

lemma perform_raises: "raises radio_fault (perform op)"
  by (cases op) (auto intro!: raises_rules start_raises poll_raises transmit_raises)

lemma session_keeps: "keeps protocol (forM ops perform)"
  by (intro keeps_rules perform_keeps)

lemma session_raises: "raises radio_fault (forM ops perform)"
  by (intro raises_rules perform_raises)

end

section \<open>Time on air\<close>

lemma symbol_time_InrD: "symbol_time sf bw = Inr t \<Longrightarrow> 0 \<le> sf \<and> bw \<noteq> 0 \<and> t = 2 ^ nat sf / of_int bw"
  by (auto simp: symbol_time_def dest: fl_FinD split: if_splits pyfloat.splits)

lemma symbol_time_small: "0 \<le> sf \<Longrightarrow> sf \<le> 12 \<Longrightarrow> 0 < bw \<Longrightarrow> symbol_time sf bw = Inr (2 ^ nat sf / of_int bw)"
proof -
  assume a: "0 \<le> sf" "sf \<le> 12" "0 < bw"
  have "(2 :: real) ^ nat sf / of_int bw \<le> 2 ^ nat sf" using a by (simp add: divide_le_eq)
  also have "(2 :: real) ^ nat sf \<le> 2 ^ 12" using a by (intro power_increasing) auto
  finally have "\<bar>(2 :: real) ^ nat sf / of_int bw\<bar> \<le> 10 ^ 12" using a by simp
  then show ?thesis using a by (simp add: symbol_time_def fl_small)
qed

text \<open>The low-data-rate bit a configuration that gets that far has set.\<close>

definition ldro_bit :: "modem \<Rightarrow> int" where
  "ldro_bit c = (if (2 ^ nat (m_sf c) / of_int (m_bandwidth c) :: real) > 0.016 then 1 else 0)"

lemma ldro_InrD: "ldro (m_sf c) (m_bandwidth c) = Inr l \<Longrightarrow> l = ldro_bit c"
  by (auto simp: ldro_def ldro_bit_def bindE_Inr_iff dest!: symbol_time_InrD)

lemma ldro_Inl: "ldro sf bw = Inl e \<Longrightarrow> is_ValueError e \<or> e = OverflowError \<or> e = ZeroDivisionError"
  by (auto simp: ldro_def symbol_time_def bindE_Inl_iff split: if_splits pyfloat.splits)

text \<open>The number of symbols after the preamble.\<close>

definition payload_symbols :: "int \<Rightarrow> int \<Rightarrow> int \<Rightarrow> nat \<Rightarrow> int" where
  "payload_symbols sf bw cr n = 8 + max (\<lceil>of_int (8 * int n - 4 * sf + 28 + 16) /
     of_int (4 * (sf - 2 * (if (2 ^ nat sf / of_int bw :: real) > 0.016 then 1 else 0))) :: real\<rceil> * cr) 0"

lemma time_on_air_InrD:
  "time_on_air n sf bw cr preamble = Inr t \<Longrightarrow>
   t = (of_int preamble + 4.25) * (2 ^ nat sf / of_int bw) + of_int (payload_symbols sf bw cr n) * (2 ^ nat sf / of_int bw)"
  by (auto simp: time_on_air_def payload_symbols_def bindE_Inr_iff Let_def dest!: symbol_time_InrD split: if_splits)

lemma time_on_air_pos:
  assumes "0 < bw" "0 \<le> preamble" "time_on_air n sf bw cr preamble = Inr t"
  shows "(of_int preamble + 12.25) * (2 ^ nat sf / of_int bw) \<le> t" "0 < t"
proof -
  let ?ts = "2 ^ nat sf / of_int bw :: real"
  have ts: "0 < ?ts" using assms(1) by simp
  have "8 \<le> payload_symbols sf bw cr n" by (simp add: payload_symbols_def)
  then have "8 * ?ts \<le> of_int (payload_symbols sf bw cr n) * ?ts" using ts by (intro mult_right_mono) auto
  with time_on_air_InrD [OF assms(3)] show t: "(of_int preamble + 12.25) * ?ts \<le> t" by (simp add: algebra_simps)
  have "0 < (of_int preamble + 12.25) * ?ts" using assms(2) ts by (intro mult_pos_pos) auto
  with t show "0 < t" by linarith
qed

lemma payload_symbols_range:
  assumes "7 \<le> sf" "sf \<le> 12" "5 \<le> cr" "cr \<le> 8" "n \<le> 255"
  shows "\<bar>payload_symbols sf bw cr n\<bar> \<le> 10 ^ 12" "payload_symbols sf bw cr n \<le> payload_symbols sf bw cr (Suc n)"
proof -
  define de where "de = (if (2 ^ nat sf / of_int bw :: real) > 0.016 then 1 else 0 :: int)"
  define den where "den = 4 * (sf - 2 * de)"
  have den: "20 \<le> den" using assms(1) by (simp add: den_def de_def)
  have sym: "payload_symbols sf bw cr n = 8 + max (\<lceil>of_int (8 * int n - 4 * sf + 28 + 16) / of_int den :: real\<rceil> * cr) 0" for n
    by (simp add: payload_symbols_def den_def de_def)
  show "payload_symbols sf bw cr n \<le> payload_symbols sf bw cr (Suc n)"
    unfolding sym using assms(3) den by (intro add_left_mono max.mono mult_right_mono ceiling_mono divide_right_mono) auto
  have "8 * int n - 4 * sf + 28 + 16 \<le> 2084" using assms(1,5) by simp
  then have "real_of_int (8 * int n - 4 * sf + 28 + 16) \<le> 2084" by linarith
  moreover have "real_of_int (8 * int n - 4 * sf + 28 + 16) / of_int den \<le> 2084"
    using den calculation by (simp add: divide_le_eq)
  ultimately have "\<lceil>of_int (8 * int n - 4 * sf + 28 + 16) / of_int den :: real\<rceil> \<le> 2084" by (simp add: ceiling_le_iff)
  then have "\<lceil>of_int (8 * int n - 4 * sf + 28 + 16) / of_int den :: real\<rceil> * cr \<le> 2084 * cr"
    using assms(3) by (intro mult_right_mono) auto
  also have "2084 * cr \<le> 2084 * 8" using assms(4) by simp
  finally have "\<lceil>of_int (8 * int n - 4 * sf + 28 + 16) / of_int den :: real\<rceil> * cr \<le> 16672" by simp
  then show "\<bar>payload_symbols sf bw cr n\<bar> \<le> 10 ^ 12" by (simp add: sym)
qed

text \<open>
  For every accepted modulation (SF 7 to 12, coding rate 5 to 8, positive bandwidth), a preamble
  the chips can be given and a frame, the time on air is defined, positive, at least the
  preamble's share, and does not fall with the length.
\<close>

theorem time_on_air_bounds:
  assumes "7 \<le> sf" "sf \<le> 12" "5 \<le> cr" "cr \<le> 8" "0 < bw" "0 \<le> preamble" "preamble \<le> 65535" "n < 255"
  shows "\<exists>t t'. time_on_air n sf bw cr preamble = Inr t \<and> time_on_air (Suc n) sf bw cr preamble = Inr t' \<and>
    (of_int preamble + 12.25) * (2 ^ nat sf / of_int bw) \<le> t \<and> t \<le> t' \<and> 0 < t"
proof -
  let ?ts = "2 ^ nat sf / of_int bw :: real"
  let ?sym = "payload_symbols sf bw cr"
  have eq: "time_on_air k sf bw cr preamble = Inr ((of_int preamble + 4.25) * ?ts + of_int (?sym k) * ?ts)" if "k \<le> 255" for k
  proof -
    have "float_of_int preamble = Inr (Fin (of_int preamble))" "float_of_int (?sym k) = Inr (Fin (of_int (?sym k)))"
      using assms payload_symbols_range [OF assms(1-4) that] by (intro float_of_int_small; simp)+
    with assms(1) show ?thesis
      by (simp add: time_on_air_def symbol_time_small [OF _ assms(2,5)] Let_def payload_symbols_def)
  qed
  have "of_int (?sym n) * ?ts \<le> of_int (?sym (Suc n)) * ?ts"
    using payload_symbols_range(2) [OF assms(1-4), of n] assms(5,8) by (intro mult_right_mono) auto
  then show ?thesis
    using eq [of n] eq [of "Suc n"] assms(5,6,8) time_on_air_pos [of bw preamble n sf cr] by auto
qed

theorem time_on_air_bounds_witness:
  "\<exists>t t'. time_on_air 24 9 125000 5 8 = Inr t \<and> time_on_air 25 9 125000 5 8 = Inr t' \<and> 0 < t \<and> t \<le> t'"
  using time_on_air_bounds [of 9 5 125000 8 24] by auto

end
