(* ===== verification/Rflog.thy ===== *)
theory Rflog
  imports Platform
begin

text \<open>
  The RF log of \<open>loraham_rns/rflog.py\<close>: the switch parser, the two line formats and \<open>RfLog\<close>
  with its copy-truncate rollover. Text is a list of characters; every operating-system call of
  the log may fail as the platform says. What \<open>time.gmtime\<close> and \<open>time.strftime\<close> yield is
  computed by the proleptic Gregorian calendar.
\<close>

section \<open>Switches\<close>

definition TRUE_WORDS :: "string list" where "TRUE_WORDS = [''yes'', ''on'', ''true'', ''1'']"
definition FALSE_WORDS :: "string list" where "FALSE_WORDS = [''no'', ''off'', ''false'', ''0'']"

definition parse_switch :: "pyval \<Rightarrow> exn + bool" where
  "parse_switch v = (let text = lower (strip (if v = PNone then [] else py_str v)) in
     if text \<in> set TRUE_WORDS then Inr True
     else if text \<in> set FALSE_WORDS then Inr False
     else Inl (ValueError ''must be yes or no''))"

section \<open>Lines\<close>

definition hex_digits :: "byte \<Rightarrow> string" where
  "hex_digits b = [digit_char (unat b div 16), digit_char (unat b mod 16)]"

definition hex :: "byte list \<Rightarrow> string" where
  "hex data = concat (map hex_digits data)"

text \<open>Printable ASCII but the quote and the backslash; anything else is a dot.\<close>

definition ascii_char :: "byte \<Rightarrow> char" where
  "ascii_char b = (if 0x20 \<le> unat b \<and> unat b < 0x7F \<and> unat b \<noteq> 0x22 \<and> unat b \<noteq> 0x5C
     then char_of (unat b) else CHR ''.'')"

definition ascii :: "byte list \<Rightarrow> string" where
  "ascii data = map ascii_char data"

definition pad :: "nat \<Rightarrow> nat \<Rightarrow> string" where
  "pad width n = replicate (width - length (show_nat n)) (CHR ''0'') @ show_nat n"

text \<open>Format \<open>.2f\<close>.\<close>

definition fixed2 :: "real \<Rightarrow> string" where
  "fixed2 r = (let n = nat \<bar>py_round (r * 100)\<bar> in
     (if r < 0 then ''-'' else []) @ show_nat (n div 100) @ ''.'' @ pad 2 (n mod 100))"

text \<open>The calendar date of a day number, counted from 1970-01-01.\<close>

definition civil :: "int \<Rightarrow> int \<times> int \<times> int" where
  "civil z0 = (let z = z0 + 719468; era = z div 146097; doe = z mod 146097;
     yoe = (doe - doe div 1460 + doe div 36524 - doe div 146096) div 365;
     doy = doe - (365 * yoe + yoe div 4 - yoe div 100);
     mp = (5 * doy + 2) div 153; d = doy - (153 * mp + 2) div 5 + 1;
     m = (if mp < 10 then mp + 3 else mp - 9);
     y = yoe + era * 400 + (if m \<le> 2 then 1 else 0)
   in (y, m, d))"

definition utc_text :: "real \<Rightarrow> string" where
  "utc_text now = (let secs = \<lfloor>now\<rfloor>; (y, m, d) = civil (secs div 86400); t = nat (secs mod 86400) in
     pad 4 (nat y) @ ''-'' @ pad 2 (nat m) @ ''-'' @ pad 2 (nat d) @ ''T'' @ pad 2 (t div 3600) @ '':'' @
     pad 2 (t div 60 mod 60) @ '':'' @ pad 2 (t mod 60) @ ''.'' @ pad 3 (nat (Py_Text.truncate (now * 1000) mod 1000)) @ ''Z'')"

definition LF :: char where "LF = CHR 0x0A"

definition payload_text :: "byte list \<Rightarrow> string" where
  "payload_text data = '' hex='' @ hex data @ '' ascii='' @ [CHR 0x22] @ ascii data @ [CHR 0x22] @ [LF]"

definition format_rx :: "string \<Rightarrow> real \<Rightarrow> real \<Rightarrow> byte list \<Rightarrow> string" where
  "format_rx utc rssi snr data = utc @ '' RX rssi='' @ fixed2 rssi @ '' snr='' @ fixed2 snr @
     '' len='' @ show_nat (length data) @ payload_text data"

definition format_tx :: "string \<Rightarrow> string \<Rightarrow> byte list \<Rightarrow> string" where
  "format_tx utc outcome data = utc @ '' TX rssi=- snr=- len='' @ show_nat (length data) @
     '' outcome='' @ outcome @ payload_text data"

section \<open>The log file\<close>

definition MAX_BYTES :: nat where "MAX_BYTES = 5 * 1024 * 1024"
definition CHUNK :: nat where "CHUNK = 65536"

text \<open>
  \<open>rf_path\<close> is the path of the open descriptor (\<open>None\<close> while closed; the file keeps its inode),
  \<open>files\<close> the text of every file. \<open>raw\<close> and \<open>off\<close> are the local variables of \<open>_write\<close> and
  \<open>_copy_to_previous\<close> that their loops change.
\<close>

record 'd rflog = "'d world" +
  rf_path :: "string option"
  files :: "string \<rightharpoonup> string"
  max_bytes :: nat
  raw :: string
  off :: nat

definition previous :: "string \<Rightarrow> string" where
  "previous path = path @ ''.1''"

definition text_of :: "'d rflog \<Rightarrow> string \<Rightarrow> string" where
  "text_of s path = (case files s path of None \<Rightarrow> [] | Some t \<Rightarrow> t)"

definition set_text :: "string \<Rightarrow> string \<Rightarrow> 'd rflog \<Rightarrow> 'd rflog" where
  "set_text path t s = s\<lparr>files := (files s)(path \<mapsto> t)\<rparr>"

definition on_OSError :: "('s, 'a) py \<Rightarrow> 'a \<Rightarrow> ('s, 'a) py" where
  "on_OSError m v = try_except m (\<lambda>e. if is_OSError e then ret v else raise e)"

definition active :: "'d rflog \<Rightarrow> bool" where
  "active s \<longleftrightarrow> rf_path s \<noteq> None"

definition close_locked :: "('d, 'y) platform_scheme \<Rightarrow> ('d rflog, unit) py" where
  "close_locked E = bindM (getM active) (\<lambda>opened.
     thenM (if opened then on_OSError (osM E CloseLog) () else ret ())
     (modM (\<lambda>s. s\<lparr>rf_path := None\<rparr>)))"

definition log_open :: "('d, 'y) platform_scheme \<Rightarrow> pyval \<Rightarrow> ('d rflog, unit) py" where
  "log_open E v = (let path = (if truthy v then py_str v else []) in
     if \<not> startswith path ''/'' then raise (ValueError ''rf_log_path must be an absolute path'')
     else thenM (osM E OpenLog) (thenM (modM (\<lambda>s. set_text path (text_of s path) s))
       (thenM (close_locked E) (modM (\<lambda>s. s\<lparr>rf_path := Some path\<rparr>)))))"

text \<open>One round of the copy: \<open>pread\<close>, then the write of the chunk; a write that fails may leave a part of it.\<close>

definition copy_round :: "('d, 'y) platform_scheme \<Rightarrow> string \<Rightarrow> ('d rflog, unit option) py" where
  "copy_round E path = thenM (osM E ReadLog) (bindM (getM (\<lambda>s. take CHUNK (drop (off s) (text_of s path)))) (\<lambda>chunk.
     if chunk = [] then ret (Some ())
     else bindM (askM (os_call_p E WritePrev)) (\<lambda>err. case err of
         Some e \<Rightarrow> bindM (askM (os_write_p E (length chunk))) (\<lambda>n.
           thenM (modM (\<lambda>s. set_text (previous path) (text_of s (previous path) @ take n chunk) s)) (raise (OSError e)))
       | None \<Rightarrow> thenM (modM (\<lambda>s. set_text (previous path) (text_of s (previous path) @ chunk) s))
           (thenM (modM (\<lambda>s. s\<lparr>off := off s + length chunk\<rparr>)) (ret None)))))"

text \<open>Opening the previous segment for writing empties it; leaving the \<open>with\<close> block closes it.\<close>

definition copy_to_previous :: "('d, 'y) platform_scheme \<Rightarrow> string \<Rightarrow> ('d rflog, bool) py" where
  "copy_to_previous E path = on_OSError
     (thenM (osM E OpenPrev) (thenM (modM (set_text (previous path) []))
       (try_finally (thenM (modM (\<lambda>s. s\<lparr>off := 0\<rparr>)) (thenM (loopM (copy_round E path)) (ret True))) (osM E ClosePrev))))
     False"

definition write_round :: "('d, 'y) platform_scheme \<Rightarrow> string \<Rightarrow> ('d rflog, unit option) py" where
  "write_round E path = bindM (getM raw) (\<lambda>rest. if rest = [] then ret (Some ())
     else bindM (askM (os_call_p E WriteLog)) (\<lambda>err. case err of
         Some e \<Rightarrow> if e = EINTR then ret None else raise (OSError e)
       | None \<Rightarrow> bindM (askM (os_write_p E (length rest))) (\<lambda>n.
           thenM (modM (\<lambda>s. set_text path (text_of s path @ take n rest) s))
             (thenM (modM (\<lambda>s. s\<lparr>raw := drop n rest\<rparr>)) (ret None)))))"

definition roll :: "('d, 'y) platform_scheme \<Rightarrow> string \<Rightarrow> ('d rflog, unit) py" where
  "roll E path = bindM (copy_to_previous E path) (\<lambda>copied. if copied
     then on_OSError (thenM (osM E TruncLog) (modM (set_text path []))) () else ret ())"

definition log_write :: "('d, 'y) platform_scheme \<Rightarrow> string \<Rightarrow> string \<Rightarrow> ('d rflog, unit) py" where
  "log_write E path line = thenM (modM (\<lambda>s. s\<lparr>raw := line\<rparr>)) (on_OSError
     (thenM (osM E StatLog) (bindM (getM (\<lambda>s. length (text_of s path) + length line > max_bytes s)) (\<lambda>full.
        thenM (if full then roll E path else ret ()) (loopM (write_round E path))))) ())"

definition log_rx :: "('d, 'y) platform_scheme \<Rightarrow> real \<Rightarrow> real \<Rightarrow> byte list \<Rightarrow> ('d rflog, unit) py" where
  "log_rx E rssi snr data = bindM (getM rf_path) (\<lambda>fd. case fd of None \<Rightarrow> ret ()
     | Some path \<Rightarrow> bindM (timeM E) (\<lambda>now. log_write E path (format_rx (utc_text now) rssi snr data)))"

definition log_tx :: "('d, 'y) platform_scheme \<Rightarrow> string \<Rightarrow> byte list \<Rightarrow> ('d rflog, unit) py" where
  "log_tx E outcome data = bindM (getM rf_path) (\<lambda>fd. case fd of None \<Rightarrow> ret ()
     | Some path \<Rightarrow> bindM (timeM E) (\<lambda>now. log_write E path (format_tx (utc_text now) outcome data)))"

section \<open>What a call leaves in the files\<close>

lemma previous_neq [simp]: "previous path \<noteq> path" "path \<noteq> previous path"
  by (simp_all add: previous_def)

lemma set_text_simps [simp]:
  "files (set_text p t s) = (files s)(p \<mapsto> t)" "rf_path (set_text p t s) = rf_path s"
  "max_bytes (set_text p t s) = max_bytes s" "raw (set_text p t s) = raw s" "off (set_text p t s) = off s"
  "dev (set_text p t s) = dev s" "text_of (set_text p t s) q = (if q = p then t else text_of s q)"
  by (simp_all add: set_text_def text_of_def)

lemma text_of_update [simp]:
  "text_of (s\<lparr>dev := d\<rparr>) p = text_of s p" "text_of (s\<lparr>raw := r\<rparr>) p = text_of s p" "text_of (s\<lparr>off := i\<rparr>) p = text_of s p"
  "text_of (s\<lparr>rf_path := fd\<rparr>) p = text_of s p"
  by (simp_all add: text_of_def)

lemma wp_on_OSError [simp]:
  "wp (on_OSError m v) Q X s = wp m Q (\<lambda>e t. if is_OSError e then Q v t else X e t) s"
  unfolding on_OSError_def wp_try_except by (rule arg_cong [of _ _ "\<lambda>X. wp m Q X s"]) (auto intro!: ext)

text \<open>The calls of the log that the operating system answers without an error.\<close>

definition reliable :: "('d, 'y) platform_scheme \<Rightarrow> bool" where
  "reliable E \<longleftrightarrow> (\<forall>c d. c \<in> {StatLog, OpenPrev, ReadLog, WritePrev, ClosePrev, TruncLog, WriteLog} \<longrightarrow>
     fst (os_call_p E c d) = None)"

lemma not_reliable:
  "fst (os_call_p E c d) = Some e \<Longrightarrow> c \<in> {StatLog, OpenPrev, ReadLog, WritePrev, ClosePrev, TruncLog, WriteLog} \<Longrightarrow> \<not> reliable E"
  by (force simp: reliable_def)

lemma wp_log_call:
  assumes "\<And>d. Q () (s\<lparr>dev := d\<rparr>)" and "\<And>e d. \<not> reliable E \<Longrightarrow> X (OSError e) (s\<lparr>dev := d\<rparr>)"
    and "c \<in> {StatLog, OpenPrev, ReadLog, WritePrev, ClosePrev, TruncLog, WriteLog}"
  shows "wp (osM E c) Q X s"
proof (cases "reliable E")
  case True
  with assms(3) have "fst (os_call_p E c (dev s)) = None" by (auto simp: reliable_def)
  then show ?thesis by (simp add: osM_def assms(1))
qed (rule wp_osM; simp add: assms)

text \<open>A state change that touches at most the two segments.\<close>

definition beside :: "string \<Rightarrow> 'd rflog \<Rightarrow> 'd rflog \<Rightarrow> bool" where
  "beside p s t \<longleftrightarrow> rf_path t = rf_path s \<and> max_bytes t = max_bytes s \<and>
     (\<forall>q. q \<noteq> p \<longrightarrow> q \<noteq> previous p \<longrightarrow> files t q = files s q)"

lemma beside_rules [simp]:
  "beside p s s" "beside p s (t\<lparr>dev := d\<rparr>) = beside p s t" "beside p s (t\<lparr>raw := r\<rparr>) = beside p s t"
  "beside p s (t\<lparr>off := i\<rparr>) = beside p s t" "beside p (s\<lparr>dev := d\<rparr>) t = beside p s t" "beside p (s\<lparr>raw := r\<rparr>) t = beside p s t"
  "beside p s t \<Longrightarrow> beside p s (set_text p x t)" "beside p s t \<Longrightarrow> beside p s (set_text (previous p) x t)"
  by (auto simp: beside_def)

text \<open>While the copy runs, the previous segment holds the first \<open>off\<close> bytes of the live one.\<close>

definition copying :: "string \<Rightarrow> 'd rflog \<Rightarrow> 'd rflog \<Rightarrow> bool" where
  "copying p s t \<longleftrightarrow> beside p s t \<and> raw t = raw s \<and> text_of t p = text_of s p \<and>
     text_of t (previous p) = take (off t) (text_of s p)"

definition live_kept :: "string \<Rightarrow> 'd rflog \<Rightarrow> 'd rflog \<Rightarrow> bool" where
  "live_kept p s t \<longleftrightarrow> beside p s t \<and> raw t = raw s \<and> text_of t p = text_of s p"

lemma copying_live_kept: "copying p s t \<Longrightarrow> live_kept p s t"
  by (simp add: copying_def live_kept_def)

lemma live_kept_simps [simp]:
  "live_kept p s s" "live_kept p s (t\<lparr>dev := d\<rparr>) = live_kept p s t" "live_kept p s (t\<lparr>off := i\<rparr>) = live_kept p s t"
  "live_kept p s t \<Longrightarrow> live_kept p s (set_text (previous p) x t)"
  by (simp_all add: live_kept_def)

lemma take_step: "take n xs @ take k (drop n xs) = take (n + length (take k (drop n xs))) xs"
  by (cases "n \<le> length xs") (simp_all add: take_add [symmetric] min_def)

lemma wp_copy_round:
  assumes "copying p s t"
  shows "wp (copy_round E p) (\<lambda>r u. case r of None \<Rightarrow> copying p s u
      | Some _ \<Rightarrow> live_kept p s u \<and> text_of u (previous p) = text_of s p)
    (\<lambda>e u. is_OSError e \<and> live_kept p s u \<and> \<not> reliable E) t"
  unfolding copy_round_def wp_thenM
  using assms copying_live_kept [OF assms]
  by (intro wp_log_call)
    (auto simp: copying_def CHUNK_def take_step dest: not_reliable split: option.split)

lemma wp_copy_to_previous:
  "wp (copy_to_previous E p) (\<lambda>ok u. live_kept p s u \<and> (ok \<longrightarrow> text_of u (previous p) = text_of s p) \<and> (reliable E \<longrightarrow> ok))
     (\<lambda>_ _. False) s"
proof -
  have loop: "wp (loopM (copy_round E p)) (\<lambda>_ u. live_kept p s u \<and> text_of u (previous p) = text_of s p)
      (\<lambda>e u. is_OSError e \<and> live_kept p s u \<and> \<not> reliable E) t" if "copying p s t" for t
    by (rule wp_loopM [where I = "copying p s"], rule that) (rule wp_copy_round)
  show ?thesis
    unfolding copy_to_previous_def wp_on_OSError wp_thenM wp_try_finally wp_modM
    by (rule wp_log_call)
      (auto intro!: wp_mono [OF loop] wp_log_call simp: copying_def)
qed


text \<open>
  \<open>recorded p line s t\<close>: from \<open>s\<close> to \<open>t\<close> a part of \<open>line\<close> was appended to the log; the text
  that was there is still there, or the log was emptied after the whole of it had been copied
  to the previous segment, which happens only when the line would not have fitted.
\<close>

definition recorded :: "string \<Rightarrow> string \<Rightarrow> 'd rflog \<Rightarrow> 'd rflog \<Rightarrow> bool" where
  "recorded p line s t \<longleftrightarrow> beside p s t \<and>
     ((\<exists>n. text_of t p = text_of s p @ take n line) \<or>
      max_bytes s < length (text_of s p) + length line \<and> (\<exists>n. text_of t p = take n line) \<and>
      text_of t (previous p) = text_of s p)"

lemma some_prefix [simp]: "\<exists>n. xs = take n xs"
  by (rule exI [of _ "length xs"]) simp

text \<open>While the line is written: \<open>old\<close> followed by what has left \<open>raw\<close>.\<close>

definition writing :: "string \<Rightarrow> string \<Rightarrow> string \<Rightarrow> 'd rflog \<Rightarrow> 'd rflog \<Rightarrow> bool" where
  "writing p line old s t \<longleftrightarrow> beside p s t \<and> files t (previous p) = files s (previous p) \<and>
     (\<exists>n. raw t = drop n line \<and> text_of t p = old @ take n line)"

lemma writing_previous: "writing p line old s t \<Longrightarrow> text_of t (previous p) = text_of s (previous p)"
  by (simp add: writing_def text_of_def)

lemma beside_trans: "beside p s t \<Longrightarrow> beside p t u \<Longrightarrow> beside p s u"
  by (auto simp: beside_def)

lemma wp_write_round:
  assumes "writing p line old s t"
  shows "wp (write_round E p) (\<lambda>r u. writing p line old s u \<and> (r \<noteq> None \<longrightarrow> text_of u p = old @ line))
    (\<lambda>e u. is_OSError e \<and> writing p line old s u \<and> \<not> reliable E) t"
proof -
  obtain n where n: "raw t = drop n line" "text_of t p = old @ take n line" using assms by (auto simp: writing_def)
  have step: "\<exists>m'. drop m (drop n line) = drop m' line \<and> take n line @ take m (drop n line) = take m' line" for m
    by (metis add.commute drop_drop take_add)
  show ?thesis
    using assms n step unfolding write_round_def wp_bindM wp_getM
    by (auto simp: writing_def dest: not_reliable split: option.split)
qed

lemma wp_write_loop:
  assumes "writing p line old s t"
  shows "wp (loopM (write_round E p)) (\<lambda>_ u. writing p line old s u \<and> text_of u p = old @ line)
    (\<lambda>e u. is_OSError e \<and> writing p line old s u \<and> \<not> reliable E) t"
  by (rule wp_loopM [where I = "writing p line old s"], rule assms, rule wp_mono [OF wp_write_round])
    (auto split: option.split)

lemma wp_roll:
  "wp (roll E p) (\<lambda>_ u. raw u = raw s \<and> beside p s u \<and>
     (text_of u p = text_of s p \<and> \<not> reliable E \<or> text_of u p = [] \<and> text_of u (previous p) = text_of s p)) (\<lambda>_ _. False) s"
  unfolding roll_def wp_bindM
  by (rule wp_mono [OF wp_copy_to_previous]) (auto simp: live_kept_def intro!: wp_log_call)

text \<open>The outcome of one write, whatever the operating system answers.\<close>

definition outcome_of_write :: "('d, 'y) platform_scheme \<Rightarrow> string \<Rightarrow> string \<Rightarrow> 'd rflog \<Rightarrow> 'd rflog \<Rightarrow> bool" where
  "outcome_of_write E p line s t \<longleftrightarrow> recorded p line s t \<and> (reliable E \<longrightarrow>
     (if length (text_of s p) + length line \<le> max_bytes s
      then text_of t p = text_of s p @ line \<and> files t (previous p) = files s (previous p)
      else text_of t p = line \<and> text_of t (previous p) = text_of s p))"

lemma wp_log_write: "wp (log_write E p line) (\<lambda>_. outcome_of_write E p line s) (\<lambda>_ _. False) s"
proof -
  let ?s = "\<lambda>d. s\<lparr>raw := line, dev := d\<rparr>"
  have fits: "wp (loopM (write_round E p)) (\<lambda>_. outcome_of_write E p line s)
      (\<lambda>e u. if is_OSError e then outcome_of_write E p line s u else False) (?s d)"
    if "length (text_of s p) + length line \<le> max_bytes s" for d
  proof (rule wp_mono [OF wp_write_loop [of p line "text_of s p" s]])
    show "writing p line (text_of s p) s (?s d)" by (auto simp: writing_def intro: exI [of _ 0])
  qed (use that in \<open>auto simp: outcome_of_write_def recorded_def writing_def\<close>)
  have rolled: "wp (loopM (write_round E p)) (\<lambda>_. outcome_of_write E p line s)
      (\<lambda>e u. if is_OSError e then outcome_of_write E p line s u else False) t"
    if "\<not> length (text_of s p) + length line \<le> max_bytes s" "raw t = line" "beside p s t"
      "text_of t p = text_of s p \<and> \<not> reliable E \<or> text_of t p = [] \<and> text_of t (previous p) = text_of s p" for t
  proof (rule wp_mono [OF wp_write_loop [of p line "text_of t p" t]])
    show "writing p line (text_of t p) t t" using that(2) by (auto simp: writing_def intro: exI [of _ 0])
  qed (use that beside_trans [OF that(3)] writing_previous in
      \<open>fastforce simp: outcome_of_write_def recorded_def writing_def\<close>)+
  have unchanged: "outcome_of_write E p line s (?s d)" if "\<not> reliable E" for d
    using that by (auto simp: outcome_of_write_def recorded_def intro: exI [of _ 0])
  show ?thesis
    unfolding log_write_def wp_on_OSError wp_thenM wp_bindM wp_modM wp_getM
    by (rule wp_log_call)
      (auto intro!: wp_mono [OF fits] wp_mono [OF wp_roll] wp_mono [OF rolled] intro: unchanged split: if_splits)
qed


section \<open>Every call returns\<close>

text \<open>
  A platform on which a write makes progress: it takes at least one byte, and only so many
  interruptions (\<open>pending\<close>) are to come.
\<close>

definition writes_end :: "('d, 'y) platform_scheme \<Rightarrow> ('d \<Rightarrow> nat) \<Rightarrow> bool" where
  "writes_end E pending \<longleftrightarrow>
     (\<forall>n d. 0 < n \<longrightarrow> 0 < fst (os_write_p E n d) \<and> pending (snd (os_write_p E n d)) \<le> pending d) \<and>
     (\<forall>d. pending (snd (os_call_p E WriteLog d)) \<le> pending d) \<and>
     (\<forall>d. fst (os_call_p E WriteLog d) = Some EINTR \<longrightarrow> pending (snd (os_call_p E WriteLog d)) < pending d)"

lemma total_write_loop:
  assumes "writes_end E pending"
  shows "tkeeps (\<lambda>_. True) (loopM (write_round E p))"
proof (rule tkeeps_loopM [where f = "\<lambda>s. length (raw s) + pending (dev s)"], goal_cases)
  case (1 s)
  let ?d = "snd (os_call_p E WriteLog (dev s))"
  have w: "fst (os_write_p E (length (raw s)) ?d) > 0" "pending (snd (os_write_p E (length (raw s)) ?d)) \<le> pending ?d"
    if "raw s \<noteq> []" using assms that by (auto simp: writes_end_def)
  have o: "pending ?d \<le> pending (dev s)" "fst (os_call_p E WriteLog (dev s)) = Some EINTR \<longrightarrow> pending ?d < pending (dev s)"
    using assms by (auto simp: writes_end_def)
  show ?case
  proof (cases "raw s = []")
    case False
    then have "length (raw s) > 0" by simp
    with w [OF False] o show ?thesis
      by (cases "fst (os_call_p E WriteLog (dev s))")
        (auto simp: write_round_def py_defs simp del: length_greater_0_conv intro!: add_less_le_mono diff_less)
  qed (simp add: write_round_def py_defs)
qed

lemma total_copy_loop: "tkeeps (\<lambda>_. True) (loopM (copy_round E p))"
proof -
  have body: "\<exists>r u. copy_round E p t = Some (r, u) \<and> length (text_of u p) = length (text_of t p) \<and>
      (r = Inr None \<longrightarrow> off t < length (text_of t p) \<and> off t < off u)" for t
    unfolding copy_round_def osM_def
    by (cases "fst (os_call_p E ReadLog (dev t))"; cases "fst (os_call_p E WritePrev (snd (os_call_p E ReadLog (dev t))))")
      (auto simp: py_defs CHUNK_def)
  show ?thesis
  proof (rule tkeeps_loopM [where f = "\<lambda>s. length (text_of s p) - off s"], goal_cases)
    case (1 s)
    from body [of s] show ?case by fastforce
  qed
qed

lemma total_log [tkeeps_rules]:
  assumes "writes_end E pending"
  shows "tkeeps (\<lambda>_. True) (log_write E p line)"
proof -
  have k: "tkeeps (\<lambda>_. True) (osM E c)" for c
    unfolding osM_def by (intro tkeeps_rules) (simp add: tkeeps_def)
  show ?thesis
    unfolding log_write_def roll_def copy_to_previous_def on_OSError_def
    by (intro tkeeps_rules k total_copy_loop total_write_loop [OF assms] TrueI)
qed

lemma log_write_returns:
  assumes "writes_end E pending"
  obtains t where "log_write E p line s = Some (Inr (), t)" "outcome_of_write E p line s t"
proof -
  obtain r t where rt: "log_write E p line s = Some (r, t)" using tkeepsD [OF total_log [OF assms]] by blast
  with wpD [OF wp_log_write [of E p line s]] have "r = Inr ()" by (cases r) auto
  with rt wpD(1) [OF wp_log_write [of E p line s]] that show ?thesis by blast
qed

section \<open>Reading a log back\<close>

datatype packet_event = RxEvent real real "byte list" | TxEvent string "byte list"

fun event_data :: "packet_event \<Rightarrow> string \<times> byte list" where
  "event_data (RxEvent rssi snr data) = (''RX'', data)"
| "event_data (TxEvent outcome data) = (''TX'', data)"

fun event_line :: "real \<Rightarrow> packet_event \<Rightarrow> string" where
  "event_line now (RxEvent rssi snr data) = format_rx (utc_text now) rssi snr data"
| "event_line now (TxEvent outcome data) = format_tx (utc_text now) outcome data"

fun unhex :: "string \<Rightarrow> byte list option" where
  "unhex [] = Some []"
| "unhex (a # b # r) = (case (digit_val a, digit_val b, unhex r) of
     (Some x, Some y, Some bs) \<Rightarrow> if x < 16 \<and> y < 16 then Some (word_of_int (16 * x + y) # bs) else None
   | _ \<Rightarrow> None)"
| "unhex _ = None"

text \<open>A reader of the documented line format: direction is the second field, payload the field \<open>hex=\<close>.\<close>

definition read_line :: "string \<Rightarrow> (string \<times> byte list) option" where
  "read_line line = (let fs = split_at (CHR '' '') line in
     case find (\<lambda>f. startswith f ''hex='') fs of None \<Rightarrow> None | Some f \<Rightarrow> map_option (Pair (fs ! 1)) (unhex (drop 4 f)))"

lemma unhex_hex: "unhex (hex data) = Some data"
proof (induction data)
  case (Cons b bs)
  have "unat b < 256" using unsigned_less [of b] by simp
  then have "unat b div 16 < 16" "unat b mod 16 < 16" by auto
  moreover have "16 * int (unat b div 16) + int (unat b mod 16) = uint b"
    by (simp add: zdiv_int zmod_int flip: uint_nat)
  ultimately show ?case using Cons by (simp add: hex_def hex_digits_def)
qed (simp add: hex_def)

text \<open>The characters of times and numbers.\<close>

definition plain :: "char \<Rightarrow> bool" where
  "plain c \<longleftrightarrow> 45 \<le> code c \<and> code c \<le> 58 \<or> code c \<in> {84, 90}"

lemma plain_neq: "plain c \<Longrightarrow> c \<noteq> CHR '' '' \<and> c \<noteq> LF \<and> c \<noteq> CHR ''h''"
  by (auto simp: plain_def code_def LF_def)

lemma plain_texts:
  "c \<in> set (show_nat n) \<Longrightarrow> plain c" "c \<in> set (pad w n) \<Longrightarrow> plain c" "c \<in> set (fixed2 r) \<Longrightarrow> plain c"
  "c \<in> set (utc_text now) \<Longrightarrow> plain c"
proof -
  show n: "c \<in> set (show_nat n) \<Longrightarrow> plain c" for n using show_nat_codes [of c n] by (auto simp: plain_def)
  show p: "c \<in> set (pad w n) \<Longrightarrow> plain c" for w n using n [of n] by (auto simp: pad_def plain_def code_def split: if_splits)
  show "c \<in> set (fixed2 r) \<Longrightarrow> plain c"
    using n p by (auto simp: fixed2_def Let_def plain_def code_def split: if_splits)
  show "c \<in> set (utc_text now) \<Longrightarrow> plain c"
    using p by (auto simp: utc_text_def Let_def plain_def code_def split: prod.splits)
qed

lemma split_at_concat:
  "(\<And>l. l \<in> set ls \<Longrightarrow> c \<notin> set l) \<Longrightarrow> split_at c (concat (map (\<lambda>l. l @ [c]) ls)) = ls @ [[]]"
  by (induction ls) (simp_all add: split_at_append)

lemma digit_char_code: "d < 16 \<Longrightarrow> code (digit_char d) \<in> {48..57} \<union> {97..102}"
  by (simp add: code_digit_char)

lemma hex_codes: "c \<in> set (hex data) \<Longrightarrow> code c \<in> {48..57} \<union> {97..102}"
proof -
  assume "c \<in> set (hex data)"
  then obtain b :: byte where b: "c \<in> set (hex_digits b)" by (auto simp: hex_def)
  have "unat b < 256" using unsigned_less [of b] by simp
  then have "unat b div 16 < 16" "unat b mod 16 < 16" by auto
  from digit_char_code [OF this(1)] digit_char_code [OF this(2)] b show ?thesis
    by (auto simp: hex_digits_def simp del: atLeastAtMost_iff)
qed

lemma ascii_codes: "c \<in> set (ascii data) \<Longrightarrow> 32 \<le> code c \<and> code c < 127 \<and> code c \<noteq> 34 \<and> code c \<noteq> 92"
  by (auto simp: ascii_def ascii_char_def code_def)

text \<open>A line without its newline, as its fields.\<close>

definition line_fields :: "string list \<Rightarrow> byte list \<Rightarrow> string" where
  "line_fields fs data = concat (map (\<lambda>f. f @ '' '') fs) @ ''hex='' @ hex data @ '' ascii='' @ [CHR 0x22] @ ascii data @ [CHR 0x22]"

lemma event_line_fields:
  "event_line now (RxEvent rssi snr data) = line_fields
     [utc_text now, ''RX'', ''rssi='' @ fixed2 rssi, ''snr='' @ fixed2 snr, ''len='' @ show_nat (length data)] data @ [LF]"
  "event_line now (TxEvent outcome data) = line_fields
     [utc_text now, ''TX'', ''rssi=-'', ''snr=-'', ''len='' @ show_nat (length data), ''outcome='' @ outcome] data @ [LF]"
  by (simp_all add: line_fields_def format_rx_def format_tx_def payload_text_def)

text \<open>Fields that a reader can tell apart: no blank, no newline, not a payload field.\<close>

definition field :: "string \<Rightarrow> bool" where
  "field f \<longleftrightarrow> CHR '' '' \<notin> set f \<and> LF \<notin> set f \<and> \<not> startswith f ''hex=''"

lemma read_fields:
  assumes "list_all field fs" "length fs > 1"
  shows "read_line (line_fields fs data) = Some (fs ! 1, data)" "LF \<notin> set (line_fields fs data)"
proof -
  let ?h = "''hex='' @ hex data" and ?a = "''ascii='' @ [CHR 0x22] @ ascii data @ [CHR 0x22]"
  have hx: "CHR '' '' \<notin> set ?h" using hex_codes [of _ data] by (force simp: code_def)
  have "split_at (CHR '' '') (line_fields fs data) = fs @ ?h # split_at (CHR '' '') ?a" if "list_all field fs" for fs
    using that
  proof (induction fs)
    case Nil
    have "line_fields [] data = ?h @ CHR '' '' # ?a" by (simp add: line_fields_def)
    then show ?case using split_at_append [OF hx, of ?a] by simp
  next
    case (Cons f fs)
    have "line_fields (f # fs) data = f @ CHR '' '' # line_fields fs data" by (simp add: line_fields_def)
    with Cons show ?case by (simp add: field_def split_at_append)
  qed
  moreover have "find (\<lambda>f. startswith f ''hex='') (fs @ ?h # rest) = Some ?h" for rest
    using assms(1) by (induction fs) (auto simp: field_def startswith_def)
  ultimately show "read_line (line_fields fs data) = Some (fs ! 1, data)"
    using assms by (simp add: read_line_def nth_append unhex_hex)
  show "LF \<notin> set (line_fields fs data)"
    using assms(1) hex_codes [of LF data] ascii_codes [of LF data]
    by (auto simp: line_fields_def list_all_iff field_def LF_def code_def)
qed


fun documented :: "packet_event \<Rightarrow> bool" where
  "documented (RxEvent rssi snr data) = True"
| "documented (TxEvent outcome data) = (outcome = ''ok'' \<or> outcome = ''unconfirmed'')"

lemma field_plain:
  assumes "\<And>c. c \<in> set f \<Longrightarrow> plain c"
  shows "field f" "field (''rssi='' @ f)" "field (''snr='' @ f)" "field (''len='' @ f)"
proof -
  have abs: "CHR '' '' \<notin> set f" "LF \<notin> set f" "CHR ''h'' \<notin> set f" using assms plain_neq by blast+
  then have "take (length ''hex='') f \<noteq> ''hex=''" using set_take_subset [of "length ''hex=''" f] by auto
  with abs show "field f" by (simp only: field_def startswith_def simp_thms)
  from abs show "field (''rssi='' @ f)" "field (''snr='' @ f)" "field (''len='' @ f)"
    by (simp_all add: field_def startswith_def LF_def)
qed

lemma event_line_shape:
  assumes "documented ev"
  obtains body where "event_line now ev = body @ [LF]" "LF \<notin> set body" "read_line body = Some (event_data ev)"
proof (cases ev)
  case (RxEvent rssi snr data)
  let ?fs = "[utc_text now, ''RX'', ''rssi='' @ fixed2 rssi, ''snr='' @ fixed2 snr, ''len='' @ show_nat (length data)]"
  have "list_all field ?fs"
    using field_plain [OF plain_texts(1)] field_plain [OF plain_texts(3)] field_plain [OF plain_texts(4)]
    by (simp add: field_def startswith_def LF_def)
  from read_fields [OF this, of data] show ?thesis
    by (intro that [of "line_fields ?fs data"]) (simp_all only: RxEvent event_line_fields, simp_all)
next
  case (TxEvent outcome data)
  let ?fs = "[utc_text now, ''TX'', ''rssi=-'', ''snr=-'', ''len='' @ show_nat (length data), ''outcome='' @ outcome]"
  have "list_all field ?fs"
    using field_plain [OF plain_texts(1)] field_plain [OF plain_texts(4)] assms TxEvent
    by (auto simp: field_def startswith_def LF_def)
  from read_fields [OF this, of data] show ?thesis
    by (intro that [of "line_fields ?fs data"]) (simp_all only: TxEvent event_line_fields, simp_all)
qed

definition read_log :: "string \<Rightarrow> (string \<times> byte list) option list" where
  "read_log text = map read_line (butlast (split_at LF text))"

text \<open>
  A log of any received and sent packets reads back exactly: split at the newlines it gives one
  line per packet, and each line gives back the direction and every byte of the payload.
\<close>

theorem log_text_roundtrip:
  assumes "\<forall>(now, ev) \<in> set xs. documented ev"
  shows "read_log (concat (map (\<lambda>(now, ev). event_line now ev) xs)) = map (\<lambda>(now, ev). Some (event_data ev)) xs"
proof -
  have "\<exists>body. event_line now ev = body @ [LF] \<and> LF \<notin> set body \<and> read_line body = Some (event_data ev)"
    if "(now, ev) \<in> set xs" for now ev
    using event_line_shape [of ev now] assms that by (metis case_prodD)
  then obtain body where body: "\<And>now ev. (now, ev) \<in> set xs \<Longrightarrow> event_line now ev = body now ev @ [LF] \<and>
      LF \<notin> set (body now ev) \<and> read_line (body now ev) = Some (event_data ev)" by metis
  then have "concat (map (\<lambda>(now, ev). event_line now ev) xs) = concat (map (\<lambda>l. l @ [LF]) (map (case_prod body) xs))"
    by (intro arg_cong [of _ _ concat]) auto
  moreover have "split_at LF (concat (map (\<lambda>l. l @ [LF]) (map (case_prod body) xs))) = map (case_prod body) xs @ [[]]"
    using body by (intro split_at_concat) auto
  ultimately show ?thesis using body by (auto simp: read_log_def)
qed

section \<open>Two segments of whole lines\<close>

text \<open>The contract of the retention: the lines of the previous and of the live segment.\<close>

definition add_line :: "nat \<Rightarrow> string \<Rightarrow> string list \<times> string list \<Rightarrow> string list \<times> string list" where
  "add_line limit line segs = (case segs of (prev, live) \<Rightarrow>
     if length (concat live) + length line \<le> limit then (prev, live @ [line]) else (live, [line]))"

fun log_packet :: "('d, 'y) platform_scheme \<Rightarrow> packet_event \<Rightarrow> ('d rflog, unit) py" where
  "log_packet E (RxEvent rssi snr data) = log_rx E rssi snr data"
| "log_packet E (TxEvent outcome data) = log_tx E outcome data"

definition holds_segments :: "string \<Rightarrow> 'd rflog \<Rightarrow> string list \<times> string list \<Rightarrow> bool" where
  "holds_segments p s segs \<longleftrightarrow> rf_path s = Some p \<and> text_of s (previous p) = concat (fst segs) \<and> text_of s p = concat (snd segs)"

lemma log_packet_returns:
  assumes "writes_end E pending" "rf_path s = Some p"
  shows "\<exists>t. log_packet E ev s = Some (Inr (), t) \<and>
    outcome_of_write E p (event_line (fst (time_p E (dev s))) ev) (s\<lparr>dev := snd (time_p E (dev s))\<rparr>) t"
proof -
  let ?s = "s\<lparr>dev := snd (time_p E (dev s))\<rparr>"
  have "\<exists>t. log_write E p line ?s = Some (Inr (), t) \<and> outcome_of_write E p line ?s t" for line
    by (rule log_write_returns [OF assms(1)]) blast
  then show ?thesis using assms(2) by (cases ev) (simp_all add: log_rx_def log_tx_def timeM_def py_defs)
qed


lemma log_packet_segments:
  assumes "reliable E" "writes_end E pending" "holds_segments p s segs"
  obtains t now where "log_packet E ev s = Some (Inr (), t)" "max_bytes t = max_bytes s"
    "holds_segments p t (add_line (max_bytes s) (event_line now ev) segs)"
proof -
  let ?now = "fst (time_p E (dev s))" and ?s = "s\<lparr>dev := snd (time_p E (dev s))\<rparr>"
  have p: "rf_path s = Some p" using assms(3) by (simp add: holds_segments_def)
  obtain t where t: "log_packet E ev s = Some (Inr (), t)" "outcome_of_write E p (event_line ?now ev) ?s t"
    using log_packet_returns [OF assms(2) p] by blast
  from t(2) assms(1,3) have "max_bytes t = max_bytes s \<and> holds_segments p t (add_line (max_bytes s) (event_line ?now ev) segs)"
    by (auto simp: outcome_of_write_def recorded_def beside_def holds_segments_def add_line_def text_of_def split: prod.split if_splits)
  with t(1) that show ?thesis by blast
qed


text \<open>
  C16. Without file errors the log implements the two-segment contract over any sequence of
  packets: every call returns, the two files hold exactly the lines that the contract keeps, and
  neither outgrows the limit as long as no single line does.
\<close>

theorem log_refines_segments:
  assumes "reliable E" "writes_end E pending" "holds_segments p s ([], [])"
  shows "\<exists>t nows. forM evs (log_packet E) s = Some (Inr (), t) \<and> length nows = length evs \<and>
    (let lines = map2 event_line nows evs; segs = fold (add_line (max_bytes s)) lines ([], []) in
      holds_segments p t segs \<and>
      ((\<forall>l \<in> set lines. length l \<le> max_bytes s) \<longrightarrow>
        length (text_of t p) \<le> max_bytes s \<and> length (text_of t (previous p)) \<le> max_bytes s))"
proof -
  have run: "\<exists>t nows. forM evs (log_packet E) s = Some (Inr (), t) \<and> length nows = length evs \<and> max_bytes t = max_bytes s \<and>
      holds_segments p t (fold (add_line (max_bytes s)) (map2 event_line nows evs) segs)"
    if "holds_segments p s segs" for segs s
    using that
  proof (induction evs arbitrary: s segs)
    case (Cons ev evs)
    obtain u now where u: "log_packet E ev s = Some (Inr (), u)" "max_bytes u = max_bytes s"
      "holds_segments p u (add_line (max_bytes s) (event_line now ev) segs)"
      by (rule log_packet_segments [OF assms(1,2) Cons.prems, of ev])
    from Cons.IH [OF u(3)] u obtain t nows where "forM evs (log_packet E) u = Some (Inr (), t)" "length nows = length evs"
      "max_bytes t = max_bytes s"
      "holds_segments p t (fold (add_line (max_bytes s)) (map2 event_line nows evs) (add_line (max_bytes s) (event_line now ev) segs))"
      by auto
    with u(1) show ?case by (intro exI [of _ t] exI [of _ "now # nows"]) (simp add: py_defs)
  qed (auto simp: py_defs)
  have bound: "length (concat (fst segs)) \<le> m \<and> length (concat (snd segs)) \<le> m"
    if "segs = fold (add_line m) lines start" "\<forall>l \<in> set lines. length l \<le> m"
      "length (concat (fst start)) \<le> m" "length (concat (snd start)) \<le> m" for m lines segs start
    using that by (induction lines arbitrary: start segs) (auto simp: add_line_def split: prod.splits)
  from run [OF assms(3)] obtain t nows where "forM evs (log_packet E) s = Some (Inr (), t)" "length nows = length evs"
    and seg: "holds_segments p t (fold (add_line (max_bytes s)) (map2 event_line nows evs) ([], []))" by blast
  with bound [OF refl, of "map2 event_line nows evs" "max_bytes s" "([], [])"] show ?thesis
    by (intro exI [of _ t] exI [of _ nows]) (simp add: Let_def holds_segments_def)
qed

section \<open>A failed copy\<close>

definition bench_log :: "(os_call \<Rightarrow> errno option) \<Rightarrow> real platform" where
  "bench_log fails = \<lparr>os_call_p = \<lambda>c d. (fails c, d), os_write_p = \<lambda>n d. (n, d), time_p = \<lambda>d. (d, d),
     monotonic_p = \<lambda>d. (d, d), sleep_p = \<lambda>t d. (False, d + t), random_p = \<lambda>d. (0, d), boot_id_p = ''boot'',
     lock_dir_p = \<lambda>_. None, cs_gpios_p = \<lambda>_. None, cs_gpios_size_p = \<lambda>_ _. None,
     spi_open_p = \<lambda>_ _ d. (True, d), no_cs_p = \<lambda>d. (Inr True, d), spi_xfer2_p = \<lambda>bs d. (Some (map word_of_int bs), d),
     line_set_p = \<lambda>p v d. (True, d), line_get_p = \<lambda>p d. (Some False, d),
     line_request_p = \<lambda>p d. (True, d), edge_wait_p = \<lambda>t d. (Some False, d + t)\<rparr>"

definition full_log :: "real rflog" where
  "full_log = \<lparr>dev = 0, rf_path = Some ''/rf'', files = [''/rf'' \<mapsto> ''recent'', ''/rf.1'' \<mapsto> ''older''],
     max_bytes = 10, raw = [], off = 0\<rparr>"

lemma bench_log_os [simp]: "os_call_p (bench_log fails) c d = (fails c, d)"
  by (simp add: bench_log_def)

lemma bench_copy_fails:
  "fails ReadLog = Some e \<Longrightarrow> loopM (copy_round (bench_log fails) p) s = Some (Inl (OSError e), s)"
  by (subst loopM.simps) (simp add: copy_round_def osM_def bench_log_def py_defs)

lemma bench_write_ends:
  assumes "fails WriteLog = None" "raw s = c # cs"
  shows "loopM (write_round (bench_log fails) p) s = Some (Inr (), (set_text p (text_of s p @ raw s) s)\<lparr>raw := []\<rparr>)"
  by (subst loopM.simps, simp add: write_round_def bench_log_def assms py_defs)
    (subst loopM.simps, simp add: write_round_def assms py_defs)

text \<open>
  A rollover whose copy fails keeps the live log and lets it grow past the limit, but the
  previous segment is gone: opening it for writing has emptied it before the first byte is read.
\<close>

theorem failed_copy_empties_previous:
  "\<exists>t. log_write (bench_log (\<lambda>c. if c = ReadLog then Some (EOther 5) else None)) ''/rf'' ''a line'' full_log = Some (Inr (), t) \<and>
     text_of t ''/rf'' = ''recenta line'' \<and> text_of full_log (previous ''/rf'') = ''older'' \<and> text_of t (previous ''/rf'') = []"
  by (simp add: log_write_def roll_def copy_to_previous_def on_OSError_def bench_copy_fails bench_write_ends osM_def
    full_log_def text_of_def set_text_def previous_def py_defs)

section \<open>Witnesses\<close>

lemma bench_log_calls: "reliable (bench_log (\<lambda>_. None))" "writes_end (bench_log fails) (\<lambda>_. 0) \<longleftrightarrow> fails WriteLog \<noteq> Some EINTR"
  by (auto simp: reliable_def writes_end_def bench_log_def)

definition empty_log :: "real rflog" where
  "empty_log = \<lparr>dev = 0, rf_path = Some ''/rf'', files = [''/rf'' \<mapsto> []], max_bytes = 200, raw = [], off = 0\<rparr>"


theorem log_text_roundtrip_witness:
  "read_log (event_line 1700000000 (RxEvent (-90) 7 [1, 255]) @ event_line 1700000001 (TxEvent ''ok'' [34, 10])) =
     [Some (''RX'', [1, 255]), Some (''TX'', [34, 10])]"
  using log_text_roundtrip [of "[(1700000000, RxEvent (-90) 7 [1, 255]), (1700000001, TxEvent ''ok'' [34, 10])]"]
  by simp

theorem log_refines_segments_witness:
  "\<exists>t nows. forM [RxEvent (-90) 7 [1, 2], TxEvent ''ok'' [3]] (log_packet (bench_log (\<lambda>_. None))) empty_log = Some (Inr (), t) \<and>
     holds_segments ''/rf'' t (fold (add_line 200) (map2 event_line nows [RxEvent (-90) 7 [1, 2], TxEvent ''ok'' [3]]) ([], []))"
proof -
  have s: "holds_segments ''/rf'' empty_log ([], [])"
    by (simp add: holds_segments_def empty_log_def text_of_def previous_def)
  have m: "max_bytes empty_log = 200" by (simp add: empty_log_def)
  have w: "writes_end (bench_log (\<lambda>_. None)) (\<lambda>_. 0)" by (simp add: bench_log_calls)
  show ?thesis
    using log_refines_segments [OF bench_log_calls(1) w s, of "[RxEvent (-90) 7 [1, 2], TxEvent ''ok'' [3]]"]
    unfolding m Let_def by blast
qed

end
