(* ===== verification/Ledger.thy ===== *)
theory Ledger
  imports Platform
begin

text \<open>
  The airtime ledger of \<open>loraham_rns/duty.py\<close> as data: the JSON values \<open>json.loads\<close> yields,
  the document \<open>_write\<close> persists, the validation of one entry, the window sums and the limit
  decision of \<open>reserve\<close>. The methods that read and write the files are in theory \<open>Duty\<close>.
\<close>

section \<open>JSON values\<close>

datatype json = JNull | JBool bool | JInt int | JFloat pyfloat | JStr string
  | JList "json list" | JObj "(string \<times> json) list"

text \<open>A key given twice keeps its last value.\<close>

definition jget :: "(string \<times> json) list \<Rightarrow> string \<Rightarrow> json option" where
  "jget kvs k = map_of (rev kvs) k"

text \<open>\<open>float(v)\<close> of a JSON value.\<close>

fun json_float :: "json \<Rightarrow> exn + pyfloat" where
  "json_float (JBool b) = Inr (Fin (if b then 1 else 0))"
| "json_float (JInt i) = float_of_int i"
| "json_float (JFloat x) = Inr x"
| "json_float (JStr s) = (case py_float_str s of None \<Rightarrow> Inl (ValueError ''float'') | Some x \<Rightarrow> Inr x)"
| "json_float _ = Inl TypeError"

text \<open>\<open>v == 1\<close>: true also of \<open>1.0\<close> and of \<open>True\<close>.\<close>

fun json_is_one :: "json \<Rightarrow> bool" where
  "json_is_one (JInt i) = (i = 1)"
| "json_is_one (JFloat x) = (x = Fin 1)"
| "json_is_one (JBool b) = b"
| "json_is_one _ = False"

section \<open>The ledger document\<close>

definition LOCK_TIMEOUT_S :: real where "LOCK_TIMEOUT_S = 2"
definition CLOCK_SKEW_S :: real where "CLOCK_SKEW_S = 60"

type_synonym entry = "real \<times> real"

definition entry_json :: "entry \<Rightarrow> json" where
  "entry_json e = JList [JFloat (Fin (fst e)), JFloat (Fin (snd e))]"

definition clock_json :: "string \<Rightarrow> real \<Rightarrow> real \<Rightarrow> (string \<times> json) list" where
  "clock_json boot mtime wtime =
     [(''boot'', JStr boot), (''monotonic'', JFloat (Fin mtime)), (''wall'', JFloat (Fin wtime))]"

text \<open>The document of \<open>_write\<close>.\<close>

definition ledger_doc :: "string \<Rightarrow> real \<Rightarrow> real \<Rightarrow> entry list \<Rightarrow> json" where
  "ledger_doc boot mtime wtime entries = JObj
     [(''version'', JInt 1), (''initialised'', JBool True),
      (''clock'', JObj (clock_json boot mtime wtime)), (''entries'', JList (map entry_json entries))]"

fun json_number :: "json \<Rightarrow> bool" where
  "json_number (JInt _) = True"
| "json_number (JFloat _) = True"
| "json_number _ = False"

definition plausible :: "pyfloat \<Rightarrow> pyfloat \<Rightarrow> exn + entry" where
  "plausible t a = (case (t, a) of
       (Fin t', Fin a') \<Rightarrow> if a' \<le> 0 then Inl (ValueError ''implausible entry'') else Inr (t', a')
     | _ \<Rightarrow> Inl (ValueError ''implausible entry''))"

text \<open>One entry of the list, up to the test of its time stamp against the clock.\<close>

definition parse_entry :: "json \<Rightarrow> exn + entry" where
  "parse_entry item = (case item of
       JList [x, y] \<Rightarrow>
         (if \<not> (json_number x \<and> json_number y) then Inl (ValueError ''entry is not numeric'')
          else bindE (json_float x) (\<lambda>t. bindE (json_float y) (\<lambda>a.
            plausible t a)))
     | _ \<Rightarrow> Inl (ValueError ''entry is not a pair''))"

text \<open>The checks on the document before its entries are looked at.\<close>

definition raw_entries :: "bool \<Rightarrow> json \<Rightarrow> exn + json list" where
  "raw_entries first_use data = (case data of
       JObj kvs \<Rightarrow>
         (if \<not> (case jget kvs ''version'' of None \<Rightarrow> False | Some v \<Rightarrow> json_is_one v)
          then Inl (ValueError ''unsupported ledger version'')
          else (case jget kvs ''entries'' of
             None \<Rightarrow> Inl KeyError
           | Some (JList items) \<Rightarrow>
               if items = [] \<and> \<not> (first_use \<or> jget kvs ''initialised'' = Some (JBool True))
               then Inl (ValueError ''initialised ledger has no entries'') else Inr items
           | Some _ \<Rightarrow> Inl (ValueError ''entries is not a list'')))
     | _ \<Rightarrow> Inl (ValueError ''unsupported ledger version''))"

definition doc_clock :: "json \<Rightarrow> json" where
  "doc_clock data = (case data of
       JObj kvs \<Rightarrow> (case jget kvs ''clock'' of None \<Rightarrow> JNull | Some c \<Rightarrow> c) | _ \<Rightarrow> JNull)"

section \<open>Accounting\<close>

record duty_cfg =
  short_window :: real
  short_limit :: real
  long_window :: real
  long_limit :: real

text \<open>The windows of \<open>DutyAccount.__init__\<close>; the interface passes the limits only.\<close>

definition duty_account :: "real \<Rightarrow> real \<Rightarrow> duty_cfg" where
  "duty_account short long = \<lparr>short_window = 15, short_limit = short, long_window = 3600, long_limit = long\<rparr>"

definition used :: "entry list \<Rightarrow> real \<Rightarrow> real \<Rightarrow> real" where
  "used entries window now = sum_list (map snd (filter (\<lambda>e. fst e > now - window) entries))"

definition prune :: "duty_cfg \<Rightarrow> real \<Rightarrow> entry list \<Rightarrow> entry list" where
  "prune cfg now entries = filter (\<lambda>e. fst e > now - long_window cfg) entries"

text \<open>The limit decision: \<open>None\<close> grants, \<open>Some why\<close> refuses.\<close>

definition verdict :: "duty_cfg \<Rightarrow> entry list \<Rightarrow> real \<Rightarrow> real \<Rightarrow> string option" where
  "verdict cfg entries now airtime =
     (let short_pct = (used entries (short_window cfg) now + airtime) / short_window cfg * 100;
          long_pct = (used entries (long_window cfg) now + airtime) / long_window cfg * 100;
          window_used = used entries (short_window cfg) now
      in if window_used > 0 \<and> short_pct > short_limit cfg then Some ''short-term airtime''
         else if long_pct > long_limit cfg then Some ''long-term airtime''
         else None)"

definition shift_entries :: "real \<Rightarrow> entry list \<Rightarrow> entry list" where
  "shift_entries step entries = map (\<lambda>(t, a). (t + step, a)) entries"

definition positive :: "entry list \<Rightarrow> bool" where
  "positive entries = list_all (\<lambda>e. 0 < snd e) entries"

section \<open>Lemmas\<close>

lemma jget_ledger_doc [simp]:
  "raw_entries fu (ledger_doc b m w es) = Inr (map entry_json es)"
  "doc_clock (ledger_doc b m w es) = JObj (clock_json b m w)"
  by (simp_all add: raw_entries_def ledger_doc_def doc_clock_def jget_def)

lemma clock_json_get [simp]:
  "jget (clock_json b m w) ''boot'' = Some (JStr b)"
  "jget (clock_json b m w) ''monotonic'' = Some (JFloat (Fin m))"
  "jget (clock_json b m w) ''wall'' = Some (JFloat (Fin w))"
  by (simp_all add: clock_json_def jget_def)

lemma parse_entry_json [simp]: "0 < snd e \<Longrightarrow> parse_entry (entry_json e) = Inr e"
  by (simp add: parse_entry_def entry_json_def plausible_def)

lemma plausible_positive: "plausible t a = Inr e \<Longrightarrow> 0 < snd e"
  by (cases t; cases a) (auto simp: plausible_def split: if_splits)

lemma parse_entry_positive: "parse_entry j = Inr e \<Longrightarrow> 0 < snd e"
  by (auto simp: parse_entry_def bindE_Inr_iff dest: plausible_positive split: json.splits list.splits if_splits)

lemma positive_simps [simp]:
  "positive []" "positive (e # es) \<longleftrightarrow> 0 < snd e \<and> positive es"
  "positive (es @ fs) \<longleftrightarrow> positive es \<and> positive fs"
  by (simp_all add: positive_def)

lemma positive_prune: "positive es \<Longrightarrow> positive (prune cfg now es)"
  by (auto simp: positive_def prune_def list_all_iff)

lemma positive_shift [simp]: "positive (shift_entries d es) = positive es"
  by (auto simp: positive_def shift_entries_def list_all_iff)

lemma used_nonneg: "positive es \<Longrightarrow> 0 \<le> used es w now"
  unfolding used_def positive_def by (rule sum_list_nonneg) (auto simp: list_all_iff less_imp_le)

lemma used_append [simp]: "used (es @ fs) w now = used es w now + used fs w now"
  by (simp add: used_def)

lemma used_simps [simp]:
  "used [] w now = 0"
  "used (e # es) w now = (if fst e > now - w then snd e else 0) + used es w now"
  by (simp_all add: used_def)

lemma used_prune:
  assumes "w \<le> long_window cfg"
  shows "used (prune cfg now es) w now = used es w now"
proof -
  have "filter (\<lambda>e. fst e > now - w) (prune cfg now es) = filter (\<lambda>e. fst e > now - w) es"
    unfolding prune_def filter_filter using assms by (intro filter_cong) auto
  then show ?thesis by (simp add: used_def)
qed

lemma used_shift: "used (shift_entries d es) w (now + d) = used es w now"
  by (induction es) (auto simp: shift_entries_def)

text \<open>Later, fewer entries are in the window; more room never refuses.\<close>

lemma used_antimono: "positive es \<Longrightarrow> now \<le> now' \<Longrightarrow> used es w now' \<le> used es w now"
  by (induction es) (auto simp: add_mono)

lemma verdict_grant_long:
  assumes "verdict cfg es now a = None" and "0 < long_window cfg"
  shows "used es (long_window cfg) now + a \<le> long_limit cfg / 100 * long_window cfg"
proof -
  from assms have "(used es (long_window cfg) now + a) / long_window cfg * 100 \<le> long_limit cfg"
    by (auto simp: verdict_def Let_def split: if_splits)
  with assms(2) show ?thesis by (simp add: field_simps)
qed

lemma verdict_cases:
  "verdict cfg es now a = None \<or> verdict cfg es now a = Some ''short-term airtime'' \<or>
   verdict cfg es now a = Some ''long-term airtime''"
  by (simp add: verdict_def Let_def)

section \<open>The sliding-window account\<close>

text \<open>
  What the interface relies on of an airtime account: it answers a request for airtime
  \<open>a\<close> at time \<open>now\<close> from the entries it holds, forgets none that is still inside the
  window, adds exactly the granted one, and grants only while the window sum stays within
  \<open>budget\<close>. From these laws alone, over any run of requests with a clock that does not go
  back, the airtime granted inside every window of that length is within the budget.
\<close>

locale airtime_account =
  fixes request :: "'s \<Rightarrow> real \<Rightarrow> real \<Rightarrow> bool \<times> 's"
    and held_entries :: "'s \<Rightarrow> entry list"
    and window :: real
    and budget :: real
  assumes grant_room: "request s now a = (True, s') \<Longrightarrow> used (held_entries s) window now + a \<le> budget"
    and request_used: "request s now a = (ok, s') \<Longrightarrow> now \<le> t \<Longrightarrow> used (held_entries s') window t
      = used (held_entries s) window t + used (if ok then [(now, a)] else []) window t"
    and request_positive: "request s now a = (ok, s') \<Longrightarrow> positive (held_entries s) \<Longrightarrow> 0 < a \<Longrightarrow>
      positive (held_entries s')"
begin

primrec run_requests :: "'s \<Rightarrow> (real \<times> real) list \<Rightarrow> entry list \<times> 's" where
  "run_requests s [] = ([], s)"
| "run_requests s (q # qs) = (case request s (fst q) (snd q) of (ok, s1) \<Rightarrow>
     case run_requests s1 qs of (gs, s2) \<Rightarrow> ((if ok then [q] else []) @ gs, s2))"

lemma run_subset: "run_requests s qs = (gs, s') \<Longrightarrow> set gs \<subseteq> set qs"
  by (induction qs arbitrary: s gs) (fastforce split: prod.splits if_splits)+

lemma request_room:
  assumes rq: "request s now a = (ok, s')" and pos: "positive (held_entries s)" and a: "0 < a"
    and t: "now \<le> t" and room: "used (held_entries s) window t \<le> budget"
  shows "used (held_entries s') window t \<le> budget"
proof (cases ok)
  case True
  have "used (held_entries s') window t \<le> used (held_entries s) window t + a"
    using request_used [OF rq t] a True by simp
  also have "\<dots> \<le> used (held_entries s) window now + a"
    using used_antimono [OF pos t] by simp
  also have "\<dots> \<le> budget" using grant_room [of s now a s'] True rq by simp
  finally show ?thesis .
next
  case False
  with request_used [OF rq t] room show ?thesis by simp
qed

text \<open>The granted airtime of a run, on top of the entries held before it, stays in budget.\<close>

lemma run_window:
  assumes "sorted (map fst qs)" "list_all (\<lambda>q. start \<le> fst q) qs" "list_all (\<lambda>q. 0 < snd q) qs"
    and "positive (held_entries s)" "run_requests s qs = (gs, s')"
    and "\<And>t. start \<le> t \<Longrightarrow> used (held_entries s) window t \<le> budget"
    and "start \<le> t" "list_all (\<lambda>g. fst g \<le> t) gs"
  shows "used (held_entries s) window t + used gs window t \<le> budget"
  using assms
proof (induction qs arbitrary: s gs start)
  case Nil
  then show ?case by simp
next
  case (Cons q qs)
  obtain now a where q: "q = (now, a)" by fastforce
  obtain ok s1 where rq: "request s now a = (ok, s1)" by fastforce
  obtain gs1 s2 where rs: "run_requests s1 qs = (gs1, s2)" by fastforce
  have gs: "gs = (if ok then [(now, a)] else []) @ gs1" "s' = s2"
    using Cons.prems(5) by (simp_all add: q rq rs)
  have le: "start \<le> now" and a: "0 < a" using Cons.prems(2,3) q by auto
  show ?case
  proof (cases "now \<le> t")
    case True
    have "used (held_entries s1) window t + used gs1 window t \<le> budget"
    proof (rule Cons.IH [where start = now])
      show "list_all (\<lambda>q. now \<le> fst q) qs" using Cons.prems(1) q by (auto simp: list_all_iff)
      show "positive (held_entries s1)" using request_positive [OF rq Cons.prems(4) a] .
      show "used (held_entries s1) window u \<le> budget" if "now \<le> u" for u
        using request_room [OF rq Cons.prems(4) a that] Cons.prems(6) [of u] le that by simp
    qed (use Cons.prems gs rs q True in \<open>simp_all add: list_all_iff\<close>)
    with request_used [OF rq True] gs show ?thesis by simp
  next
    case False
    have "\<forall>g \<in> set gs1. now \<le> fst g \<and> fst g \<le> t"
      using run_subset [OF rs] Cons.prems(1,8) q gs by (auto simp: list_all_iff)
    with False have "gs1 = []" by (cases gs1) auto
    with False gs Cons.prems(6-8) show ?thesis by (auto split: if_splits)
  qed
qed

end

text \<open>What \<open>reserve\<close> decides and persists, as a function of the entries it reads.\<close>

definition account_request :: "duty_cfg \<Rightarrow> entry list \<Rightarrow> real \<Rightarrow> real \<Rightarrow> bool \<times> entry list" where
  "account_request cfg es now a = (case verdict cfg (prune cfg now es) now a of
       None \<Rightarrow> (True, prune cfg now es @ [(now, a)])
     | Some _ \<Rightarrow> (False, es))"

definition account_budget :: "duty_cfg \<Rightarrow> real" where
  "account_budget cfg = long_limit cfg / 100 * long_window cfg"

lemma used_prune_later:
  assumes "now \<le> t"
  shows "used (prune cfg now es) (long_window cfg) t = used es (long_window cfg) t"
  using assms by (induction es) (auto simp: prune_def)

interpretation ledger: airtime_account "account_request (duty_account short long)" "\<lambda>es. es"
  3600 "account_budget (duty_account short long)" for short long
proof
  let ?c = "duty_account short long"
  have w: "long_window ?c = 3600" by (simp add: duty_account_def)
  show "used s 3600 now + a \<le> account_budget ?c" if "account_request ?c s now a = (True, s')" for s now a s'
    using that verdict_grant_long [of ?c "prune ?c now s" now a] used_prune_later [of now now ?c s]
    by (auto simp: account_request_def account_budget_def w split: option.splits)
  show "used s' 3600 t = used s 3600 t + used (if ok then [(now, a)] else []) 3600 t"
    if "account_request ?c s now a = (ok, s')" "now \<le> t" for s now a ok s' t
    using that used_prune_later [of now t ?c s]
    by (auto simp: account_request_def w split: option.splits)
  show "positive s'" if "account_request ?c s now a = (ok, s')" "positive s" "0 < a" for s now a ok s'
    using that by (auto simp: account_request_def positive_prune split: option.splits)
qed

text \<open>A run of requests \<open>(now, airtime)\<close> on one account: the granted ones and the entries left.\<close>

primrec run_account :: "duty_cfg \<Rightarrow> entry list \<Rightarrow> (real \<times> real) list \<Rightarrow> entry list \<times> entry list" where
  "run_account cfg es [] = ([], es)"
| "run_account cfg es (q # qs) = (case account_request cfg es (fst q) (snd q) of (ok, es1) \<Rightarrow>
     case run_account cfg es1 qs of (gs, es2) \<Rightarrow> ((if ok then [q] else []) @ gs, es2))"

lemma run_account_requests:
  "run_account (duty_account short long) es qs = ledger.run_requests short long es qs"
  by (induction qs arbitrary: es) (simp_all add: ledger.run_requests.simps split: prod.split)

text \<open>C2. The legal limit as a sliding window: over any sequence of requests with a clock that does not
  go back, granted or refused in any pattern, the airtime granted within any hour ending at \<open>t\<close>
  after the last grant, together with what the ledger held before, is within the hourly budget.
\<close>

theorem granted_airtime_sliding_window:
  assumes "run_account (duty_account short long) es qs = (gs, es')"
    and "sorted (map fst qs)" "list_all (\<lambda>q. start \<le> fst q) qs" "list_all (\<lambda>q. 0 < snd q) qs"
    and "positive es" "used es 3600 start \<le> long / 100 * 3600"
    and "start \<le> t" "list_all (\<lambda>g. fst g \<le> t) gs"
  shows "used es 3600 t + used gs 3600 t \<le> long / 100 * 3600"
proof -
  have "used es 3600 u \<le> account_budget (duty_account short long)" if "start \<le> u" for u
    using used_antimono [OF assms(5) that, of 3600] assms(6) by (simp add: account_budget_def duty_account_def)
  from ledger.run_window [OF assms(2-5) assms(1) [unfolded run_account_requests] this assms(7,8)]
  show ?thesis by (simp add: account_budget_def duty_account_def)
qed

theorem granted_airtime_sliding_window_witness:
  "run_account (duty_account 5 1) [] [(10, 30), (100, 5), (200, 2)] = ([(10, 30), (100, 5)], [(10, 30), (100, 5)]) \<and>
   used [(10, 30), (100, 5)] 3600 200 \<le> 1 / 100 * 3600"
proof -
  have run: "run_account (duty_account 5 1) [] [(10, 30), (100, 5), (200, 2)] = ([(10, 30), (100, 5)], [(10, 30), (100, 5)])"
    by (simp add: account_request_def verdict_def prune_def duty_account_def Let_def)
  then show ?thesis
    using granted_airtime_sliding_window [OF run, of 0 200] by simp
qed

end
