(* ===== verification/Policy.thy ===== *)
theory Policy
  imports Profiles Framing Radio Rflog Ledger
begin

text \<open>
  The operating policy of \<open>loraham_rns/interface.py\<close>: the permitted segments, the duty ceiling of
  a channel, and the part of \<open>LoRaSPIInterface.__init__\<close> that reads the configuration
  section. A section maps keys to values; reading it is a pure computation that raises what
  the constructor raises, in its order.
\<close>

section \<open>Bands\<close>

text \<open>Per band: lowest and highest frequency in Hz, highest power in dBm.\<close>

definition BAND_POLICY :: "string \<rightharpoonup> int \<times> int \<times> int" where
  "BAND_POLICY = map_of [(''433'', 433050000, 434790000, 10), (''868'', 863000000, 870000000, 14)]"

type_synonym segment = "(int \<times> int) \<times> real"

definition PERMITTED_SEGMENTS :: "string \<rightharpoonup> segment list" where
  "PERMITTED_SEGMENTS = map_of
     [(''433'', [((433050000, 434790000), 10)]),
      (''868'', [((863000000, 865000000), 0.1), ((865000000, 868600000), 1), ((868700000, 869200000), 0.1),
                ((869400000, 869650000), 10), ((869700000, 870000000), 1)])]"

definition segments :: "string \<Rightarrow> segment list" where
  "segments band = (case PERMITTED_SEGMENTS band of None \<Rightarrow> [] | Some l \<Rightarrow> l)"

definition duty_ceiling :: "string \<Rightarrow> int \<Rightarrow> int \<Rightarrow> exn + real option" where
  "duty_ceiling band frequency bandwidth =
     bindE (float_of_int bandwidth) (\<lambda>_. bindE (float_of_int frequency) (\<lambda>_.
       let half = real_of_int bandwidth / 2; low = real_of_int frequency - half; high = real_of_int frequency + half
       in Inr (map_option snd (find (\<lambda>((lo, hi), pct). real_of_int lo \<le> low \<and> high \<le> real_of_int hi) (segments band)))))"

section \<open>The configuration section\<close>

definition DEFAULT_IFAC_SIZE :: nat where "DEFAULT_IFAC_SIZE = 8"

text \<open>The attributes that \<open>__init__\<close> sets from the section.\<close>

record settings =
  st_band :: string
  st_profile :: profile
  st_netname :: string
  st_modem :: modem
  rnode_framing :: bool
  max_packet :: nat
  HW_MTU :: nat
  st_duty :: duty_cfg
  state_dir :: string

text \<open>\<open>str(c.get(key, "") or "").strip()\<close>\<close>

definition text_value :: "pydict \<Rightarrow> string \<Rightarrow> string" where
  "text_value c key = (let v = dict_get c key (PStr []) in strip (if truthy v then py_str v else []))"

definition resolve_value :: "pyval \<Rightarrow> string \<Rightarrow> exn + profile" where
  "resolve_value v band = (case v of PStr setup \<Rightarrow> resolve setup band | _ \<Rightarrow> Inl (ProfileError ''unknown hardware setup''))"

definition int_value :: "pydict \<Rightarrow> string \<Rightarrow> int \<Rightarrow> exn + int" where
  "int_value c key d = py_int (dict_get c key (PInt d))"

text \<open>One round of the loop over the two airtime limits.\<close>

definition check_limit :: "pydict \<Rightarrow> string \<Rightarrow> real \<Rightarrow> exn + unit" where
  "check_limit c name limit = (case py_float (dict_get c name (PInt 0)) of
       Inl e \<Rightarrow> Inl (if e = TypeError \<or> is_ValueError e then ValueError ''airtime limit must be a number'' else e)
     | Inr value \<Rightarrow> if \<not> (Fin 0 < value \<and> value \<le> Fin limit) then Inl (ValueError ''airtime limit out of range'') else Inr ())"

text \<open>The account is opened with the limits just checked, so they are finite.\<close>

fun finite_value :: "pyfloat \<Rightarrow> real" where
  "finite_value (Fin r) = r"
| "finite_value _ = 0"

definition read_account :: "pydict \<Rightarrow> exn + duty_cfg" where
  "read_account c =
     bindE (py_float (dict_get c ''airtime_limit_short'' (PFloat (Fin 5) ''5.0''))) (\<lambda>short.
     bindE (py_float (dict_get c ''airtime_limit_long'' (PFloat (Fin 1) ''1.0''))) (\<lambda>long.
       Inr (duty_account (finite_value short) (finite_value long))))"

definition read_state_dir :: "pydict \<Rightarrow> exn + string" where
  "read_state_dir c = (let v = dict_get c ''state_dir'' PNone in
     if \<not> truthy v then Inr ''.'' else case v of PStr d \<Rightarrow> Inr d | _ \<Rightarrow> Inl TypeError)"

text \<open>The default preamble is computed before the key is looked up, so it may raise even when the key is set.\<close>

definition read_preamble :: "pydict \<Rightarrow> bool \<Rightarrow> int \<Rightarrow> int \<Rightarrow> int \<Rightarrow> exn + int" where
  "read_preamble c framing sf bw cr =
     bindE (if framing then rnode_preamble sf bw cr else Inr 8) (\<lambda>d. int_value c ''preamble'' d)"

text \<open>Lines 127 to 172: power, limits, sync word, framing, preamble, MTU and account.\<close>

definition read_limits :: "pydict \<Rightarrow> string \<Rightarrow> profile \<Rightarrow> string \<Rightarrow> modem \<Rightarrow> int \<Rightarrow> real \<Rightarrow> exn + settings" where
  "read_limits c band p netname m power_cap pct =
     (if m_txpower m > power_cap then Inl (ValueError ''TX power exceeds the ceiling'')
      else bindE (check_limit c ''airtime_limit_short'' 100) (\<lambda>_.
       bindE (check_limit c ''airtime_limit_long'' pct) (\<lambda>_.
       bindE (case py_int_str (py_str (dict_get c ''syncword'' (PStr ''0x12''))) 0 of
                None \<Rightarrow> Inl (ValueError ''int'') | Some v \<Rightarrow> Inr v) (\<lambda>syncword.
       bindE (parse_switch (dict_get c ''rnode_framing'' (PStr ''no''))) (\<lambda>framing.
       bindE (read_preamble c framing (m_sf m) (m_bandwidth m) (m_cr m)) (\<lambda>preamble.
       let packet = (if framing then FRAMED_MTU else MAX_PAYLOAD) in
       bindE (read_state_dir c) (\<lambda>dir.
       bindE (read_account c) (\<lambda>account.
         Inr \<lparr>st_band = band, st_profile = p, st_netname = netname,
           st_modem = m\<lparr>m_syncword := syncword, m_preamble := preamble\<rparr>, rnode_framing = framing,
           max_packet = packet, HW_MTU = packet - (if netname \<noteq> [] then DEFAULT_IFAC_SIZE else 0),
           st_duty = account, state_dir = dir\<rparr>))))))))"

definition read_settings :: "pydict \<Rightarrow> exn + settings" where
  "read_settings c =
     bindE (dict_item c ''name'') (\<lambda>_.
     bindE (dict_item c ''band'') (\<lambda>b. let band = py_str b in
     bindE (dict_item c ''hardware'') (\<lambda>h.
     bindE (resolve_value h band) (\<lambda>p.
       let netname = text_value c ''networkname''; passphrase = text_value c ''passphrase'' in
       if (netname \<noteq> []) \<noteq> (passphrase \<noteq> []) then Inl (ValueError ''IFAC is half configured'')
       else bindE (bindE (dict_item c ''frequency'') py_int) (\<lambda>frequency.
         bindE (int_value c ''bandwidth'' 125000) (\<lambda>bandwidth.
         bindE (int_value c ''spreadingfactor'' 8) (\<lambda>sf.
         bindE (int_value c ''codingrate'' 5) (\<lambda>cr.
         bindE (int_value c ''txpower'' 14) (\<lambda>txpower.
         case BAND_POLICY band of None \<Rightarrow> Inl KeyError
         | Some (_, _, power_cap) \<Rightarrow>
           bindE (duty_ceiling band frequency bandwidth) (\<lambda>permitted. case permitted of
               None \<Rightarrow> Inl (ValueError ''not inside a permitted segment'')
             | Some pct \<Rightarrow> read_limits c band p netname
                 \<lparr>m_frequency = frequency, m_bandwidth = bandwidth, m_sf = sf, m_cr = cr, m_txpower = txpower,
                  m_syncword = 0, m_preamble = 0\<rparr> power_cap pct))))))))))"

section \<open>What an accepted configuration guarantees\<close>

lemma find_SomeD: "find P xs = Some x \<Longrightarrow> x \<in> set xs \<and> P x"
  by (induction xs) (auto split: if_splits)

lemma duty_ceiling_Some:
  assumes "duty_ceiling band f bw = Inr (Some pct)"
  obtains lo hi where "((lo, hi), pct) \<in> set (segments band)" "real_of_int lo \<le> of_int f - of_int bw / 2"
    "of_int f + of_int bw / 2 \<le> real_of_int hi"
proof -
  from assms obtain x where "find (\<lambda>((lo, hi), pct). real_of_int lo \<le> of_int f - of_int bw / 2 \<and>
      of_int f + of_int bw / 2 \<le> real_of_int hi) (segments band) = Some x" "snd x = pct"
    by (auto simp: duty_ceiling_def Let_def bindE_Inr_iff)
  with that show ?thesis by (cases x) (auto dest!: find_SomeD)
qed

text \<open>The ranges without a generic allocation inside the 868 MHz band, in Hz.\<close>

definition alarm_gaps :: "(int \<times> int) list" where
  "alarm_gaps = [(868600000, 868700000), (869200000, 869400000), (869650000, 869700000)]"

lemma segments_cases:
  assumes "((lo, hi), pct) \<in> set (segments band)"
  shows "(band = ''433'' \<and> (lo, hi, pct) = (433050000, 434790000, 10)) \<or>
    (band = ''868'' \<and> (lo, hi, pct) \<in> {(863000000, 865000000, 0.1), (865000000, 868600000, 1),
       (868700000, 869200000, 0.1), (869400000, 869650000, 10), (869700000, 870000000, 1)})"
  using assms by (auto simp: segments_def PERMITTED_SEGMENTS_def split: if_splits option.splits)

text \<open>
  C19. The ceiling of a channel is exact: a percentage is returned for exactly the channels whose
  whole occupied bandwidth lies inside one permitted segment of the band, it is that
  segment's, and then the channel stays inside the band and touches no range reserved for alarm
  systems.
\<close>

theorem duty_ceiling_exact:
  assumes "0 < bw" "bw \<le> 1000000" "0 < f" "f \<le> 10000000000"
  shows "(duty_ceiling band f bw = Inr (Some pct) \<longleftrightarrow> (\<exists>lo hi. ((lo, hi), pct) \<in> set (segments band) \<and>
      2 * lo \<le> 2 * f - bw \<and> 2 * f + bw \<le> 2 * hi)) \<and>
    (duty_ceiling band f bw = Inr (Some pct) \<longrightarrow>
      (\<exists>lo hi cap. BAND_POLICY band = Some (lo, hi, cap) \<and> 2 * lo \<le> 2 * f - bw \<and> 2 * f + bw \<le> 2 * hi) \<and>
      (\<forall>(lo, hi) \<in> set alarm_gaps. 2 * f + bw \<le> 2 * lo \<or> 2 * hi \<le> 2 * f - bw))"
proof -
  let ?fits = "\<lambda>lo hi. 2 * lo \<le> 2 * f - bw \<and> 2 * f + bw \<le> 2 * hi"
  have fits: "real_of_int lo \<le> of_int f - of_int bw / 2 \<and> of_int f + of_int bw / 2 \<le> real_of_int hi \<longleftrightarrow> ?fits lo hi" for lo hi
  proof -
    have "real_of_int lo \<le> of_int f - of_int bw / 2 \<longleftrightarrow> real_of_int (2 * lo) \<le> real_of_int (2 * f - bw)" by auto
    moreover have "of_int f + of_int bw / 2 \<le> real_of_int hi \<longleftrightarrow> real_of_int (2 * f + bw) \<le> real_of_int (2 * hi)" by auto
    ultimately show ?thesis by (simp only: of_int_le_iff)
  qed
  have small: "float_of_int bw = Inr (Fin (of_int bw))" "float_of_int f = Inr (Fin (of_int f))"
    using assms by (intro float_of_int_small; simp)+
  have only: "pct' = pct" if "((lo, hi), pct) \<in> set (segments band)" "?fits lo hi"
    "((lo', hi'), pct') \<in> set (segments band)" "?fits lo' hi'" for lo hi lo' hi' pct'
    using segments_cases [OF that(1)] segments_cases [OF that(3)] that(2,4) assms(1) by auto
  have to: "duty_ceiling band f bw = Inr (Some pct)" if seg: "((lo, hi), pct) \<in> set (segments band)" "?fits lo hi" for lo hi
  proof -
    let ?P = "\<lambda>((lo, hi), pct :: real). real_of_int lo \<le> of_int f - of_int bw / 2 \<and> of_int f + of_int bw / 2 \<le> real_of_int hi"
    have "find ?P (segments band) \<noteq> None" unfolding find_None_iff using that fits by force
    then obtain x where x: "find ?P (segments band) = Some x" by blast
    obtain lo' hi' pct' where "x = ((lo', hi'), pct')" by (metis prod.exhaust)
    with find_SomeD [OF x] fits have "((lo', hi'), pct') \<in> set (segments band)" "?fits lo' hi'" "snd x = pct'" by auto
    with only [OF that] x show ?thesis by (simp add: duty_ceiling_def small Let_def)
  qed
  have fro: "\<exists>lo hi. ((lo, hi), pct) \<in> set (segments band) \<and> ?fits lo hi" if "duty_ceiling band f bw = Inr (Some pct)"
    using duty_ceiling_Some [OF that] fits by metis
  have safe: "(\<exists>lo hi cap. BAND_POLICY band = Some (lo, hi, cap) \<and> ?fits lo hi) \<and>
      (\<forall>(lo, hi) \<in> set alarm_gaps. 2 * f + bw \<le> 2 * lo \<or> 2 * hi \<le> 2 * f - bw)"
    if "((lo, hi), pct) \<in> set (segments band)" "?fits lo hi" for lo hi
    using segments_cases [OF that(1)] that(2) by (auto simp: BAND_POLICY_def alarm_gaps_def)
  show ?thesis using to fro safe by blast
qed


lemma check_limit_ok: "check_limit c name l = Inr () \<Longrightarrow>
    \<exists>r. py_float (dict_get c name (PInt 0)) = Inr (Fin r) \<and> 0 < r \<and> r \<le> l"
  using pyfloat_between_finite [of 0 _ l] by (auto simp: check_limit_def split: sum.splits if_splits)

text \<open>A limit that was checked is the one the account is opened with: the key is in the section.\<close>

lemma check_limit_present:
  assumes "check_limit c name l = Inr ()"
  shows "dict_get c name d = dict_get c name (PInt 0)"
proof -
  have "float_of_int 0 = Inr (Fin 0)" using float_of_int_small [of 0] by simp
  then show ?thesis using check_limit_ok [OF assms] by (cases "c name") (auto simp: dict_get_def)
qed

lemma read_account_checked:
  assumes "check_limit c ''airtime_limit_short'' l1 = Inr ()" "check_limit c ''airtime_limit_long'' l2 = Inr ()"
  obtains short long where "read_account c = Inr (duty_account short long)" "0 < short" "short \<le> l1" "0 < long" "long \<le> l2"
proof -
  from check_limit_ok [OF assms(1)] check_limit_ok [OF assms(2)] obtain short long where
    f: "py_float (dict_get c ''airtime_limit_short'' (PInt 0)) = Inr (Fin short)" "0 < short" "short \<le> l1"
      "py_float (dict_get c ''airtime_limit_long'' (PInt 0)) = Inr (Fin long)" "0 < long" "long \<le> l2" by blast
  then have "read_account c = Inr (duty_account short long)"
    unfolding read_account_def check_limit_present [OF assms(1), of "PFloat (Fin 5) ''5.0''"]
      check_limit_present [OF assms(2), of "PFloat (Fin 1) ''1.0''"] by simp
  with f that show ?thesis by blast
qed

text \<open>The settings a running interface may have.\<close>

definition lawful :: "settings \<Rightarrow> bool" where
  "lawful st \<longleftrightarrow> (\<exists>lo hi pct short long cap.
     ((lo, hi), pct) \<in> set (segments (st_band st)) \<and>
     real_of_int lo \<le> of_int (m_frequency (st_modem st)) - of_int (m_bandwidth (st_modem st)) / 2 \<and>
     of_int (m_frequency (st_modem st)) + of_int (m_bandwidth (st_modem st)) / 2 \<le> real_of_int hi \<and>
     st_duty st = duty_account short long \<and> 0 < short \<and> short \<le> 100 \<and> 0 < long \<and> long \<le> pct \<and>
     BAND_POLICY (st_band st) = Some cap \<and> m_txpower (st_modem st) \<le> snd (snd cap)) \<and>
   wiring_ok (st_band st) (st_profile st) \<and>
   max_packet st = (if rnode_framing st then FRAMED_MTU else MAX_PAYLOAD) \<and>
   HW_MTU st + (if st_netname st \<noteq> [] then DEFAULT_IFAC_SIZE else 0) = max_packet st"

lemma read_limits_lawful:
  assumes "read_limits c band p netname m cap pct = Inr st"
  obtains short long sw pre framing dir where
    "st = \<lparr>st_band = band, st_profile = p, st_netname = netname, st_modem = m\<lparr>m_syncword := sw, m_preamble := pre\<rparr>,
       rnode_framing = framing, max_packet = (if framing then FRAMED_MTU else MAX_PAYLOAD),
       HW_MTU = (if framing then FRAMED_MTU else MAX_PAYLOAD) - (if netname \<noteq> [] then DEFAULT_IFAC_SIZE else 0),
       st_duty = duty_account short long, state_dir = dir\<rparr>"
    "m_txpower m \<le> cap" "0 < short" "short \<le> 100" "0 < long" "long \<le> pct"
proof -
  from assms have checks: "check_limit c ''airtime_limit_short'' 100 = Inr ()" "check_limit c ''airtime_limit_long'' pct = Inr ()"
    and power: "m_txpower m \<le> cap"
    by (auto simp: read_limits_def bindE_Inr_iff split: if_splits)
  obtain short long where acc: "read_account c = Inr (duty_account short long)" "0 < short" "short \<le> 100" "0 < long" "long \<le> pct"
    by (rule read_account_checked [OF checks])
  with assms power that show ?thesis
    unfolding read_limits_def by (auto simp: bindE_Inr_iff Let_def)
qed

lemma read_settings_lawful:
  assumes "read_settings c = Inr st"
  shows "lawful st"
proof -
  from assms obtain b h p netname frequency bandwidth sf cr txpower lo0 hi0 cap pct where
    res: "resolve_value h (py_str b) = Inr p" and pol: "BAND_POLICY (py_str b) = Some (lo0, hi0, cap)"
    and ceil: "duty_ceiling (py_str b) frequency bandwidth = Inr (Some pct)"
    and lim: "read_limits c (py_str b) p netname \<lparr>m_frequency = frequency, m_bandwidth = bandwidth, m_sf = sf, m_cr = cr,
      m_txpower = txpower, m_syncword = 0, m_preamble = 0\<rparr> cap pct = Inr st"
    by (auto simp: read_settings_def bindE_Inr_iff Let_def split: if_splits option.splits)
  from res have "wiring_ok (py_str b) p" by (auto simp: resolve_value_def resolve_wiring split: pyval.splits)
  moreover obtain lo hi where "((lo, hi), pct) \<in> set (segments (py_str b))" "real_of_int lo \<le> of_int frequency - of_int bandwidth / 2"
    "of_int frequency + of_int bandwidth / 2 \<le> real_of_int hi" by (rule duty_ceiling_Some [OF ceil])
  moreover have "DEFAULT_IFAC_SIZE \<le> MAX_PAYLOAD" "DEFAULT_IFAC_SIZE \<le> FRAMED_MTU"
    by (simp_all add: FRAMED_MTU_def FRAME_PAYLOAD_def HEADER_L_def MAX_PAYLOAD_def DEFAULT_IFAC_SIZE_def)
  ultimately show ?thesis using pol
    by - (rule read_limits_lawful [OF lim], simp add: lawful_def, blast)
qed


definition bench_section :: pydict where
  "bench_section = [''name'' \<mapsto> PStr ''lora'', ''band'' \<mapsto> PStr ''868'', ''hardware'' \<mapsto> PStr ''loraham'',
     ''frequency'' \<mapsto> PStr ''869525000'', ''airtime_limit_short'' \<mapsto> PStr ''50'', ''airtime_limit_long'' \<mapsto> PStr ''10'']"

lemma bench_channel: "duty_ceiling ''868'' 869525000 125000 = Inr (Some 10)"
  by (simp add: duty_ceiling_def float_of_int_small Let_def segments_def PERMITTED_SEGMENTS_def)

lemma bench_numbers:
  "py_int_str ''869525000'' 10 = Some 869525000" "py_int_str ''0x12'' 0 = Some 18"
  by code_simp+

lemma bench_limits: "py_float_str ''50'' = Some (Fin 50)" "py_float_str ''10'' = Some (Fin 10)"
  by (simp_all add: py_float_str_def strip_def strip_by_def is_space_def code_def take_sign_def lower_def lower_char_def
    partition_at_def mantissa_of_def digit_val_def scale10_def fl_def float_overflow_def Let_def)

definition bench_settings :: settings where
  "bench_settings = \<lparr>st_band = ''868'',
     st_profile = \<lparr>p_name = ''loraham-868'', chip = ''sx1276'', cs = 7, irq = 16, reset = 6,
        busy = NC, txen = NC, rxen = NC, tcxo_voltage = 0, dio2_rf_switch = False\<rparr>,
     st_netname = [], st_modem = \<lparr>m_frequency = 869525000, m_bandwidth = 125000, m_sf = 8, m_cr = 5, m_txpower = 14,
       m_syncword = 18, m_preamble = 8\<rparr>,
     rnode_framing = False, max_packet = 255, HW_MTU = 255, st_duty = duty_account 50 10, state_dir = ''.''\<rparr>"

lemma bench_words: "parse_switch (PStr ''no'') = Inr False" "strip [] = []"
  by code_simp+

lemma bench_section_read:
  "read_settings bench_section = Inr bench_settings"
  "read_settings (bench_section(''preamble'' \<mapsto> PInt (- 1))) =
     Inr (bench_settings\<lparr>st_modem := (st_modem bench_settings)\<lparr>m_preamble := - 1\<rparr>\<rparr>)"
  by (simp_all add: read_settings_def read_limits_def check_limit_def read_account_def read_state_dir_def read_preamble_def
    dict_item_def dict_get_def int_value_def text_value_def resolve_value_def bench_section_def bench_channel bench_numbers
    bench_limits bench_words BAND_POLICY_def resolve_def table_defs bench_settings_def MAX_PAYLOAD_def Let_def)


theorem duty_ceiling_exact_witness:
  "duty_ceiling ''868'' 869525000 125000 = Inr (Some 10) \<and> duty_ceiling ''868'' 869500000 500000 \<noteq> Inr (Some 10)"
  using duty_ceiling_exact [of 125000 869525000 "''868''" 10] duty_ceiling_exact [of 500000 869500000 "''868''" 10]
    bench_channel segments_cases [of _ _ 10 "''868''"] by fastforce

end
