(* ===== verification/Sx127x.thy ===== *)
theory Sx127x
  imports Radio
begin

text \<open>
  The register-based driver \<open>loraham_rns/sx127x.py\<close>: register access, configuration, receiving
  and transmitting. A register or FIFO access is one bus transaction; the theorems say which
  transactions \<open>configure\<close> makes and what the frequency registers stand for, that \<open>transmit\<close>
  ends and releases the TX-enable line, and which faults can be raised.
\<close>

section \<open>Registers\<close>

definition REG_FIFO :: int where "REG_FIFO = 0x00"
definition REG_OP_MODE :: int where "REG_OP_MODE = 0x01"
definition REG_FRF_MSB :: int where "REG_FRF_MSB = 0x06"
definition REG_PA_CONFIG :: int where "REG_PA_CONFIG = 0x09"
definition REG_OCP :: int where "REG_OCP = 0x0B"
definition REG_LNA :: int where "REG_LNA = 0x0C"
definition REG_FIFO_ADDR_PTR :: int where "REG_FIFO_ADDR_PTR = 0x0D"
definition REG_FIFO_TX_BASE :: int where "REG_FIFO_TX_BASE = 0x0E"
definition REG_FIFO_RX_BASE :: int where "REG_FIFO_RX_BASE = 0x0F"
definition REG_FIFO_RX_CURRENT :: int where "REG_FIFO_RX_CURRENT = 0x10"
definition REG_IRQ_FLAGS :: int where "REG_IRQ_FLAGS = 0x12"
definition REG_RX_NB_BYTES :: int where "REG_RX_NB_BYTES = 0x13"
definition REG_PKT_SNR :: int where "REG_PKT_SNR = 0x19"
definition REG_PKT_RSSI :: int where "REG_PKT_RSSI = 0x1A"
definition REG_MODEM_CONFIG_1 :: int where "REG_MODEM_CONFIG_1 = 0x1D"
definition REG_MODEM_CONFIG_2 :: int where "REG_MODEM_CONFIG_2 = 0x1E"
definition REG_PREAMBLE_MSB :: int where "REG_PREAMBLE_MSB = 0x20"
definition REG_PAYLOAD_LENGTH :: int where "REG_PAYLOAD_LENGTH = 0x22"
definition REG_MODEM_CONFIG_3 :: int where "REG_MODEM_CONFIG_3 = 0x26"
definition REG_SYNC_WORD :: int where "REG_SYNC_WORD = 0x39"
definition REG_DIO_MAPPING_1 :: int where "REG_DIO_MAPPING_1 = 0x40"
definition REG_VERSION :: int where "REG_VERSION = 0x42"
definition REG_PA_DAC :: int where "REG_PA_DAC = 0x4D"

definition MODE_SLEEP :: int where "MODE_SLEEP = 0x00"
definition MODE_STDBY :: int where "MODE_STDBY = 0x01"
definition MODE_TX :: int where "MODE_TX = 0x03"
definition MODE_RX_CONT :: int where "MODE_RX_CONT = 0x05"
definition MODE_LORA :: int where "MODE_LORA = 0x80"
definition MODE_LOW_FREQ :: int where "MODE_LOW_FREQ = 0x08"
definition IRQ_TX_DONE :: int where "IRQ_TX_DONE = 0x08"
definition IRQ_CRC_ERROR :: int where "IRQ_CRC_ERROR = 0x20"
definition IRQ_RX_DONE :: int where "IRQ_RX_DONE = 0x40"

lemmas sx127x_regs = REG_FIFO_def REG_OP_MODE_def REG_FRF_MSB_def REG_PA_CONFIG_def REG_OCP_def REG_LNA_def
  REG_FIFO_ADDR_PTR_def REG_FIFO_TX_BASE_def REG_FIFO_RX_BASE_def REG_FIFO_RX_CURRENT_def REG_IRQ_FLAGS_def
  REG_RX_NB_BYTES_def REG_PKT_SNR_def REG_PKT_RSSI_def REG_MODEM_CONFIG_1_def REG_MODEM_CONFIG_2_def
  REG_PREAMBLE_MSB_def REG_PAYLOAD_LENGTH_def REG_MODEM_CONFIG_3_def REG_SYNC_WORD_def REG_DIO_MAPPING_1_def
  REG_VERSION_def REG_PA_DAC_def MODE_SLEEP_def MODE_STDBY_def MODE_TX_def MODE_RX_CONT_def MODE_LORA_def
  MODE_LOW_FREQ_def IRQ_TX_DONE_def IRQ_CRC_ERROR_def IRQ_RX_DONE_def

definition FSTEP :: real where "FSTEP = 32000000 / 2 ^ 19"

definition BW_TABLE :: "int \<rightharpoonup> int" where
  "BW_TABLE = map_of [(7800, 0), (10400, 1), (15600, 2), (20800, 3), (31250, 4), (41700, 5),
     (62500, 6), (125000, 7), (250000, 8), (500000, 9)]"

definition LOW_BAND_MAX_HZ :: int where "LOW_BAND_MAX_HZ = 525000000"
definition EXPECTED_VERSION :: int where "EXPECTED_VERSION = 0x12"

section \<open>Access\<close>

definition sx127x_read :: "('d, 'y) platform_scheme \<Rightarrow> int \<Rightarrow> (('d, 'z) radio_scheme, int) py" where
  "sx127x_read E reg = bindM (xfer E [reg AND 0x7F, 0x00]) (\<lambda>r. ofE (byte_at r 1))"

definition sx127x_write :: "('d, 'y) platform_scheme \<Rightarrow> int \<Rightarrow> int \<Rightarrow> (('d, 'z) radio_scheme, unit) py" where
  "sx127x_write E reg v = thenM (xfer E [reg OR 0x80, v AND 0xFF]) (ret ())"

definition sx127x_mode :: "('d, 'y) platform_scheme \<Rightarrow> int \<Rightarrow> (('d, 'z) radio_scheme, unit) py" where
  "sx127x_mode E mode = bindM (getM lf_bit) (\<lambda>lf. sx127x_write E REG_OP_MODE (MODE_LORA OR lf OR mode))"

definition sx127x_probe :: "('d, 'y) platform_scheme \<Rightarrow> (('d, 'z) radio_scheme, int) py" where
  "sx127x_probe E = bindM (sx127x_read E REG_VERSION) (\<lambda>v.
     if v \<noteq> EXPECTED_VERSION then raise (RadioError ''no SX127x'') else ret v)"

section \<open>Configuration\<close>

definition sx127x_frf :: "modem \<Rightarrow> int" where
  "sx127x_frf c = py_round (of_int (m_frequency c) / FSTEP)"

text \<open>The part of \<open>configure\<close> after the bandwidth code is found.\<close>

definition sx127x_setup :: "('d, 'y) platform_scheme \<Rightarrow> modem \<Rightarrow> int \<Rightarrow> (('d, 'z) radio_scheme, unit) py" where
  "sx127x_setup E c bw = seqM
     [sx127x_write E REG_MODEM_CONFIG_1 (push_bit 4 bw OR push_bit 1 (m_cr c - 4)),
      sx127x_write E REG_MODEM_CONFIG_2 (push_bit 4 (m_sf c) OR 0x04),
      bindM (ofE (ldro (m_sf c) (m_bandwidth c))) (\<lambda>l. sx127x_write E REG_MODEM_CONFIG_3 (push_bit 3 l OR 0x04)),
      sx127x_write E REG_PREAMBLE_MSB (drop_bit 8 (m_preamble c) AND 0xFF),
      sx127x_write E (REG_PREAMBLE_MSB + 1) (m_preamble c AND 0xFF),
      sx127x_write E REG_SYNC_WORD (m_syncword c),
      sx127x_write E REG_LNA 0x23,
      sx127x_write E REG_PA_DAC 0x84,
      sx127x_write E REG_OCP 0x2B,
      sx127x_write E REG_PA_CONFIG (0x80 OR (clamp 2 17 (m_txpower c) - 2)),
      sx127x_write E REG_FIFO_TX_BASE 0x00,
      sx127x_write E REG_FIFO_RX_BASE 0x00,
      sx127x_write E REG_DIO_MAPPING_1 0x00]"

definition sx127x_configure :: "('d, 'y) platform_scheme \<Rightarrow> modem \<Rightarrow> (('d, 'z) radio_scheme, unit) py" where
  "sx127x_configure E c =
     (if m_sf c < 7 then raise (ValueError ''SX127x: spreading factor 6 needs implicit-header mode'')
      else thenM (modM (\<lambda>s. s\<lparr>lf_bit := if m_frequency c < LOW_BAND_MAX_HZ then MODE_LOW_FREQ else 0\<rparr>))
       (thenM (hard_reset E)
       (thenM (sx127x_mode E MODE_SLEEP)
       (thenM (sleepM E 0.01)
       (thenM (sx127x_mode E MODE_STDBY)
       (thenM (sx127x_probe E)
       (thenM (sx127x_write E REG_FRF_MSB (drop_bit 16 (sx127x_frf c) AND 0xFF))
       (thenM (sx127x_write E (REG_FRF_MSB + 1) (drop_bit 8 (sx127x_frf c) AND 0xFF))
       (thenM (sx127x_write E (REG_FRF_MSB + 2) (sx127x_frf c AND 0xFF))
       (case BW_TABLE (m_bandwidth c) of
          None \<Rightarrow> raise (RadioError ''unsupported bandwidth'')
        | Some bw \<Rightarrow> sx127x_setup E c bw))))))))))"

section \<open>Receiving\<close>

definition sx127x_start_rx :: "('d, 'y) platform_scheme \<Rightarrow> (('d, 'z) radio_scheme, unit) py" where
  "sx127x_start_rx E = seqM [sx127x_write E REG_FIFO_ADDR_PTR 0x00, sx127x_write E REG_IRQ_FLAGS 0xFF,
     sx127x_mode E MODE_RX_CONT]"

definition sx127x_packet :: "('d, 'y) platform_scheme \<Rightarrow> (('d, 'z) radio_scheme, (byte list \<times> real \<times> real) option) py" where
  "sx127x_packet E =
     bindM (sx127x_read E REG_RX_NB_BYTES) (\<lambda>nb.
     bindM (sx127x_read E REG_FIFO_RX_CURRENT) (\<lambda>cur.
     thenM (sx127x_write E REG_FIFO_ADDR_PTR cur)
     (bindM (xfer E ((REG_FIFO AND 0x7F) # replicate (nat nb) 0x00)) (\<lambda>raw.
      bindM (sx127x_read E REG_PKT_SNR) (\<lambda>raw_snr.
      bindM (sx127x_read E REG_PKT_RSSI) (\<lambda>raw_rssi.
      bindM (getM lf_bit) (\<lambda>lf.
        let data = drop 1 raw; snr = snr_of raw_snr;
            rssi = of_int (raw_rssi - (if lf \<noteq> 0 then 164 else 157)) + (if snr < 0 then snr else 0)
        in ret (if data \<noteq> [] then Some (data, rssi, snr) else None))))))))"

definition sx127x_poll_rx :: "('d, 'y) platform_scheme \<Rightarrow> (('d, 'z) radio_scheme, (byte list \<times> real \<times> real) option) py" where
  "sx127x_poll_rx E = bindM (sx127x_read E REG_IRQ_FLAGS) (\<lambda>flags.
     if flags AND IRQ_RX_DONE = 0 then ret None
     else thenM (sx127x_write E REG_IRQ_FLAGS (IRQ_RX_DONE OR IRQ_CRC_ERROR))
       (if flags AND IRQ_CRC_ERROR \<noteq> 0 then ret None else sx127x_packet E))"

section \<open>Transmitting\<close>

definition sx127x_await :: "('d, 'y) platform_scheme \<Rightarrow> real \<Rightarrow> (('d, 'z) radio_scheme, bool) py" where
  "sx127x_await E deadline = loopM (bindM (monotonicM E) (\<lambda>now.
     if \<not> now < deadline then ret (Some False)
     else bindM (sx127x_read E REG_IRQ_FLAGS) (\<lambda>flags.
       if flags AND IRQ_TX_DONE \<noteq> 0 then thenM (sx127x_write E REG_IRQ_FLAGS IRQ_TX_DONE) (ret (Some True))
       else thenM (sleepM E 0.005) (ret None))))"

definition sx127x_transmit :: "('d, 'y) platform_scheme \<Rightarrow> byte list \<Rightarrow> real \<Rightarrow> (('d, 'z) radio_scheme, bool) py" where
  "sx127x_transmit E data timeout =
     (if length data > MAX_PAYLOAD then raise (RadioError ''exceeds the LoRa limit'')
      else thenM (sx127x_mode E MODE_STDBY)
       (thenM (sx127x_write E REG_IRQ_FLAGS 0xFF)
       (thenM (sx127x_write E REG_FIFO_ADDR_PTR 0x00)
       (thenM (xfer E ((REG_FIFO OR 0x80) # map uint data))
       (thenM (sx127x_write E REG_PAYLOAD_LENGTH (int (length data)))
       (thenM (set_txen E True)
       (thenM (sx127x_mode E MODE_TX)
       (bindM (monotonicM E) (\<lambda>start.
         try_finally (sx127x_await E (start + timeout)) (set_txen E False))))))))))"

section \<open>Protocol, faults and termination\<close>

lemma byte_at_Inl: "byte_at bs i = Inl e \<Longrightarrow> e = IndexError"
  by (simp add: byte_at_def split: if_splits)

lemmas sx127x_defs = sx127x_read_def sx127x_write_def sx127x_mode_def sx127x_probe_def sx127x_setup_def
  sx127x_start_rx_def sx127x_packet_def sx127x_poll_rx_def seqM.simps

lemma keeps_lf_bit [keeps_rules]: "keeps bus_ok (modM (lf_bit_update f))"
  by (rule keeps_modM) (simp add: bus_ok_def)

lemma keeps_sx127x:
  "keeps bus_ok (sx127x_configure E c)" "keeps bus_ok (sx127x_start_rx E)" "keeps bus_ok (sx127x_poll_rx E)"
  "keeps bus_ok (sx127x_transmit E data t)"
  unfolding sx127x_configure_def sx127x_transmit_def sx127x_await_def sx127x_defs Let_def
  by (intro keeps_rules dev_free_bus_ok)+

lemma raises_byte_at [raises_rules]: "X IndexError \<Longrightarrow> raises X (ofE (byte_at bs i))"
  by (rule raises_ofE) (auto dest: byte_at_Inl)

lemma raises_sx127x_access [raises_rules]:
  "raises radio_fault (sx127x_read E reg)" "raises radio_fault (sx127x_write E reg v)"
  "raises radio_fault (sx127x_mode E m)" "raises radio_fault (sx127x_probe E)"
  unfolding sx127x_defs
  by (intro raises_rules radio_fault_simps)+

lemma raises_sx127x:
  "raises radio_fault (sx127x_start_rx E)" "raises radio_fault (sx127x_poll_rx E)"
  "raises radio_fault (sx127x_transmit E data t)"
  unfolding sx127x_start_rx_def sx127x_poll_rx_def sx127x_packet_def sx127x_transmit_def
    sx127x_await_def Let_def seqM.simps
  by (intro raises_rules radio_fault_simps; simp)+

lemma tkeeps_sx127x_access [tkeeps_rules]:
  assumes "advancing E clk tick"
  shows "tkeeps (after clk k) (sx127x_read E reg)" "tkeeps (after clk k) (sx127x_write E reg v)"
    "tkeeps (after clk k) (sx127x_mode E m)"
  unfolding sx127x_read_def sx127x_write_def sx127x_mode_def
  by (intro tkeeps_rules; rule assms)+

lemma tkeeps_sx127x_await [tkeeps_rules]:
  assumes "advancing E clk tick"
  shows "tkeeps (after clk k) (sx127x_await E deadline)"
  unfolding sx127x_await_def
proof (rule tkeeps_deadline [where clk = clk and q = "1/200" and deadline = deadline], simp, goal_cases)
  case (1 s)
  obtain d where m: "monotonic_p E (dev s) = (clk (dev s), d)" using advancingD(2) [OF assms] by (metis prod.collapse)
  have d: "clk (dev s) \<le> clk d" using advancingD(3) [OF assms, of "dev s"] m by simp
  obtain r u where u: "sx127x_read E REG_IRQ_FLAGS (s\<lparr>dev := d\<rparr>) = Some (r, u)" "after clk (clk d) u"
    using tkeepsD [OF tkeeps_sx127x_access(1) [OF assms], of "clk d" "s\<lparr>dev := d\<rparr>" REG_IRQ_FLAGS] by (auto simp: after_def)
  obtain r2 v where v: "sx127x_write E REG_IRQ_FLAGS IRQ_TX_DONE u = Some (r2, v)" "after clk (clk d) v"
    using tkeepsD [OF tkeeps_sx127x_access(2) [OF assms] u(2)] by blast
  obtain b d3 where z: "sleep_p E (1/200) (dev u) = (b, d3)" by fastforce
  have "clk (dev u) + 1/200 \<le> clk d3" using advancingD(4) [OF assms, of "dev u" "1/200"] z by simp
  with u(2) v(2) d 1 show ?case
    by (auto simp: py_defs monotonicM_def sleepM_def m u v z after_def split: sum.split)
qed

lemma tkeeps_sx127x_transmit: "advancing E clk tick \<Longrightarrow> tkeeps (after clk k) (sx127x_transmit E data t)"
  unfolding sx127x_transmit_def by (intro tkeeps_rules)

section \<open>What configure programs\<close>

lemma and_255: "x AND 255 = (x :: int) mod 256"
  using take_bit_eq_mask [of 8 x] by (simp add: take_bit_eq_mod mask_eq_exp_minus_1)

text \<open>The value last written to a register, by two-byte transfers whose first byte has bit 7 set.\<close>

definition write_of :: "int list \<Rightarrow> (int \<times> int) option" where
  "write_of p = (case p of [a, v] \<Rightarrow> if 128 \<le> a then Some (a - 128, v) else None | _ \<Rightarrow> None)"

fun writes :: "int list list \<Rightarrow> (int \<times> int) list" where
  "writes [] = []"
| "writes (p # ps) = (case write_of p of None \<Rightarrow> writes ps | Some w \<Rightarrow> w # writes ps)"

definition register :: "int list list \<Rightarrow> int \<Rightarrow> int option" where
  "register ps reg = map_of (rev (writes ps)) reg"

definition lf_of :: "modem \<Rightarrow> int" where
  "lf_of c = (if m_frequency c < LOW_BAND_MAX_HZ then MODE_LOW_FREQ else 0)"

abbreviation wr :: "int \<Rightarrow> int \<Rightarrow> int list" where
  "wr reg v \<equiv> [reg OR 0x80, v AND 0xFF]"

definition sx127x_setup_table :: "modem \<Rightarrow> int \<Rightarrow> (int \<times> int) list" where
  "sx127x_setup_table c bw =
     [(REG_MODEM_CONFIG_1, push_bit 4 bw OR push_bit 1 (m_cr c - 4)), (REG_MODEM_CONFIG_2, push_bit 4 (m_sf c) OR 0x04),
      (REG_MODEM_CONFIG_3, push_bit 3 (ldro_bit c) OR 0x04),
      (REG_PREAMBLE_MSB, drop_bit 8 (m_preamble c) AND 0xFF), (REG_PREAMBLE_MSB + 1, m_preamble c AND 0xFF),
      (REG_SYNC_WORD, m_syncword c), (REG_LNA, 0x23), (REG_PA_DAC, 0x84), (REG_OCP, 0x2B),
      (REG_PA_CONFIG, 0x80 OR (clamp 2 17 (m_txpower c) - 2)), (REG_FIFO_TX_BASE, 0x00), (REG_FIFO_RX_BASE, 0x00),
      (REG_DIO_MAPPING_1, 0x00)]"

definition sx127x_config_xfers :: "modem \<Rightarrow> int \<Rightarrow> int list list" where
  "sx127x_config_xfers c bw =
     [wr REG_OP_MODE (MODE_LORA OR lf_of c OR MODE_SLEEP), wr REG_OP_MODE (MODE_LORA OR lf_of c OR MODE_STDBY),
      [REG_VERSION AND 0x7F, 0x00], wr REG_FRF_MSB (drop_bit 16 (sx127x_frf c) AND 0xFF),
      wr (REG_FRF_MSB + 1) (drop_bit 8 (sx127x_frf c) AND 0xFF), wr (REG_FRF_MSB + 2) (sx127x_frf c AND 0xFF)]
     @ map (\<lambda>(reg, v). wr reg v) (sx127x_setup_table c bw)"

lemma sends_write: "steady P \<Longrightarrow> sends P (sx127x_write E reg v) [wr reg v]"
  unfolding sx127x_write_def using sends_thenM [OF sends_simple(7) sends_simple(1)] by fastforce

lemma sends_read: "steady P \<Longrightarrow> sends P (sx127x_read E reg) [[reg AND 0x7F, 0x00]]"
  unfolding sx127x_read_def using sends_bindM [OF sends_simple(7) sends_ofE] by fastforce

lemma sends_ldro:
  assumes "steady P" "\<And>l. l = ldro_bit c \<Longrightarrow> sends P (f l) ps"
  shows "sends P (bindM (ofE (ldro (m_sf c) (m_bandwidth c))) f) ps"
proof (cases "ldro (m_sf c) (m_bandwidth c)")
  case (Inl e)
  then have "bindM (ofE (ldro (m_sf c) (m_bandwidth c))) f = raise e" by (simp add: py_defs)
  then show ?thesis using sends_simple [OF assms(1)] by simp
next
  case (Inr l)
  then have "bindM (ofE (ldro (m_sf c) (m_bandwidth c))) f = f l" by (simp add: py_defs)
  with assms(2) [OF ldro_InrD [OF Inr]] show ?thesis by simp
qed

lemma sends_seqM: "steady P \<Longrightarrow> list_all2 (sends P) ms pss \<Longrightarrow> sends P (seqM ms) (concat pss)"
proof (induction ms arbitrary: pss)
  case (Cons m ms)
  then show ?case by (auto simp: list_all2_Cons1 intro!: sends_thenM)
qed (simp add: sends_simple)

lemma sends_setup:
  assumes "steady P"
  shows "sends P (sx127x_setup E c bw) (map (\<lambda>(reg, v). wr reg v) (sx127x_setup_table c bw))"
proof -
  have "sends P (sx127x_setup E c bw) (concat (map (\<lambda>(reg, v). [wr reg v]) (sx127x_setup_table c bw)))"
    unfolding sx127x_setup_def sx127x_setup_table_def list.map prod.case
    by (rule sends_seqM [OF assms]) (simp only: list_all2_Cons list_all2_Nil, intro conjI sends_write [OF assms] TrueI,
      rule sends_ldro [OF assms], simp only:, rule sends_write [OF assms], rule refl)
  moreover have "concat (map (\<lambda>(reg, v). [wr reg v]) rvs) = map (\<lambda>(reg, v). wr reg v) rvs" for rvs
    by (induction rvs) auto
  ultimately show ?thesis by (simp only:)
qed

lemma sends_probe:
  assumes "steady P"
  shows "sends P (sx127x_probe E) [[REG_VERSION AND 0x7F, 0x00]]"
proof -
  have "sends P (if v \<noteq> EXPECTED_VERSION then raise (RadioError ''no SX127x'') else ret v) []" for v
    by (simp add: sends_simple [OF assms])
  from sends_bindM [OF sends_read [OF assms] this] show ?thesis by (simp add: sx127x_probe_def)
qed

lemma sends_mode: "sends (\<lambda>s. lf_bit s = lf) (sx127x_mode E m) [wr REG_OP_MODE (MODE_LORA OR lf OR m)]"
  unfolding sx127x_mode_def by (rule sends_getM) (auto intro!: sends_write)

lemma sends_configure:
  assumes "7 \<le> m_sf c" "BW_TABLE (m_bandwidth c) = Some bw"
  shows "sends (\<lambda>s. lf_bit s = lf_of c)
     (thenM (hard_reset E) (thenM (sx127x_mode E MODE_SLEEP) (thenM (sleepM E 0.01)
     (thenM (sx127x_mode E MODE_STDBY) (thenM (sx127x_probe E)
     (thenM (sx127x_write E REG_FRF_MSB (drop_bit 16 (sx127x_frf c) AND 0xFF))
     (thenM (sx127x_write E (REG_FRF_MSB + 1) (drop_bit 8 (sx127x_frf c) AND 0xFF))
     (thenM (sx127x_write E (REG_FRF_MSB + 2) (sx127x_frf c AND 0xFF))
     (sx127x_setup E c bw))))))))) (sx127x_config_xfers c bw)"
proof -
  let ?P = "\<lambda>s. lf_bit s = lf_of c"
  have P: "steady ?P" by simp
  note parts = sends_thenM [OF sends_hard_reset [OF P] sends_thenM [OF sends_mode sends_thenM [OF sends_simple(5) [OF P]
    sends_thenM [OF sends_mode sends_thenM [OF sends_probe [OF P] sends_thenM [OF sends_write [OF P]
    sends_thenM [OF sends_write [OF P] sends_thenM [OF sends_write [OF P] sends_setup [OF P]]]]]]]]]
  have "sx127x_config_xfers c bw = [] @ [wr REG_OP_MODE (MODE_LORA OR lf_of c OR MODE_SLEEP)] @ [] @
      [wr REG_OP_MODE (MODE_LORA OR lf_of c OR MODE_STDBY)] @ [[REG_VERSION AND 0x7F, 0x00]] @
      [wr REG_FRF_MSB (drop_bit 16 (sx127x_frf c) AND 0xFF)] @ [wr (REG_FRF_MSB + 1) (drop_bit 8 (sx127x_frf c) AND 0xFF)] @
      [wr (REG_FRF_MSB + 2) (sx127x_frf c AND 0xFF)] @ map (\<lambda>(reg, v). wr reg v) (sx127x_setup_table c bw)"
    by (simp only: sx127x_config_xfers_def append.simps)
  then show ?thesis by (simp only:) (rule parts)
qed

lemma configure_xfers:
  assumes "sx127x_configure E c s = Some (Inr (), s')"
  shows "7 \<le> m_sf c \<and> (\<exists>bw. BW_TABLE (m_bandwidth c) = Some bw \<and>
    payloads (bus_trace s') = payloads (bus_trace s) @ sx127x_config_xfers c bw)"
proof -
  have sf: "7 \<le> m_sf c" using assms by (auto simp: sx127x_configure_def py_defs split: if_splits)
  obtain bw where bw: "BW_TABLE (m_bandwidth c) = Some bw"
    using assms sf by (auto simp: sx127x_configure_def py_Some_iffs raise_def split: option.splits)
  let ?s = "s\<lparr>lf_bit := lf_of c\<rparr>"
  have "sent ?s (sx127x_config_xfers c bw) s'"
    by (rule sendsD [OF sends_configure [OF sf bw, of E]])
      (use assms sf bw in \<open>simp_all add: sx127x_configure_def lf_of_def [symmetric] thenM_modM\<close>)
  then show ?thesis using sent_payloads sf bw by fastforce
qed

lemma writes_append: "writes (ps @ qs) = writes ps @ writes qs"
  by (induction ps) (auto split: option.split)

lemma register_append:
  "register (ps @ qs) reg = (case register qs reg of None \<Rightarrow> register ps reg | Some v \<Rightarrow> Some v)"
  by (simp add: register_def writes_append map_add_def split: option.split)

lemma config_registers:
  "register (sx127x_config_xfers c bw) 0x06 = Some (drop_bit 16 (sx127x_frf c) mod 256)"
  "register (sx127x_config_xfers c bw) 0x07 = Some (drop_bit 8 (sx127x_frf c) mod 256)"
  "register (sx127x_config_xfers c bw) 0x08 = Some (sx127x_frf c mod 256)"
  "register (sx127x_config_xfers c bw) 0x1D = Some ((push_bit 4 bw OR push_bit 1 (m_cr c - 4)) mod 256)"
  "register (sx127x_config_xfers c bw) 0x1E = Some ((push_bit 4 (m_sf c) OR 4) mod 256)"
  "register (sx127x_config_xfers c bw) 0x20 = Some (drop_bit 8 (m_preamble c) mod 256)"
  "register (sx127x_config_xfers c bw) 0x21 = Some (m_preamble c mod 256)"
  "register (sx127x_config_xfers c bw) 0x39 = Some (m_syncword c mod 256)"
  "register (sx127x_config_xfers c bw) 0x09 = Some ((128 OR (clamp 2 17 (m_txpower c) - 2)) mod 256)"
  "register (sx127x_config_xfers c bw) 0x01 = Some ((128 OR lf_of c OR 1) mod 256)"
  by (simp_all add: register_def sx127x_config_xfers_def sx127x_setup_table_def sx127x_regs write_of_def and_255)

lemma bytes_of_frf: "0 \<le> f \<Longrightarrow> f < 2 ^ 24 \<Longrightarrow>
  drop_bit 16 f mod 256 * 65536 + drop_bit 8 f mod 256 * 256 + f mod 256 = (f :: int)"
proof -
  assume f: "0 \<le> f" "f < 2 ^ 24"
  have e: "drop_bit 16 f = f div 65536" "drop_bit 8 f = f div 256" by (simp_all add: drop_bit_eq_div)
  have "f div 65536 = f div 256 div 256" using zdiv_zmult2_eq [of 256 f 256] by simp
  moreover have "f div 256 * 256 + f mod 256 = f" "f div 256 div 256 * 256 + f div 256 mod 256 = f div 256"
    by (rule div_mult_mod_eq)+
  moreover have "f div 65536 mod 256 = f div 65536" using f by (intro mod_pos_pos_trivial) simp_all
  ultimately show ?thesis unfolding e by linarith
qed

lemma bytes_of_16: "0 \<le> p \<Longrightarrow> p < 65536 \<Longrightarrow> drop_bit 8 p mod 256 * 256 + p mod 256 = (p :: int)"
  by (simp add: drop_bit_eq_div)

lemma frf_bounds:
  assumes "137000000 \<le> m_frequency c" "m_frequency c \<le> 1020000000"
  shows "0 \<le> sx127x_frf c" "sx127x_frf c < 2 ^ 24" "\<bar>of_int (sx127x_frf c) * FSTEP - of_int (m_frequency c)\<bar> \<le> FSTEP / 2"
proof -
  define x where "x = of_int (m_frequency c) / FSTEP"
  have near: "\<bar>x - of_int (sx127x_frf c)\<bar> \<le> 1 / 2" unfolding sx127x_frf_def x_def by (rule py_round_near)
  have x: "1 \<le> x" "x \<le> 16711681" using assms by (simp_all add: x_def FSTEP_def)
  have r: "1 / 2 \<le> real_of_int (sx127x_frf c)" "real_of_int (sx127x_frf c) \<le> 16711682"
    using near x by linarith+
  then have "sx127x_frf c \<le> 16711682" "0 \<le> sx127x_frf c" by linarith+
  then show "0 \<le> sx127x_frf c" "sx127x_frf c < 2 ^ 24" by simp_all
  have f: "of_int (m_frequency c) = x * FSTEP" by (simp add: x_def FSTEP_def)
  have "\<bar>of_int (sx127x_frf c) * FSTEP - of_int (m_frequency c)\<bar> = \<bar>of_int (sx127x_frf c) - x\<bar> * FSTEP"
    unfolding f left_diff_distrib [symmetric] abs_mult by (simp add: FSTEP_def)
  also have "\<dots> \<le> 1 / 2 * FSTEP" using near by (intro mult_right_mono) (auto simp: FSTEP_def abs_minus_commute)
  finally show "\<bar>of_int (sx127x_frf c) * FSTEP - of_int (m_frequency c)\<bar> \<le> FSTEP / 2" by simp
qed

lemma modem_config_1:
  assumes "BW_TABLE (m_bandwidth c) = Some bw" "5 \<le> cr" "cr \<le> 8"
  shows "let v = (push_bit 4 bw OR push_bit 1 (cr - 4)) mod 256 in v div 16 = bw \<and> v div 2 mod 8 = cr - 4 \<and> even v"
proof -
  have "bw \<in> {0, 1, 2, 3, 4, 5, 6, 7, 8, 9}"
    using map_of_SomeD [OF assms(1) [unfolded BW_TABLE_def]] by auto
  moreover have "cr \<in> {5, 6, 7, 8}" using assms(2,3) by auto
  ultimately show ?thesis by (auto simp: Let_def push_bit_eq_mult)
qed

lemma modem_config_2:
  assumes "7 \<le> sf" "sf \<le> 12"
  shows "(push_bit 4 sf OR 4) mod 256 = 16 * sf + (4 :: int)"
proof -
  have "sf \<in> {7, 8, 9, 10, 11, 12}" using assms by auto
  then show ?thesis by (auto simp: push_bit_eq_mult)
qed

lemma pa_config: "(128 OR (clamp 2 17 p - 2)) mod 256 = 126 + clamp 2 17 p"
proof -
  have "2 \<le> clamp 2 17 p" "clamp 2 17 p \<le> 17" by (simp_all add: clamp_def)
  then have "clamp 2 17 p \<in> {2, 3, 4, 5, 6, 7, 8, 9, 10, 11, 12, 13, 14, 15, 16, 17}" by simp presburger
  then show ?thesis by auto
qed

text \<open>What the registers of a configured SX127x stand for.\<close>

definition sx127x_configured :: "modem \<Rightarrow> (int \<Rightarrow> int option) \<Rightarrow> bool" where
  "sx127x_configured c rf \<longleftrightarrow> (\<exists>f2 f1 f0 m1 m2 p1 p0 w pa.
     map rf [0x06, 0x07, 0x08, 0x1D, 0x1E, 0x20, 0x21, 0x39, 0x09] = map Some [f2, f1, f0, m1, m2, p1, p0, w, pa] \<and>
     \<bar>of_int (f2 * 65536 + f1 * 256 + f0) * FSTEP - of_int (m_frequency c)\<bar> \<le> FSTEP / 2 \<and>
     BW_TABLE (m_bandwidth c) = Some (m1 div 16) \<and> m1 div 2 mod 8 = m_cr c - 4 \<and> even m1 \<and>
     m2 div 16 = m_sf c \<and> m2 mod 16 = 4 \<and> p1 * 256 + p0 = m_preamble c \<and> w = m_syncword c \<and>
     pa = 0x80 + (max 2 (min 17 (m_txpower c)) - 2))"

lemma sx127x_configuredI:
  assumes "rf 0x06 = Some f2" "rf 0x07 = Some f1" "rf 0x08 = Some f0" "rf 0x1D = Some m1" "rf 0x1E = Some m2"
    "rf 0x20 = Some p1" "rf 0x21 = Some p0" "rf 0x39 = Some w" "rf 0x09 = Some pa"
    and "\<bar>of_int (f2 * 65536 + f1 * 256 + f0) * FSTEP - of_int (m_frequency c)\<bar> \<le> FSTEP / 2"
    and "BW_TABLE (m_bandwidth c) = Some (m1 div 16) \<and> m1 div 2 mod 8 = m_cr c - 4 \<and> even m1"
    and "m2 div 16 = m_sf c \<and> m2 mod 16 = 4" "p1 * 256 + p0 = m_preamble c" "w = m_syncword c"
    and "pa = 0x80 + (max 2 (min 17 (m_txpower c)) - 2)"
  shows "sx127x_configured c rf"
  unfolding sx127x_configured_def
  by (rule exI [of _ f2], rule exI [of _ f1], rule exI [of _ f0], rule exI [of _ m1], rule exI [of _ m2],
    rule exI [of _ p1], rule exI [of _ p0], rule exI [of _ w], rule exI [of _ pa])
    (simp only: list.map assms simp_thms)

text \<open>
  C28. A configuration that returns has programmed exactly what was asked for: read back from the
  transfers made, the frequency registers stand for the frequency to within half a step of the
  synthesiser, and the modem, preamble, sync-word and PA registers decode to the parameters
  (explicit header, CRC on, power clamped to 2 to 17 dBm).
\<close>

theorem sx127x_configure_registers:
  assumes "sx127x_configure E c s = Some (Inr (), s')"
    and "137000000 \<le> m_frequency c" "m_frequency c \<le> 1020000000" "m_sf c \<le> 12" "5 \<le> m_cr c" "m_cr c \<le> 8"
    and "0 \<le> m_preamble c" "m_preamble c < 65536" "0 \<le> m_syncword c" "m_syncword c < 256"
  shows "sx127x_configured c (register (payloads (bus_trace s')))"
proof -
  obtain bw where sf: "7 \<le> m_sf c" and bw: "BW_TABLE (m_bandwidth c) = Some bw"
    and ps: "payloads (bus_trace s') = payloads (bus_trace s) @ sx127x_config_xfers c bw"
    using configure_xfers [OF assms(1)] by blast
  have reg: "register (payloads (bus_trace s')) r = Some v" if "register (sx127x_config_xfers c bw) r = Some v" for r v
    using that by (simp add: ps register_append)
  note regs = config_registers [of c bw, THEN reg]
  let ?m1 = "(push_bit 4 bw OR push_bit 1 (m_cr c - 4)) mod 256"
  have m1: "BW_TABLE (m_bandwidth c) = Some (?m1 div 16) \<and> ?m1 div 2 mod 8 = m_cr c - 4 \<and> even ?m1"
    using modem_config_1 [OF bw assms(5,6)] bw by (simp add: Let_def)
  have fr: "\<bar>of_int (drop_bit 16 (sx127x_frf c) mod 256 * 65536 + drop_bit 8 (sx127x_frf c) mod 256 * 256 + sx127x_frf c mod 256)
      * FSTEP - of_int (m_frequency c)\<bar> \<le> FSTEP / 2"
    using frf_bounds [OF assms(2,3)] by (simp only: bytes_of_frf)
  show ?thesis
  proof (rule sx127x_configuredI [OF regs(1-9) fr m1])
    show "(push_bit 4 (m_sf c) OR 4) mod 256 div 16 = m_sf c \<and> (push_bit 4 (m_sf c) OR 4) mod 256 mod 16 = 4"
      using sf assms(4) by (simp only: modem_config_2) simp
    show "drop_bit 8 (m_preamble c) mod 256 * 256 + m_preamble c mod 256 = m_preamble c"
      by (rule bytes_of_16 [OF assms(7,8)])
    show "m_syncword c mod 256 = m_syncword c" using assms(9,10) by simp
    show "(128 OR clamp 2 17 (m_txpower c) - 2) mod 256 = 128 + (max 2 (min 17 (m_txpower c)) - 2)"
      by (simp only: pa_config) (simp add: clamp_def)
  qed
qed

section \<open>Transmission\<close>

lemma keeps_closed_access:
  assumes "trace_closed J"
  shows "keeps J (sx127x_read E reg)" "keeps J (sx127x_write E reg v)" "keeps J (sx127x_mode E m)" "keeps J (sx127x_await E t)"
proof -
  note k = keeps_rules keeps_closed [OF assms]
  show r: "keeps J (sx127x_read E reg)" for reg unfolding sx127x_read_def by (intro k)
  show w: "keeps J (sx127x_write E reg v)" for reg v unfolding sx127x_write_def by (intro k)
  show "keeps J (sx127x_mode E m)" unfolding sx127x_mode_def by (intro k w)
  show "keeps J (sx127x_await E t)" unfolding sx127x_await_def by (intro k r w)
qed

lemma wp_sx127x_transmit:
  "wp (sx127x_transmit E data t) (\<lambda>_ x. txen_low s x \<and> length data \<le> MAX_PAYLOAD) (\<lambda>_ _. True) s"
proof (cases "length data > MAX_PAYLOAD")
  case False
  note k = keeps_closed [OF extends_closed] keeps_closed_access [OF extends_closed]
  have "wp (sx127x_transmit E data t) (\<lambda>_. txen_low s) (\<lambda>_ _. True) s"
    unfolding sx127x_transmit_def if_not_P [OF False] thenM_def
    by (rule wp_after_keeps [where J = "extends s"], rule k, rule extends_refl)
      (intro wp_after_keeps [where J = "extends s"] k wp_txen_released; assumption)
  with False show ?thesis by (auto intro: wp_mono)
qed (simp add: sx127x_transmit_def)

text \<open>
  A transmission that returns (done or timed out) was of at most 255 bytes and has left the
  TX-enable line, where the board wires it, driven low; and on a platform whose clock advances
  it always ends.
\<close>

theorem sx127x_transmit_safe:
  assumes "advancing E clk tick"
  shows "\<exists>r s'. sx127x_transmit E data t s = Some (r, s') \<and>
    (case r of Inr done \<Rightarrow> txen_low s s' \<and> length data \<le> MAX_PAYLOAD | Inl e \<Rightarrow> radio_fault e)"
proof -
  obtain r s' where rs: "sx127x_transmit E data t s = Some (r, s')"
    using tkeepsD [OF tkeeps_sx127x_transmit [OF assms, of "clk (dev s)" data t], of s] by (auto simp: after_def)
  then show ?thesis
    using wpD(1) [OF wp_sx127x_transmit] raisesD [OF raises_sx127x(3)] by (cases r) fastforce+
qed

section \<open>Reception\<close>

text \<open>A full-duplex bus: as many bytes come back as go out.\<close>

definition full_duplex :: "('d, 'y) platform_scheme \<Rightarrow> bool" where
  "full_duplex E \<longleftrightarrow> (\<forall>p d r. fst (spi_xfer2_p E p d) = Some r \<longrightarrow> length r = length p)"

lemma snr_of_bounds: "0 \<le> raw \<Longrightarrow> raw < 256 \<Longrightarrow> -32 \<le> snr_of raw \<and> snr_of raw \<le> 127 / 4"
  by (auto simp: snr_of_def)

lemma uint_byte: "uint (b :: byte) < 256"
  using uint_lt2p [of b] by simp

lemma wp_sx127x_read:
  assumes "\<And>v x. 0 \<le> v \<Longrightarrow> v < 256 \<Longrightarrow> Q v x" and "\<And>e x. X e x"
  shows "wp (sx127x_read E reg) Q X s"
  unfolding sx127x_read_def wp_bindM
  by (rule wp_xfer) (auto simp: byte_at_def uint_byte assms)

lemma wp_sx127x_write: "(\<And>x. Q () x) \<Longrightarrow> (\<And>e x. X e x) \<Longrightarrow> wp (sx127x_write E reg v) Q X s"
  unfolding sx127x_write_def wp_thenM by (rule wp_xfer) auto

text \<open>
  A packet that \<open>poll_rx\<close> hands out is not empty, has at most 255 bytes, and comes with an
  SNR between -32 and 31.75 dB.
\<close>

theorem sx127x_poll_rx_bounds:
  assumes "sx127x_poll_rx E s = Some (Inr (Some (data, rssi, snr)), s')" "full_duplex E"
  shows "data \<noteq> [] \<and> length data \<le> MAX_PAYLOAD \<and> -32 \<le> snr \<and> snr \<le> 127 / 4"
proof -
  have "wp (sx127x_packet E) (\<lambda>r _. \<forall>data rssi snr. r = Some (data, rssi, snr) \<longrightarrow>
      data \<noteq> [] \<and> length data \<le> MAX_PAYLOAD \<and> -32 \<le> snr \<and> snr \<le> 127 / 4) (\<lambda>_ _. True) s" for s
    unfolding sx127x_packet_def wp_bindM wp_thenM Let_def wp_getM
    by (rule wp_sx127x_read, rule wp_sx127x_read, rule wp_sx127x_write, rule wp_xfer, rule wp_sx127x_read,
        rule wp_sx127x_read) (use assms(2) snr_of_bounds in \<open>auto simp: full_duplex_def MAX_PAYLOAD_def\<close>)
  then have "wp (sx127x_poll_rx E) (\<lambda>r _. \<forall>data rssi snr. r = Some (data, rssi, snr) \<longrightarrow>
      data \<noteq> [] \<and> length data \<le> MAX_PAYLOAD \<and> -32 \<le> snr \<and> snr \<le> 127 / 4) (\<lambda>_ _. True) s"
    unfolding sx127x_poll_rx_def wp_bindM
    by (auto intro!: wp_sx127x_read wp_sx127x_write)
  from wpD(1) [OF this assms(1)] show ?thesis by simp
qed

interpretation sx127x: radio_driver "sx127x_start_rx E" "sx127x_poll_rx E" "sx127x_transmit E" bus_ok for E
  by unfold_locales (rule keeps_sx127x raises_sx127x)+

section \<open>Witnesses\<close>

definition bench_radio :: "profile \<Rightarrow> real radio" where
  "bench_radio p = bus.extend idle_bus (radio.fields p (0 \<le> reset p) True (0 \<le> busy p) (0 \<le> txen p) [] 0 None)"

lemma bench_radio_eq: "bench_radio p = \<lparr>dev = 0, bus_path = ''/dev/spidev0.0'', cs_pin = 21, soft_cs = True,
    no_cs_mode = ''gpio-claim'', lock_fd = True, spi_open = True, cs_claimed = True, bus_trace = [],
    prof = p, reset_req = (0 \<le> reset p), irq_req = True, busy_req = (0 \<le> busy p), txen_req = (0 \<le> txen p),
    radio_notes = [], lf_bit = 0, preamble_set = None\<rparr>"
  by (simp add: bench_radio_def idle_bus_def bus.defs radio.defs)

definition bench_profile :: profile where
  "bench_profile = \<lparr>p_name = ''loraham-868'', chip = ''sx1276'', cs = 7, irq = 16, reset = 6,
     busy = NC, txen = NC, rxen = NC, tcxo_voltage = 0, dio2_rf_switch = False\<rparr>"

definition bench_modem :: modem where
  "bench_modem = \<lparr>m_frequency = 869525000, m_bandwidth = 125000, m_sf = 8, m_cr = 5, m_txpower = 14,
     m_syncword = 0x12, m_preamble = 18\<rparr>"

lemmas radio_run = bus_run bench_radio_eq bench_profile_def hard_reset_def set_txen_def byte_at_def NC_def

lemma bench_configure:
  "\<exists>s'. sx127x_configure (bench_bus (\<lambda>_. Some [0, 0x12])) bench_modem (bench_radio bench_profile) = Some (Inr (), s')"
  by (simp add: sx127x_configure_def sx127x_setup_def sx127x_mode_def sx127x_write_def sx127x_read_def sx127x_probe_def
    EXPECTED_VERSION_def BW_TABLE_def bench_modem_def ldro_def symbol_time_small radio_run)

theorem sx127x_configure_registers_witness:
  "\<exists>s'. sx127x_configure (bench_bus (\<lambda>_. Some [0, 0x12])) bench_modem (bench_radio bench_profile) = Some (Inr (), s') \<and>
     sx127x_configured bench_modem (register (payloads (bus_trace s')))"
proof -
  obtain s' where s': "sx127x_configure (bench_bus (\<lambda>_. Some [0, 0x12])) bench_modem (bench_radio bench_profile) = Some (Inr (), s')"
    using bench_configure by blast
  have "sx127x_configured bench_modem (register (payloads (bus_trace s')))"
    by (rule sx127x_configure_registers [OF s']) (simp_all add: bench_modem_def)
  with s' show ?thesis by blast
qed

theorem sx127x_transmit_safe_witness:
  "\<exists>r s'. sx127x_transmit (bench_bus (\<lambda>_. Some [0, 0])) [1, 2, 3] 2 (bench_radio bench_profile) = Some (r, s') \<and>
     (case r of Inr done \<Rightarrow> txen_low (bench_radio bench_profile) s' \<and> length [1, 2, 3 :: byte] \<le> MAX_PAYLOAD
      | Inl e \<Rightarrow> radio_fault e)"
  by (rule sx127x_transmit_safe [OF bench_bus_advancing])

lemma bench_poll:
  "\<exists>d rssi snr s'. sx127x_poll_rx (bench_bus (\<lambda>p. Some (replicate (length p) 0x41))) (bench_radio bench_profile)
     = Some (Inr (Some (d, rssi, snr)), s')"
  by (simp add: sx127x_poll_rx_def sx127x_packet_def sx127x_write_def sx127x_read_def IRQ_RX_DONE_def IRQ_CRC_ERROR_def
    radio_run Let_def)

theorem sx127x_poll_rx_bounds_witness:
  "\<exists>d rssi snr s'. sx127x_poll_rx (bench_bus (\<lambda>p. Some (replicate (length p) 0x41))) (bench_radio bench_profile)
     = Some (Inr (Some (d, rssi, snr)), s') \<and> d \<noteq> [] \<and> length d \<le> MAX_PAYLOAD"
proof -
  obtain d rssi snr s' where p: "sx127x_poll_rx (bench_bus (\<lambda>p. Some (replicate (length p) 0x41))) (bench_radio bench_profile)
     = Some (Inr (Some (d, rssi, snr)), s')" using bench_poll by blast
  have "full_duplex (bench_bus (\<lambda>p. Some (replicate (length p) 0x41)))" by (simp add: full_duplex_def bench_bus_def)
  from sx127x_poll_rx_bounds [OF p this] p show ?thesis by blast
qed

end
