(* ===== verification/Sx126x.thy ===== *)
theory Sx126x
  imports Sx127x
begin

text \<open>
  The command-based driver \<open>loraham_rns/sx126x.py\<close>: the BUSY handshake, commands and queries,
  configuration with the TCXO fallback, receiving and transmitting. It shares the line handling
  and the transfer bookkeeping of theory \<open>Radio\<close> with the SX127x driver.
\<close>

section \<open>Opcodes\<close>

definition CMD_SET_STANDBY :: int where "CMD_SET_STANDBY = 0x80"
definition CMD_SET_TX :: int where "CMD_SET_TX = 0x83"
definition CMD_SET_RX :: int where "CMD_SET_RX = 0x82"
definition CMD_WRITE_REGISTER :: int where "CMD_WRITE_REGISTER = 0x0D"
definition CMD_READ_REGISTER :: int where "CMD_READ_REGISTER = 0x1D"
definition CMD_WRITE_BUFFER :: int where "CMD_WRITE_BUFFER = 0x0E"
definition CMD_READ_BUFFER :: int where "CMD_READ_BUFFER = 0x1E"
definition CMD_SET_DIO_IRQ_PARAMS :: int where "CMD_SET_DIO_IRQ_PARAMS = 0x08"
definition CMD_GET_IRQ_STATUS :: int where "CMD_GET_IRQ_STATUS = 0x12"
definition CMD_CLEAR_IRQ_STATUS :: int where "CMD_CLEAR_IRQ_STATUS = 0x02"
definition CMD_SET_RF_FREQUENCY :: int where "CMD_SET_RF_FREQUENCY = 0x86"
definition CMD_SET_PACKET_TYPE :: int where "CMD_SET_PACKET_TYPE = 0x8A"
definition CMD_SET_TX_PARAMS :: int where "CMD_SET_TX_PARAMS = 0x8E"
definition CMD_SET_MODULATION_PARAMS :: int where "CMD_SET_MODULATION_PARAMS = 0x8B"
definition CMD_SET_PACKET_PARAMS :: int where "CMD_SET_PACKET_PARAMS = 0x8C"
definition CMD_SET_BUFFER_BASE_ADDRESS :: int where "CMD_SET_BUFFER_BASE_ADDRESS = 0x8F"
definition CMD_SET_PA_CONFIG :: int where "CMD_SET_PA_CONFIG = 0x95"
definition CMD_GET_RX_BUFFER_STATUS :: int where "CMD_GET_RX_BUFFER_STATUS = 0x13"
definition CMD_GET_PACKET_STATUS :: int where "CMD_GET_PACKET_STATUS = 0x14"
definition CMD_SET_REGULATOR_MODE :: int where "CMD_SET_REGULATOR_MODE = 0x96"
definition CMD_CALIBRATE :: int where "CMD_CALIBRATE = 0x89"
definition CMD_CALIBRATE_IMAGE :: int where "CMD_CALIBRATE_IMAGE = 0x98"
definition CMD_SET_DIO2_AS_RF_SWITCH :: int where "CMD_SET_DIO2_AS_RF_SWITCH = 0x9D"
definition CMD_SET_DIO3_AS_TCXO :: int where "CMD_SET_DIO3_AS_TCXO = 0x97"
definition CMD_GET_DEVICE_ERRORS :: int where "CMD_GET_DEVICE_ERRORS = 0x17"
definition CMD_CLEAR_DEVICE_ERRORS :: int where "CMD_CLEAR_DEVICE_ERRORS = 0x07"

definition DEVICE_ERR_XOSC_START :: int where "DEVICE_ERR_XOSC_START = 0x0020"
definition STANDBY_RC :: int where "STANDBY_RC = 0x00"
definition REGULATOR_DC_DC :: int where "REGULATOR_DC_DC = 0x01"
definition CALIBRATE_ALL :: int where "CALIBRATE_ALL = 0x7F"
definition PACKET_TYPE_LORA :: int where "PACKET_TYPE_LORA = 0x01"
definition REG_LORA_SYNC_WORD_MSB :: int where "REG_LORA_SYNC_WORD_MSB = 0x0740"

definition SX126X_TX_DONE :: int where "SX126X_TX_DONE = 0x0001"
definition SX126X_RX_DONE :: int where "SX126X_RX_DONE = 0x0002"
definition SX126X_CRC_ERR :: int where "SX126X_CRC_ERR = 0x0040"
definition SX126X_TIMEOUT :: int where "SX126X_TIMEOUT = 0x0200"

lemmas sx126x_codes = CMD_SET_STANDBY_def CMD_SET_TX_def CMD_SET_RX_def CMD_WRITE_REGISTER_def CMD_READ_REGISTER_def
  CMD_WRITE_BUFFER_def CMD_READ_BUFFER_def CMD_SET_DIO_IRQ_PARAMS_def CMD_GET_IRQ_STATUS_def CMD_CLEAR_IRQ_STATUS_def
  CMD_SET_RF_FREQUENCY_def CMD_SET_PACKET_TYPE_def CMD_SET_TX_PARAMS_def CMD_SET_MODULATION_PARAMS_def
  CMD_SET_PACKET_PARAMS_def CMD_SET_BUFFER_BASE_ADDRESS_def CMD_SET_PA_CONFIG_def CMD_GET_RX_BUFFER_STATUS_def
  CMD_GET_PACKET_STATUS_def CMD_SET_REGULATOR_MODE_def CMD_CALIBRATE_def CMD_CALIBRATE_IMAGE_def
  CMD_SET_DIO2_AS_RF_SWITCH_def CMD_SET_DIO3_AS_TCXO_def CMD_GET_DEVICE_ERRORS_def CMD_CLEAR_DEVICE_ERRORS_def
  DEVICE_ERR_XOSC_START_def STANDBY_RC_def REGULATOR_DC_DC_def CALIBRATE_ALL_def PACKET_TYPE_LORA_def
  REG_LORA_SYNC_WORD_MSB_def SX126X_TX_DONE_def SX126X_RX_DONE_def SX126X_CRC_ERR_def SX126X_TIMEOUT_def

definition SX126X_FSTEP :: real where "SX126X_FSTEP = 32000000 / 2 ^ 25"

definition SX126X_BW_TABLE :: "int \<rightharpoonup> int" where
  "SX126X_BW_TABLE = map_of [(7810, 0x00), (10420, 0x08), (15630, 0x01), (20830, 0x09), (31250, 0x02),
     (41670, 0x0A), (62500, 0x03), (125000, 0x04), (250000, 0x05), (500000, 0x06)]"

text \<open>The voltages in tenths of a volt.\<close>

definition TCXO_VOLTS :: "int \<rightharpoonup> int" where
  "TCXO_VOLTS = map_of [(16, 0x00), (17, 0x01), (18, 0x02), (22, 0x03), (24, 0x04), (27, 0x05), (30, 0x06), (33, 0x07)]"

definition PA_ROWS :: "(int \<times> int \<times> int) list" where
  "PA_ROWS = [(14, 0x02, 0x02), (17, 0x02, 0x03), (20, 0x03, 0x05), (22, 0x04, 0x07)]"

definition BUSY_TIMEOUT_S :: real where "BUSY_TIMEOUT_S = 1"

section \<open>Commands\<close>

definition wait_busy :: "('d, 'y) platform_scheme \<Rightarrow> (('d, 'z) radio_scheme, unit) py" where
  "wait_busy E = bindM (getM busy_req) (\<lambda>wired. if \<not> wired then sleepM E 0.001
     else bindM (getM (busy \<circ> prof)) (\<lambda>pin. bindM (monotonicM E) (\<lambda>start.
       loopM (bindM (monotonicM E) (\<lambda>now.
         if \<not> now < start + BUSY_TIMEOUT_S then raise (RadioError ''SX1262 BUSY stuck high'')
         else bindM (askM (line_get_p E pin)) (\<lambda>v. case v of
             None \<Rightarrow> raise (RadioError ''BUSY line failed'')
           | Some high \<Rightarrow> if \<not> high then ret (Some ()) else thenM (sleepM E 0.0005) (ret None)))))))"

definition cmd :: "('d, 'y) platform_scheme \<Rightarrow> int \<Rightarrow> int list \<Rightarrow> (('d, 'z) radio_scheme, unit) py" where
  "cmd E opcode params = thenM (wait_busy E) (thenM (xfer E (opcode # params)) (ret ()))"

definition query :: "('d, 'y) platform_scheme \<Rightarrow> int \<Rightarrow> nat \<Rightarrow> int list \<Rightarrow> (('d, 'z) radio_scheme, byte list) py" where
  "query E opcode nbytes params = thenM (wait_busy E)
     (bindM (xfer E ([opcode] @ params @ replicate (nbytes + 1) 0x00)) (\<lambda>raw.
        ret (take nbytes (drop (length params + 2) raw))))"

definition write_register :: "('d, 'y) platform_scheme \<Rightarrow> int \<Rightarrow> int list \<Rightarrow> (('d, 'z) radio_scheme, unit) py" where
  "write_register E addr values = cmd E CMD_WRITE_REGISTER ([drop_bit 8 addr AND 0xFF, addr AND 0xFF] @ values)"

definition read_register :: "('d, 'y) platform_scheme \<Rightarrow> int \<Rightarrow> nat \<Rightarrow> (('d, 'z) radio_scheme, byte list) py" where
  "read_register E addr n = query E CMD_READ_REGISTER n [drop_bit 8 addr AND 0xFF, addr AND 0xFF]"

definition sx126x_probe :: "('d, 'y) platform_scheme \<Rightarrow> (('d, 'z) radio_scheme, unit) py" where
  "sx126x_probe E = thenM (write_register E REG_LORA_SYNC_WORD_MSB [0x14, 0x24])
     (bindM (read_register E REG_LORA_SYNC_WORD_MSB 2) (\<lambda>got.
        if length got < 2 \<or> got ! 0 \<noteq> 0x14 \<or> got ! 1 \<noteq> 0x24 then raise (RadioError ''no SX1262'') else ret ()))"

text \<open>Two status bytes as one number; a short reply counts as zero.\<close>

definition status16 :: "byte list \<Rightarrow> int" where
  "status16 b = (if length b \<ge> 2 then push_bit 8 (uint (b ! 0)) OR uint (b ! 1) else 0)"

definition irq_status :: "('d, 'y) platform_scheme \<Rightarrow> (('d, 'z) radio_scheme, int) py" where
  "irq_status E = bindM (query E CMD_GET_IRQ_STATUS 2 []) (\<lambda>b. ret (status16 b))"

section \<open>Configuration\<close>

definition TCXO_DELAY :: int where "TCXO_DELAY = 640"

definition setup_tcxo :: "('d, 'y) platform_scheme \<Rightarrow> real \<Rightarrow> (('d, 'z) radio_scheme, bool) py" where
  "setup_tcxo E voltage = (case TCXO_VOLTS (py_round (voltage * 10)) of
       None \<Rightarrow> raise (RadioError ''unsupported TCXO voltage'')
     | Some volts \<Rightarrow>
         thenM (seqM [cmd E CMD_CLEAR_DEVICE_ERRORS [0x00, 0x00],
                      cmd E CMD_SET_DIO3_AS_TCXO [volts, drop_bit 16 TCXO_DELAY AND 0xFF, drop_bit 8 TCXO_DELAY AND 0xFF,
                        TCXO_DELAY AND 0xFF],
                      cmd E CMD_CALIBRATE [CALIBRATE_ALL], sleepM E 0.02, wait_busy E])
         (bindM (query E CMD_GET_DEVICE_ERRORS 2 []) (\<lambda>err.
            ret (status16 err AND DEVICE_ERR_XOSC_START = 0))))"

definition set_packet_params :: "('d, 'y) platform_scheme \<Rightarrow> int \<Rightarrow> int \<Rightarrow> (('d, 'z) radio_scheme, unit) py" where
  "set_packet_params E pre len = cmd E CMD_SET_PACKET_PARAMS
     [drop_bit 8 pre AND 0xFF, pre AND 0xFF, 0x00, len AND 0xFF, 0x01, 0x00]"

text \<open>The row of the PA table for a power: the last one whose power is not above it.\<close>

definition pa_row :: "int \<Rightarrow> int \<times> int" where
  "pa_row dbm = foldl (\<lambda>row (row_dbm, row_duty, row_hp). if dbm \<ge> row_dbm then (row_duty, row_hp) else row)
     (snd (hd PA_ROWS)) PA_ROWS"

definition set_tx_power :: "('d, 'y) platform_scheme \<Rightarrow> int \<Rightarrow> (('d, 'z) radio_scheme, unit) py" where
  "set_tx_power E requested = (let dbm = clamp (-9) 22 requested; (duty, hpmax) = pa_row dbm in
     seqM [cmd E CMD_SET_PA_CONFIG [duty, hpmax, 0x00, 0x01], cmd E CMD_SET_TX_PARAMS [dbm AND 0xFF, 0x04]])"

definition crystal_fallback :: "('d, 'y) platform_scheme \<Rightarrow> (('d, 'z) radio_scheme, unit) py" where
  "crystal_fallback E = thenM (add_note ''no TCXO on DIO3'') (thenM (hard_reset E) (seqM
     [wait_busy E, cmd E CMD_SET_STANDBY [STANDBY_RC], cmd E CMD_SET_REGULATOR_MODE [REGULATOR_DC_DC],
      cmd E CMD_CLEAR_DEVICE_ERRORS [0x00, 0x00], cmd E CMD_CALIBRATE [CALIBRATE_ALL], sleepM E 0.02, wait_busy E]))"

definition setup_clock :: "('d, 'y) platform_scheme \<Rightarrow> (('d, 'z) radio_scheme, unit) py" where
  "setup_clock E = bindM (getM (tcxo_voltage \<circ> prof)) (\<lambda>voltage.
     if voltage = 0 then ret ()
     else bindM (setup_tcxo E voltage) (\<lambda>ok. if ok then ret () else crystal_fallback E))"

definition sx126x_frf :: "modem \<Rightarrow> int" where
  "sx126x_frf c = py_round (of_int (m_frequency c) / SX126X_FSTEP)"

definition image_band :: "modem \<Rightarrow> int list" where
  "image_band c = (if m_frequency c < 500000000 then [0x6B, 0x6F] else [0xD7, 0xDB])"

definition sx126x_irqs :: int where
  "sx126x_irqs = SX126X_TX_DONE OR SX126X_RX_DONE OR SX126X_CRC_ERR OR SX126X_TIMEOUT"

text \<open>The part of \<open>configure\<close> after the bandwidth code is found.\<close>

definition sx126x_setup :: "('d, 'y) platform_scheme \<Rightarrow> modem \<Rightarrow> int \<Rightarrow> (('d, 'z) radio_scheme, unit) py" where
  "sx126x_setup E c bw = seqM
     [bindM (ofE (ldro (m_sf c) (m_bandwidth c))) (\<lambda>l. cmd E CMD_SET_MODULATION_PARAMS [m_sf c, bw, m_cr c - 4, l]),
      cmd E CMD_SET_BUFFER_BASE_ADDRESS [0x00, 0x00],
      modM (\<lambda>s. s\<lparr>preamble_set := Some (m_preamble c)\<rparr>),
      set_packet_params E (m_preamble c) (int MAX_PAYLOAD),
      write_register E REG_LORA_SYNC_WORD_MSB
        [(m_syncword c AND 0xF0) OR 0x04, push_bit 4 (m_syncword c AND 0x0F) OR 0x04],
      set_tx_power E (m_txpower c),
      cmd E CMD_SET_DIO_IRQ_PARAMS [drop_bit 8 sx126x_irqs AND 0xFF, sx126x_irqs AND 0xFF,
        drop_bit 8 sx126x_irqs AND 0xFF, sx126x_irqs AND 0xFF, 0, 0, 0, 0]]"

definition sx126x_configure :: "('d, 'y) platform_scheme \<Rightarrow> modem \<Rightarrow> (('d, 'z) radio_scheme, unit) py" where
  "sx126x_configure E c =
     thenM (hard_reset E)
     (thenM (wait_busy E)
     (thenM (cmd E CMD_SET_STANDBY [STANDBY_RC])
     (thenM (cmd E CMD_SET_REGULATOR_MODE [REGULATOR_DC_DC])
     (thenM (setup_clock E)
     (bindM (getM (dio2_rf_switch \<circ> prof)) (\<lambda>dio2.
      thenM (if dio2 then cmd E CMD_SET_DIO2_AS_RF_SWITCH [0x01] else ret ())
     (thenM (cmd E CMD_SET_PACKET_TYPE [PACKET_TYPE_LORA])
     (thenM (sx126x_probe E)
     (thenM (cmd E CMD_CALIBRATE_IMAGE (image_band c))
     (thenM (cmd E CMD_SET_RF_FREQUENCY [drop_bit 24 (sx126x_frf c) AND 0xFF, drop_bit 16 (sx126x_frf c) AND 0xFF,
        drop_bit 8 (sx126x_frf c) AND 0xFF, sx126x_frf c AND 0xFF])
     (case SX126X_BW_TABLE (m_bandwidth c) of
        None \<Rightarrow> raise (RadioError ''unsupported bandwidth'')
      | Some bw \<Rightarrow> sx126x_setup E c bw)))))))))))"

section \<open>Receiving\<close>

definition sx126x_start_rx :: "('d, 'y) platform_scheme \<Rightarrow> (('d, 'z) radio_scheme, unit) py" where
  "sx126x_start_rx E = seqM [cmd E CMD_CLEAR_IRQ_STATUS [0xFF, 0xFF], cmd E CMD_SET_RX [0xFF, 0xFF, 0xFF]]"

definition sx126x_packet :: "('d, 'y) platform_scheme \<Rightarrow> (('d, 'z) radio_scheme, (byte list \<times> real \<times> real) option) py" where
  "sx126x_packet E =
     bindM (query E CMD_GET_RX_BUFFER_STATUS 2 []) (\<lambda>st.
     bindM (ofE (byte_at st 0)) (\<lambda>len.
     bindM (ofE (byte_at st 1)) (\<lambda>start.
     bindM (query E CMD_READ_BUFFER (nat len) [start]) (\<lambda>data.
     bindM (query E CMD_GET_PACKET_STATUS 3 []) (\<lambda>ps.
     bindM (ofE (byte_at ps 0)) (\<lambda>p0.
     bindM (ofE (byte_at ps 1)) (\<lambda>p1.
       ret (if data \<noteq> [] then Some (data, - of_int p0 / 2, snr_of p1) else None))))))))"

definition sx126x_poll_rx :: "('d, 'y) platform_scheme \<Rightarrow> (('d, 'z) radio_scheme, (byte list \<times> real \<times> real) option) py" where
  "sx126x_poll_rx E = bindM (irq_status E) (\<lambda>st.
     if st AND SX126X_RX_DONE = 0 then ret None
     else thenM (cmd E CMD_CLEAR_IRQ_STATUS [drop_bit 8 st AND 0xFF, st AND 0xFF])
       (if st AND SX126X_CRC_ERR \<noteq> 0 then ret None else sx126x_packet E))"

section \<open>Transmitting\<close>

definition sx126x_await :: "('d, 'y) platform_scheme \<Rightarrow> real \<Rightarrow> (('d, 'z) radio_scheme, bool) py" where
  "sx126x_await E deadline = loopM (bindM (monotonicM E) (\<lambda>now.
     if \<not> now < deadline then ret (Some False)
     else bindM (irq_status E) (\<lambda>st.
       if st AND SX126X_TX_DONE \<noteq> 0 then thenM (cmd E CMD_CLEAR_IRQ_STATUS [0xFF, 0xFF]) (ret (Some True))
       else if st AND SX126X_TIMEOUT \<noteq> 0 then thenM (cmd E CMD_CLEAR_IRQ_STATUS [0xFF, 0xFF]) (ret (Some False))
       else thenM (sleepM E 0.005) (ret None))))"

definition preamble_or_8 :: "('d, 'z) radio_scheme \<Rightarrow> int" where
  "preamble_or_8 s = (case preamble_set s of None \<Rightarrow> 8 | Some p \<Rightarrow> p)"

definition sx126x_transmit :: "('d, 'y) platform_scheme \<Rightarrow> byte list \<Rightarrow> real \<Rightarrow> (('d, 'z) radio_scheme, bool) py" where
  "sx126x_transmit E data timeout =
     (if length data > MAX_PAYLOAD then raise (RadioError ''exceeds the LoRa limit'')
      else thenM (cmd E CMD_SET_STANDBY [STANDBY_RC])
       (thenM (cmd E CMD_CLEAR_IRQ_STATUS [0xFF, 0xFF])
       (bindM (getM preamble_or_8) (\<lambda>pre.
        thenM (set_packet_params E pre (int (length data)))
       (thenM (cmd E CMD_WRITE_BUFFER (0x00 # map uint data))
       (thenM (set_txen E True)
       (thenM (cmd E CMD_SET_TX [0x00, 0x00, 0x00])
       (bindM (monotonicM E) (\<lambda>start.
         try_finally (sx126x_await E (start + timeout)) (set_txen E False))))))))))"

section \<open>Protocol, faults and termination\<close>

lemma wp_wait_busy:
  assumes "\<And>d. Q () (s\<lparr>dev := d\<rparr>)" "\<And>e d. radio_fault e \<Longrightarrow> X e (s\<lparr>dev := d\<rparr>)"
  shows "wp (wait_busy E) Q X s"
proof (cases "busy_req s")
  case True
  show ?thesis
    unfolding wait_busy_def wp_bindM wp_getM
    using True by (auto intro!: wp_clock wp_loopM [where I = "\<lambda>x. \<exists>d. x = s\<lparr>dev := d\<rparr>"] wp_sleepM assms
      split: option.split) (rule exI, rule refl)
qed (auto simp: wait_busy_def intro!: wp_sleepM assms)

lemma keeps_wait_busy: "dev_free J \<Longrightarrow> keeps J (wait_busy E)"
  unfolding keeps_wp by (auto intro!: wp_wait_busy simp: dev_free_def)

lemma raises_wait_busy [raises_rules]: "raises radio_fault (wait_busy E)"
  unfolding wait_busy_def by (intro raises_rules radio_fault_simps)

lemma keeps_cmd [keeps_rules]: "keeps bus_ok (cmd E c ps)" "keeps bus_ok (query E c n ps)"
  unfolding cmd_def query_def by (intro keeps_rules keeps_wait_busy dev_free_bus_ok)+

lemma raises_cmd [raises_rules]: "raises radio_fault (cmd E c ps)" "raises radio_fault (query E c n ps)"
  unfolding cmd_def query_def by (intro raises_rules radio_fault_simps)+

lemmas sx126x_defs = write_register_def read_register_def sx126x_probe_def irq_status_def setup_tcxo_def
  set_packet_params_def crystal_fallback_def setup_clock_def sx126x_start_rx_def sx126x_packet_def sx126x_poll_rx_def
  sx126x_await_def seqM.simps

lemma keeps_set_tx_power [keeps_rules]: "keeps bus_ok (set_tx_power E p)"
  unfolding set_tx_power_def Let_def seqM.simps by (intro keeps_rules)

lemma raises_set_tx_power [raises_rules]: "raises radio_fault (set_tx_power E p)"
  unfolding set_tx_power_def Let_def seqM.simps by (intro raises_rules)

lemma keeps_sx126x_setup [keeps_rules]: "keeps bus_ok (sx126x_setup E c bw)"
  unfolding sx126x_setup_def sx126x_defs by (intro keeps_rules; simp)

lemma keeps_sx126x:
  "keeps bus_ok (sx126x_configure E c)" "keeps bus_ok (sx126x_start_rx E)" "keeps bus_ok (sx126x_poll_rx E)"
  "keeps bus_ok (sx126x_transmit E data t)"
  unfolding sx126x_configure_def sx126x_transmit_def sx126x_defs
  by (intro keeps_rules keeps_wait_busy dev_free_bus_ok)+

lemma raises_sx126x:
  "raises radio_fault (sx126x_start_rx E)" "raises radio_fault (sx126x_poll_rx E)"
  "raises radio_fault (sx126x_transmit E data t)"
  unfolding sx126x_transmit_def sx126x_defs
  by (intro raises_rules radio_fault_simps)+

lemma tkeeps_wait_busy [tkeeps_rules]:
  assumes "advancing E clk tick"
  shows "tkeeps (after clk k) (wait_busy E)"
proof -
  have loop: "tkeeps (after clk k) (loopM (bindM (monotonicM E) (\<lambda>now.
         if \<not> now < deadline then raise (RadioError ''SX1262 BUSY stuck high'')
         else bindM (askM (line_get_p E pin)) (\<lambda>v. case v of
             None \<Rightarrow> raise (RadioError ''BUSY line failed'')
           | Some high \<Rightarrow> if \<not> high then ret (Some ()) else thenM (sleepM E 0.0005) (ret None)))))"
    for deadline pin
  proof (rule tkeeps_deadline [where clk = clk and q = "1/2000" and deadline = deadline], simp, goal_cases)
    case (1 s)
    obtain d where m: "monotonic_p E (dev s) = (clk (dev s), d)" using advancingD(2) [OF assms] by (metis prod.collapse)
    obtain v d1 where g: "line_get_p E pin d = (v, d1)" by fastforce
    obtain b d2 where z: "sleep_p E (1/2000) d1 = (b, d2)" by fastforce
    have "clk (dev s) \<le> clk d" "clk d \<le> clk d1" "clk d1 + 1/2000 \<le> clk d2"
      using advancingD(3) [OF assms, of "dev s"] advancingD(9) [OF assms, of d pin] advancingD(4) [OF assms, of d1 "1/2000"] m g z
      by simp_all
    with 1 show ?case
      by (auto simp: py_defs monotonicM_def sleepM_def m g z after_def split: option.split)
  qed
  show ?thesis unfolding wait_busy_def
    by (intro tkeeps_rules loop) (use assms in simp_all)
qed

lemma tkeeps_cmd [tkeeps_rules]:
  assumes "advancing E clk tick"
  shows "tkeeps (after clk k) (cmd E c ps)" "tkeeps (after clk k) (query E c n ps)" "tkeeps (after clk k) (irq_status E)"
  unfolding cmd_def query_def irq_status_def by (intro tkeeps_rules; rule assms)+

lemma tkeeps_sx126x_await [tkeeps_rules]:
  assumes "advancing E clk tick"
  shows "tkeeps (after clk k) (sx126x_await E deadline)"
  unfolding sx126x_await_def
proof (rule tkeeps_deadline [where clk = clk and q = "1/200" and deadline = deadline], simp, goal_cases)
  case (1 s)
  obtain d where m: "monotonic_p E (dev s) = (clk (dev s), d)" using advancingD(2) [OF assms] by (metis prod.collapse)
  have d: "clk (dev s) \<le> clk d" using advancingD(3) [OF assms, of "dev s"] m by simp
  obtain r u where u: "irq_status E (s\<lparr>dev := d\<rparr>) = Some (r, u)" "after clk (clk d) u"
    using tkeepsD [OF tkeeps_cmd(3) [OF assms], of "clk d" "s\<lparr>dev := d\<rparr>"] by (auto simp: after_def)
  obtain r2 v where v: "cmd E CMD_CLEAR_IRQ_STATUS [0xFF, 0xFF] u = Some (r2, v)" "after clk (clk d) v"
    using tkeepsD [OF tkeeps_cmd(1) [OF assms] u(2)] by blast
  obtain b d3 where z: "sleep_p E (1/200) (dev u) = (b, d3)" by fastforce
  have "clk (dev u) + 1/200 \<le> clk d3" using advancingD(4) [OF assms, of "dev u" "1/200"] z by simp
  with u(2) v(2) d 1 show ?case
    by (auto simp: py_defs monotonicM_def sleepM_def m u v z after_def split: sum.split)
qed

lemma tkeeps_sx126x_transmit: "advancing E clk tick \<Longrightarrow> tkeeps (after clk k) (sx126x_transmit E data t)"
  unfolding sx126x_transmit_def set_packet_params_def by (intro tkeeps_rules)

interpretation sx126x: radio_driver "sx126x_start_rx E" "sx126x_poll_rx E" "sx126x_transmit E" bus_ok for E
  by unfold_locales (rule keeps_sx126x raises_sx126x)+

section \<open>Transmission and reception\<close>

lemma keeps_closed_cmd:
  assumes "trace_closed J"
  shows "keeps J (cmd E c ps)" "keeps J (query E c n ps)" "keeps J (set_packet_params E pre len)" "keeps J (sx126x_await E t)"
proof -
  note k = keeps_rules keeps_closed [OF assms] keeps_wait_busy [OF trace_closed_dev [OF assms]]
  show c: "keeps J (cmd E c ps)" for c ps unfolding cmd_def by (intro k)
  show q: "keeps J (query E c n ps)" for c n ps unfolding query_def by (intro k)
  show "keeps J (set_packet_params E pre len)" unfolding set_packet_params_def by (rule c)
  show "keeps J (sx126x_await E t)" unfolding sx126x_await_def irq_status_def by (intro k c q)
qed

lemma wp_sx126x_transmit:
  "wp (sx126x_transmit E data t) (\<lambda>_ x. txen_low s x \<and> length data \<le> MAX_PAYLOAD) (\<lambda>_ _. True) s"
proof (cases "length data > MAX_PAYLOAD")
  case False
  note k = keeps_closed [OF extends_closed] keeps_closed_cmd [OF extends_closed] keeps_getM
  have "wp (sx126x_transmit E data t) (\<lambda>_. txen_low s) (\<lambda>_ _. True) s"
    unfolding sx126x_transmit_def if_not_P [OF False] thenM_def
    by (rule wp_after_keeps [where J = "extends s"], rule k, rule extends_refl)
      (intro wp_after_keeps [where J = "extends s"] k wp_txen_released; assumption)
  with False show ?thesis by (auto intro: wp_mono)
qed (simp add: sx126x_transmit_def)

text \<open>
  On a platform whose clock advances a transmission of the SX1262 always ends; one that
  returns was of at most 255 bytes and has left TX-enable driven low, one that raises raises a
  radio fault.
\<close>

theorem sx126x_transmit_safe:
  assumes "advancing E clk tick"
  shows "\<exists>r s'. sx126x_transmit E data t s = Some (r, s') \<and>
    (case r of Inr done \<Rightarrow> txen_low s s' \<and> length data \<le> MAX_PAYLOAD | Inl e \<Rightarrow> radio_fault e)"
proof -
  obtain r s' where rs: "sx126x_transmit E data t s = Some (r, s')"
    using tkeepsD [OF tkeeps_sx126x_transmit [OF assms, of "clk (dev s)" data t], of s] by (auto simp: after_def)
  then show ?thesis
    using wpD(1) [OF wp_sx126x_transmit] raisesD [OF raises_sx126x(3)] by (cases r) fastforce+
qed

text \<open>
  A query returns the bytes that follow the status byte: with a full-duplex bus the reply to
  \<open>opcode\<close> and \<open>params\<close> is a list of exactly \<open>nbytes\<close> bytes, the ones clocked in after the
  opcode, the parameters and one status byte.
\<close>

theorem query_payload:
  assumes "query E opcode nbytes params s = Some (Inr reply, s')" "full_duplex E"
  shows "length reply = nbytes \<and> (\<exists>d raw. fst (spi_xfer2_p E ([opcode] @ params @ replicate (nbytes + 1) 0) d) = Some raw \<and>
    (\<forall>i < nbytes. reply ! i = raw ! (1 + length params + 1 + i)))"
proof -
  have "wp (query E opcode nbytes params) (\<lambda>reply _. \<exists>d raw.
      fst (spi_xfer2_p E ([opcode] @ params @ replicate (nbytes + 1) 0) d) = Some raw \<and>
      reply = take nbytes (drop (length params + 2) raw)) (\<lambda>_ _. True) s"
    unfolding query_def wp_thenM wp_bindM wp_ret
    by (intro wp_wait_busy wp_xfer) blast+
  from wpD(1) [OF this assms(1)] obtain d raw where
    raw: "fst (spi_xfer2_p E ([opcode] @ params @ replicate (nbytes + 1) 0) d) = Some raw"
      "reply = take nbytes (drop (length params + 2) raw)" by blast
  then have "length raw = length params + nbytes + 2" using assms(2) by (fastforce simp: full_duplex_def)
  with raw show ?thesis by (intro conjI exI [of _ d] exI [of _ raw]) (auto simp: nth_append)
qed

section \<open>What configure programs\<close>

text \<open>\<open>adds m ps\<close>: a call of \<open>m\<close> that returns has made exactly the transfers \<open>ps\<close>.\<close>

definition adds :: "(('d, 'z) radio_scheme, 'a) py \<Rightarrow> int list list \<Rightarrow> bool" where
  "adds m ps \<longleftrightarrow> (\<forall>s. wp m (\<lambda>_ x. payloads (bus_trace x) = payloads (bus_trace s) @ ps) (\<lambda>_ _. True) s)"

lemma adds_bindM:
  assumes "adds m ps" "\<And>v. adds (f v) qs"
  shows "adds (bindM m f) (ps @ qs)"
  unfolding adds_def wp_bindM
proof
  fix s
  show "wp m (\<lambda>v. wp (f v) (\<lambda>_ x. payloads (bus_trace x) = payloads (bus_trace s) @ ps @ qs) (\<lambda>_ _. True)) (\<lambda>_ _. True) s"
  proof (rule wp_mono [OF assms(1) [unfolded adds_def, rule_format, of s]])
    fix v and t :: "('a, 'b) radio_scheme"
    assume t: "payloads (bus_trace t) = payloads (bus_trace s) @ ps"
    show "wp (f v) (\<lambda>_ x. payloads (bus_trace x) = payloads (bus_trace s) @ ps @ qs) (\<lambda>_ _. True) t"
      by (rule wp_mono [OF assms(2) [unfolded adds_def, rule_format, of v t]]) (simp_all add: t)
  qed simp
qed

lemma adds_thenM: "adds m ps \<Longrightarrow> adds n qs \<Longrightarrow> adds (thenM m n) (ps @ qs)"
  unfolding thenM_def by (rule adds_bindM)

lemma adds_ret: "adds (ret v) []"
  by (simp add: adds_def)

lemma adds_preamble: "adds (modM (preamble_set_update f)) []"
  by (simp add: adds_def)

lemma adds_cmd: "adds (cmd E c ps) [c # ps]"
  unfolding adds_def cmd_def wp_thenM wp_ret
  by (intro allI wp_wait_busy wp_xfer) (simp_all add: xfer_events_def)

lemma adds_tx_power:
  "adds (set_tx_power E p) [CMD_SET_PA_CONFIG # [fst (pa_row (clamp (-9) 22 p)), snd (pa_row (clamp (-9) 22 p)), 0, 1],
     [CMD_SET_TX_PARAMS, clamp (-9) 22 p AND 0xFF, 0x04]]"
proof -
  obtain duty hp where row: "pa_row (clamp (-9) 22 p) = (duty, hp)" by fastforce
  from adds_thenM [OF adds_cmd adds_thenM [OF adds_cmd adds_ret]] show ?thesis
    by (simp add: set_tx_power_def Let_def row)
qed

definition sx126x_setup_xfers :: "modem \<Rightarrow> int \<Rightarrow> int list list" where
  "sx126x_setup_xfers c bw =
     [[CMD_SET_MODULATION_PARAMS, m_sf c, bw, m_cr c - 4, ldro_bit c],
      [CMD_SET_BUFFER_BASE_ADDRESS, 0, 0],
      [CMD_SET_PACKET_PARAMS, drop_bit 8 (m_preamble c) AND 0xFF, m_preamble c AND 0xFF, 0, int MAX_PAYLOAD AND 0xFF, 1, 0],
      [CMD_WRITE_REGISTER, drop_bit 8 REG_LORA_SYNC_WORD_MSB AND 0xFF, REG_LORA_SYNC_WORD_MSB AND 0xFF,
        (m_syncword c AND 0xF0) OR 0x04, push_bit 4 (m_syncword c AND 0x0F) OR 0x04],
      [CMD_SET_PA_CONFIG, fst (pa_row (clamp (-9) 22 (m_txpower c))), snd (pa_row (clamp (-9) 22 (m_txpower c))), 0, 1],
      [CMD_SET_TX_PARAMS, clamp (-9) 22 (m_txpower c) AND 0xFF, 0x04],
      [CMD_SET_DIO_IRQ_PARAMS, drop_bit 8 sx126x_irqs AND 0xFF, sx126x_irqs AND 0xFF,
        drop_bit 8 sx126x_irqs AND 0xFF, sx126x_irqs AND 0xFF, 0, 0, 0, 0]]"

lemma adds_modulation:
  "adds (bindM (ofE (ldro (m_sf c) (m_bandwidth c))) (\<lambda>l. cmd E CMD_SET_MODULATION_PARAMS [m_sf c, bw, m_cr c - 4, l]))
     [[CMD_SET_MODULATION_PARAMS, m_sf c, bw, m_cr c - 4, ldro_bit c]]"
proof (cases "ldro (m_sf c) (m_bandwidth c)")
  case (Inl e)
  then show ?thesis by (simp add: adds_def)
next
  case (Inr l)
  with adds_cmd [of E CMD_SET_MODULATION_PARAMS "[m_sf c, bw, m_cr c - 4, l]"] show ?thesis
    using ldro_InrD [OF Inr] by (simp add: adds_def)
qed

lemma adds_setup: "adds (sx126x_setup E c bw) (sx126x_setup_xfers c bw)"
proof -
  note parts = adds_thenM [OF adds_modulation adds_thenM [OF adds_cmd adds_thenM [OF adds_preamble adds_thenM [OF
    adds_cmd adds_thenM [OF adds_cmd adds_thenM [OF adds_tx_power adds_thenM [OF adds_cmd adds_ret]]]]]]]
  show ?thesis
    unfolding sx126x_setup_def sx126x_setup_xfers_def set_packet_params_def write_register_def seqM.simps
    by (rule parts [THEN back_subst [where P = "adds m" for m]]) (simp only: append.simps)
qed

definition sx126x_tail :: "('d, 'y) platform_scheme \<Rightarrow> modem \<Rightarrow> int \<Rightarrow> (('d, 'z) radio_scheme, unit) py" where
  "sx126x_tail E c bw = thenM (cmd E CMD_CALIBRATE_IMAGE (image_band c))
     (thenM (cmd E CMD_SET_RF_FREQUENCY [drop_bit 24 (sx126x_frf c) AND 0xFF, drop_bit 16 (sx126x_frf c) AND 0xFF,
        drop_bit 8 (sx126x_frf c) AND 0xFF, sx126x_frf c AND 0xFF]) (sx126x_setup E c bw))"

definition sx126x_tail_xfers :: "modem \<Rightarrow> int \<Rightarrow> int list list" where
  "sx126x_tail_xfers c bw = [CMD_CALIBRATE_IMAGE # image_band c,
     [CMD_SET_RF_FREQUENCY, drop_bit 24 (sx126x_frf c) AND 0xFF, drop_bit 16 (sx126x_frf c) AND 0xFF,
        drop_bit 8 (sx126x_frf c) AND 0xFF, sx126x_frf c AND 0xFF]] @ sx126x_setup_xfers c bw"

lemma adds_tail: "adds (sx126x_tail E c bw) (sx126x_tail_xfers c bw)"
  unfolding sx126x_tail_def
  by (rule back_subst [where P = "adds m" for m, OF adds_thenM [OF adds_cmd adds_thenM [OF adds_cmd adds_setup]]])
    (simp only: sx126x_tail_xfers_def append.simps)

text \<open>More transfers than at the start.\<close>

definition grown :: "('d, 'z) radio_scheme \<Rightarrow> ('d, 'z) radio_scheme \<Rightarrow> bool" where
  "grown s x \<longleftrightarrow> (\<exists>ps. payloads (bus_trace x) = payloads (bus_trace s) @ ps)"

lemma grown_closed: "trace_closed (grown s)"
  by (auto simp: trace_closed_def grown_def)

lemma keeps_grown:
  "keeps (grown s) (cmd E c ps)" "keeps (grown s) (query E c n ps)" "keeps (grown s) (hard_reset E)"
  "keeps (grown s) (sleepM E t)" "keeps (grown s) (wait_busy E)" "keeps (grown s) (add_note msg)"
  by (intro keeps_closed_cmd keeps_closed keeps_wait_busy trace_closed_dev grown_closed)+
    (simp add: keeps_def add_note_def py_defs grown_def)

lemma keeps_grown_setup:
  "keeps (grown s) (setup_clock E)" "keeps (grown s) (sx126x_probe E)"
  unfolding setup_clock_def setup_tcxo_def crystal_fallback_def sx126x_probe_def write_register_def read_register_def seqM.simps
  by (intro keeps_rules keeps_grown)+

lemma configure_126_xfers:
  assumes "sx126x_configure E c s = Some (Inr (), s')"
  shows "\<exists>pre bw. SX126X_BW_TABLE (m_bandwidth c) = Some bw \<and>
    payloads (bus_trace s') = pre @ sx126x_tail_xfers c bw"
proof -
  let ?Q = "\<lambda>_ x. \<exists>pre bw. SX126X_BW_TABLE (m_bandwidth c) = Some bw \<and> payloads (bus_trace x) = pre @ sx126x_tail_xfers c bw"
  have tail: "wp (thenM (cmd E CMD_CALIBRATE_IMAGE (image_band c))
     (thenM (cmd E CMD_SET_RF_FREQUENCY [drop_bit 24 (sx126x_frf c) AND 0xFF, drop_bit 16 (sx126x_frf c) AND 0xFF,
        drop_bit 8 (sx126x_frf c) AND 0xFF, sx126x_frf c AND 0xFF])
     (case SX126X_BW_TABLE (m_bandwidth c) of
        None \<Rightarrow> raise (RadioError ''unsupported bandwidth'')
      | Some bw \<Rightarrow> sx126x_setup E c bw))) ?Q (\<lambda>_ _. True) x" for x
  proof (cases "SX126X_BW_TABLE (m_bandwidth c)")
    case None
    then show ?thesis by (auto simp: cmd_def intro!: wp_wait_busy wp_xfer)
  next
    case (Some bw)
    then show ?thesis
      using wp_mono [OF adds_tail [unfolded adds_def, rule_format, of E c bw x], of ?Q "\<lambda>_ _. True"]
      unfolding sx126x_tail_def by (simp only: option.case) blast
  qed
  have "wp (sx126x_configure E c) ?Q (\<lambda>_ _. True) s"
    unfolding sx126x_configure_def thenM_def
    by (rule wp_after_keeps [where J = "grown s"], rule keeps_grown, simp add: grown_def)
      (intro wp_after_keeps [where J = "grown s"] keeps_grown keeps_grown_setup keeps_getM keeps_if keeps_ret
        tail [unfolded thenM_def]; assumption)
  from wpD(1) [OF this assms] show ?thesis .
qed

lemma sync_word_table:
  "list_all (\<lambda>w. (w AND 0xF0) OR 0x04 = 16 * (w div 16) + 4 \<and> push_bit 4 (w AND 0x0F) OR 0x04 = 16 * (w mod 16) + (4 :: int))
     [0..255]"
  by code_simp

lemma sync_word_bytes:
  assumes "0 \<le> w" "w < 256"
  shows "(w AND 0xF0) OR 0x04 = 16 * (w div 16) + 4" "push_bit 4 (w AND 0x0F) OR 0x04 = 16 * (w mod 16) + (4 :: int)"
  using sync_word_table assms by (auto simp: list_all_iff)

lemma pa_row_cases:
  "pa_row d = (if 22 \<le> d then (4, 7) else if 20 \<le> d then (3, 5) else if 17 \<le> d then (2, 3) else (2, 2))"
  by (simp add: pa_row_def PA_ROWS_def)

lemma irq_mask: "drop_bit 8 sx126x_irqs AND 0xFF = 2" "sx126x_irqs AND 0xFF = 0x43"
  by (simp_all add: sx126x_irqs_def sx126x_codes)

lemma bytes_of_32: "0 \<le> f \<Longrightarrow> f < 2 ^ 32 \<Longrightarrow> drop_bit 24 f mod 256 * 16777216 + drop_bit 16 f mod 256 * 65536
    + drop_bit 8 f mod 256 * 256 + f mod 256 = (f :: int)"
proof -
  assume f: "0 \<le> f" "f < 2 ^ 32"
  have e: "drop_bit 24 f = f div 16777216" "drop_bit 16 f = f div 65536" "drop_bit 8 f = f div 256"
    by (simp_all add: drop_bit_eq_div)
  have "f div 16777216 = f div 65536 div 256" "f div 65536 = f div 256 div 256"
    using zdiv_zmult2_eq [of 256 f 65536] zdiv_zmult2_eq [of 256 f 256] by simp_all
  moreover have "f div 256 * 256 + f mod 256 = f" "f div 256 div 256 * 256 + f div 256 mod 256 = f div 256"
    "f div 65536 div 256 * 256 + f div 65536 mod 256 = f div 65536" by (rule div_mult_mod_eq)+
  moreover have "f div 16777216 mod 256 = f div 16777216" using f by (intro mod_pos_pos_trivial) simp_all
  ultimately show ?thesis unfolding e by linarith
qed

lemma frf_126_bounds:
  assumes "100000000 \<le> m_frequency c" "m_frequency c \<le> 1000000000"
  shows "0 \<le> sx126x_frf c" "sx126x_frf c < 2 ^ 32" "\<bar>of_int (sx126x_frf c) * SX126X_FSTEP - of_int (m_frequency c)\<bar> \<le> SX126X_FSTEP / 2"
proof -
  define x where "x = of_int (m_frequency c) / SX126X_FSTEP"
  have near: "\<bar>x - of_int (sx126x_frf c)\<bar> \<le> 1 / 2" unfolding sx126x_frf_def x_def by (rule py_round_near)
  have x: "1 \<le> x" "x \<le> 1048576000" using assms by (simp_all add: x_def SX126X_FSTEP_def)
  have r: "1 / 2 \<le> real_of_int (sx126x_frf c)" "real_of_int (sx126x_frf c) \<le> 1048576001"
    using near x by linarith+
  then have "sx126x_frf c \<le> 1048576001" "0 \<le> sx126x_frf c" by linarith+
  then show "0 \<le> sx126x_frf c" "sx126x_frf c < 2 ^ 32" by simp_all
  have f: "of_int (m_frequency c) = x * SX126X_FSTEP" by (simp add: x_def SX126X_FSTEP_def)
  have "\<bar>of_int (sx126x_frf c) * SX126X_FSTEP - of_int (m_frequency c)\<bar> = \<bar>of_int (sx126x_frf c) - x\<bar> * SX126X_FSTEP"
    unfolding f left_diff_distrib [symmetric] abs_mult by (simp add: SX126X_FSTEP_def)
  also have "\<dots> \<le> 1 / 2 * SX126X_FSTEP" using near by (intro mult_right_mono) (auto simp: SX126X_FSTEP_def abs_minus_commute)
  finally show "\<bar>of_int (sx126x_frf c) * SX126X_FSTEP - of_int (m_frequency c)\<bar> \<le> SX126X_FSTEP / 2" by simp
qed

text \<open>
  C29. A configuration of the SX1262 that returns ends with exactly these commands: image
  calibration for the band, the frequency (its four bytes stand for it to within half a step),
  modulation, buffer base, packet parameters with the configured preamble, the sync word with its
  nibbles in the high halves of the two registers, a documented PA row for the clamped power,
  and the interrupt mask.
\<close>

theorem sx126x_configure_program:
  assumes "sx126x_configure E c s = Some (Inr (), s')"
    and "100000000 \<le> m_frequency c" "m_frequency c \<le> 1000000000"
    and "0 \<le> m_preamble c" "m_preamble c < 65536" "0 \<le> m_syncword c" "m_syncword c < 256"
  shows "\<exists>pre f3 f2 f1 f0 bw p1 p0 duty hp dbm.
    payloads (bus_trace s') = pre @ [0x98 # (if m_frequency c < 500000000 then [0x6B, 0x6F] else [0xD7, 0xDB]),
      [0x86, f3, f2, f1, f0], [0x8B, m_sf c, bw, m_cr c - 4, ldro_bit c], [0x8F, 0, 0],
      [0x8C, p1, p0, 0, 255, 1, 0], [0x0D, 0x07, 0x40, 16 * (m_syncword c div 16) + 4, 16 * (m_syncword c mod 16) + 4],
      [0x95, duty, hp, 0, 1], [0x8E, dbm mod 256, 0x04], [0x08, 2, 0x43, 2, 0x43, 0, 0, 0, 0]] \<and>
    \<bar>of_int (f3 * 16777216 + f2 * 65536 + f1 * 256 + f0) * SX126X_FSTEP - of_int (m_frequency c)\<bar> \<le> SX126X_FSTEP / 2 \<and>
    SX126X_BW_TABLE (m_bandwidth c) = Some bw \<and> p1 * 256 + p0 = m_preamble c \<and>
    dbm = max (-9) (min 22 (m_txpower c)) \<and> (duty, hp) =
      (if 22 \<le> dbm then (4, 7) else if 20 \<le> dbm then (3, 5) else if 17 \<le> dbm then (2, 3) else (2, 2))"
proof -
  obtain pre bw where bw: "SX126X_BW_TABLE (m_bandwidth c) = Some bw"
    and ps: "payloads (bus_trace s') = pre @ sx126x_tail_xfers c bw"
    using configure_126_xfers [OF assms(1)] by blast
  let ?f = "sx126x_frf c" and ?d = "clamp (-9) 22 (m_txpower c)"
  have tail: "sx126x_tail_xfers c bw = [0x98 # (if m_frequency c < 500000000 then [0x6B, 0x6F] else [0xD7, 0xDB]),
      [0x86, drop_bit 24 ?f mod 256, drop_bit 16 ?f mod 256, drop_bit 8 ?f mod 256, ?f mod 256],
      [0x8B, m_sf c, bw, m_cr c - 4, ldro_bit c], [0x8F, 0, 0],
      [0x8C, drop_bit 8 (m_preamble c) mod 256, m_preamble c mod 256, 0, 255, 1, 0],
      [0x0D, 0x07, 0x40, 16 * (m_syncword c div 16) + 4, 16 * (m_syncword c mod 16) + 4],
      [0x95, fst (pa_row ?d), snd (pa_row ?d), 0, 1], [0x8E, ?d mod 256, 0x04], [0x08, 2, 0x43, 2, 0x43, 0, 0, 0, 0]]"
    unfolding sx126x_tail_xfers_def sx126x_setup_xfers_def image_band_def irq_mask sync_word_bytes [OF assms(6,7)]
    by (simp add: sx126x_codes and_255 MAX_PAYLOAD_def)
  have fr: "\<bar>of_int (drop_bit 24 ?f mod 256 * 16777216 + drop_bit 16 ?f mod 256 * 65536 + drop_bit 8 ?f mod 256 * 256 + ?f mod 256)
      * SX126X_FSTEP - of_int (m_frequency c)\<bar> \<le> SX126X_FSTEP / 2"
    using frf_126_bounds [OF assms(2,3)] by (simp only: bytes_of_32)
  show ?thesis
    by (rule exI, rule exI, rule exI, rule exI, rule exI, rule exI, rule exI, rule exI, rule exI, rule exI, rule exI)
      (intro conjI, rule ps [unfolded tail], rule fr, rule bw, rule bytes_of_16 [OF assms(4,5)],
        simp only: clamp_def, simp only: prod.collapse pa_row_cases)
qed

definition bench_1262 :: profile where
  "bench_1262 = \<lparr>p_name = ''waveshare-sx1262'', chip = ''sx1262'', cs = 21, irq = 16, reset = 18, busy = 20, txen = 6,
     rxen = NC, tcxo_voltage = 9 / 5, dio2_rf_switch = True\<rparr>"

text \<open>
  The TX-enable line is raised before the transmission command and lowered only inside the
  block that follows it: when that command fails (here: its transfer fails), the call raises
  with TX-enable still driven high.
\<close>

theorem sx126x_transmit_leaves_txen_high:
  "\<exists>s'. sx126x_transmit (bench_bus (\<lambda>p. if hd p = CMD_SET_TX then None else Some [])) [1, 2, 3] 2 (bench_radio bench_1262)
      = Some (Inl (SpiBusError ''SPI transfer failed''), s') \<and> line_level 6 False (bus_trace s')"
  by (simp add: sx126x_transmit_def cmd_def wait_busy_def set_packet_params_def MAX_PAYLOAD_def sx126x_codes
    preamble_or_8_def bench_1262_def BUSY_TIMEOUT_S_def radio_run)

section \<open>Witnesses\<close>

definition bench_chip :: "int list \<Rightarrow> byte list option" where
  "bench_chip p = Some (if hd p = CMD_READ_REGISTER \<and> length p = 6 then [0, 0, 0, 0, 0x14, 0x24] else replicate (length p) 0)"

lemma bench_chip_duplex: "full_duplex (bench_bus bench_chip)"
  by (auto simp: full_duplex_def bench_bus_def bench_chip_def)

lemmas sx126x_run = sx126x_configure_def sx126x_setup_def cmd_def wait_busy_def query_def set_packet_params_def
  write_register_def read_register_def sx126x_probe_def setup_clock_def setup_tcxo_def set_tx_power_def status16_def
  MAX_PAYLOAD_def sx126x_codes BUSY_TIMEOUT_S_def bench_chip_def bench_1262_def ldro_def symbol_time_small radio_run

lemma bench_configure_126:
  "\<exists>s'. sx126x_configure (bench_bus bench_chip) bench_modem (bench_radio bench_1262) = Some (Inr (), s')"
  by (simp add: sx126x_run TCXO_VOLTS_def py_round_def SX126X_BW_TABLE_def bench_modem_def pa_row_cases Let_def clamp_def)

theorem sx126x_configure_program_witness:
  "\<exists>s' pre f3 f2 f1 f0 p1 p0. sx126x_configure (bench_bus bench_chip) bench_modem (bench_radio bench_1262) = Some (Inr (), s') \<and>
     payloads (bus_trace s') = pre @ [[0x98, 0xD7, 0xDB], [0x86, f3, f2, f1, f0],
       [0x8B, 8, 4, 1, ldro_bit bench_modem], [0x8F, 0, 0], [0x8C, p1, p0, 0, 255, 1, 0], [0x0D, 0x07, 0x40, 0x14, 0x24],
       [0x95, 2, 2, 0, 1], [0x8E, 14, 0x04], [0x08, 2, 0x43, 2, 0x43, 0, 0, 0, 0]] \<and> p1 * 256 + p0 = 18"
proof -
  obtain s' where s': "sx126x_configure (bench_bus bench_chip) bench_modem (bench_radio bench_1262) = Some (Inr (), s')"
    using bench_configure_126 by blast
  have "100000000 \<le> m_frequency bench_modem" "m_frequency bench_modem \<le> 1000000000" "0 \<le> m_preamble bench_modem"
    "m_preamble bench_modem < 65536" "0 \<le> m_syncword bench_modem" "m_syncword bench_modem < 256"
    by (simp_all add: bench_modem_def)
  from sx126x_configure_program [OF s' this] s' show ?thesis
    by (auto simp: bench_modem_def SX126X_BW_TABLE_def)
qed

theorem sx126x_transmit_safe_witness:
  "\<exists>r s'. sx126x_transmit (bench_bus bench_chip) [1, 2, 3] 2 (bench_radio bench_1262) = Some (r, s') \<and>
     (case r of Inr done \<Rightarrow> txen_low (bench_radio bench_1262) s' \<and> length [1, 2, 3 :: byte] \<le> MAX_PAYLOAD
      | Inl e \<Rightarrow> radio_fault e)"
  by (rule sx126x_transmit_safe [OF bench_bus_advancing])

theorem query_payload_witness:
  "\<exists>reply s'. query (bench_bus bench_chip) CMD_READ_REGISTER 2 [0x07, 0x40] (bench_radio bench_1262) = Some (Inr reply, s') \<and>
     length reply = 2"
proof -
  obtain reply s' where q: "query (bench_bus bench_chip) CMD_READ_REGISTER 2 [0x07, 0x40] (bench_radio bench_1262) = Some (Inr reply, s')"
    by (simp add: sx126x_run)
  from query_payload [OF q bench_chip_duplex] q show ?thesis by blast
qed

end
