(* ===== verification/OnAir.thy ===== *)
theory OnAir
  imports Sx126x "HOL-Library.Sublist"
begin

text \<open>
  What goes over the air: the packets that a trace of transfers loads into the modem's transmit
  buffer, and the rules by which a method is shown to load exactly a list of packets while it
  changes nothing but the device state and the bus trace. Both drivers load one packet per
  transmission and none while they receive.
\<close>

section \<open>Packets loaded by transfers\<close>

text \<open>A write to the FIFO register of the SX127x, and the buffer write of the SX1262 at offset 0.\<close>

definition load_of :: "driver \<Rightarrow> int list \<Rightarrow> byte list list" where
  "load_of k p = (case (k, p) of
       (SX127x, h # bs) \<Rightarrow> if h = (REG_FIFO OR 0x80) then [map word_of_int bs] else []
     | (SX1262, h # off # bs) \<Rightarrow> if h = CMD_WRITE_BUFFER \<and> off = 0 then [map word_of_int bs] else []
     | _ \<Rightarrow> [])"

definition loaded :: "driver \<Rightarrow> int list list \<Rightarrow> byte list list" where
  "loaded k ps = concat (map (load_of k) ps)"

lemma loaded_simps [simp]:
  "loaded k [] = []" "loaded k (p # ps) = load_of k p @ loaded k ps" "loaded k (ps @ qs) = loaded k ps @ loaded k qs"
  by (simp_all add: loaded_def)

section \<open>Methods that load a given list of packets\<close>

text \<open>\<open>aired k s l x\<close>: from \<open>s\<close> to \<open>x\<close> only device and trace changed, and \<open>l\<close> was loaded.\<close>

definition aired :: "driver \<Rightarrow> ('d, 'z) radio_scheme \<Rightarrow> byte list list \<Rightarrow> ('d, 'z) radio_scheme \<Rightarrow> bool" where
  "aired k s l x \<longleftrightarrow> (\<exists>d ev. x = s\<lparr>dev := d, bus_trace := bus_trace s @ ev\<rparr> \<and> loaded k (payloads ev) = l)"

text \<open>A method that raises has loaded an initial part of the list.\<close>

definition aired_part :: "driver \<Rightarrow> ('d, 'z) radio_scheme \<Rightarrow> byte list list \<Rightarrow> ('d, 'z) radio_scheme \<Rightarrow> bool" where
  "aired_part k s l x \<longleftrightarrow> (\<exists>l'. prefix l' l \<and> aired k s l' x)"

definition airs :: "driver \<Rightarrow> (('d, 'z) radio_scheme, 'a) py \<Rightarrow> byte list list \<Rightarrow> bool" where
  "airs k m l \<longleftrightarrow> (\<forall>s. wp m (\<lambda>_. aired k s l) (\<lambda>_. aired_part k s l) s)"

named_theorems airs_rules "packets loaded, one rule per combinator"

lemma airedI: "loaded k (payloads ev) = l \<Longrightarrow> aired k s l (s\<lparr>dev := d, bus_trace := bus_trace s @ ev\<rparr>)"
  by (auto simp: aired_def)

lemma aired_dev: "aired k s [] (s\<lparr>dev := d\<rparr>)"
  using airedI [of k "[]" "[]" s d] by simp

lemma aired_refl [simp]: "aired k s [] s"
  using aired_dev [of k s "dev s"] by simp

lemma aired_partI: "aired k s l' x \<Longrightarrow> prefix l' l \<Longrightarrow> aired_part k s l x"
  by (auto simp: aired_part_def)

lemma aired_part_dev [simp]: "aired_part k s l (s\<lparr>dev := d\<rparr>)" "aired_part k s l s"
  by (rule aired_partI [OF aired_dev], simp, rule aired_partI [OF aired_refl], simp)

lemma aired_part_silent [simp]: "aired_part k s [] x = aired k s [] x"
  by (simp add: aired_part_def)

lemma aired_trans: "aired k s l x \<Longrightarrow> aired k x l' y \<Longrightarrow> aired k s (l @ l') y"
proof -
  assume "aired k s l x" "aired k x l' y"
  then obtain d ev d' ev' where "x = s\<lparr>dev := d, bus_trace := bus_trace s @ ev\<rparr>" "loaded k (payloads ev) = l"
    "y = x\<lparr>dev := d', bus_trace := bus_trace x @ ev'\<rparr>" "loaded k (payloads ev') = l'" by (auto simp: aired_def)
  then have "y = s\<lparr>dev := d', bus_trace := bus_trace s @ (ev @ ev')\<rparr>" "loaded k (payloads (ev @ ev')) = l @ l'" by simp_all
  then show ?thesis unfolding aired_def by blast
qed

lemma aired_part_trans: "aired k s l x \<Longrightarrow> aired_part k x l' y \<Longrightarrow> aired_part k s (l @ l') y"
  unfolding aired_part_def by (metis aired_trans same_prefix_prefix)

lemma aired_part_append: "aired_part k s l x \<Longrightarrow> aired_part k s (l @ l') x"
  unfolding aired_part_def by (metis prefix_prefix)

lemma airsD: "airs k m l \<Longrightarrow> wp m (\<lambda>_. aired k s l) (\<lambda>_. aired_part k s l) s"
  by (simp add: airs_def)

lemma airs_from:
  assumes "airs k m l" "aired k s l0 x"
  shows "wp m (\<lambda>_. aired k s (l0 @ l)) (\<lambda>_. aired_part k s (l0 @ l)) x"
  by (rule wp_mono [OF airsD [OF assms(1)]]) (auto intro: aired_trans [OF assms(2)] aired_part_trans [OF assms(2)])

lemma airs_bindM [airs_rules]:
  assumes "airs k m l" "\<And>v. airs k (f v) l'"
  shows "airs k (bindM m f) (l @ l')"
  unfolding airs_def wp_bindM
  by (intro allI wp_mono [OF airsD [OF assms(1)]] airs_from [OF assms(2)] aired_part_append) assumption+

lemma airs_thenM [airs_rules]: "airs k m l \<Longrightarrow> airs k n l' \<Longrightarrow> airs k (thenM m n) (l @ l')"
  unfolding thenM_def by (rule airs_bindM)

lemma airs_simple [airs_rules]:
  "airs k (ret v) []" "airs k (raise e) l" "airs k (getM g) []" "airs k (ofE r) []" "airs k (askM q) []"
  "airs k (sleepM E t) []" "airs k (monotonicM E) []" "airs k (set_line E e pin lv) []"
proof -
  show "airs k (set_line E e pin lv) []"
    unfolding airs_def by (intro allI wp_set_line airedI aired_part_dev) simp
  show "airs k (sleepM E t) []" "airs k (monotonicM E) []"
    unfolding airs_def by (intro allI wp_sleepM wp_clock aired_dev aired_part_dev)+
  show "airs k (ret v) []" "airs k (getM g) []" "airs k (askM q) []"
    by (simp_all add: airs_def aired_dev)
  show "airs k (raise e) l" "airs k (ofE r) []"
    by (simp_all add: airs_def split: sum.split)
qed

lemma payloads_xfer [simp]: "payloads (xfer_events soft pin p) = [p]"
  by (simp add: xfer_events_def)

lemma airs_xfer [airs_rules]: "airs k (xfer E p) (load_of k p)"
  unfolding airs_def
proof (intro allI wp_xfer)
  fix s :: "('a, 'b) radio_scheme" and d ev and m :: string
  show "aired k s (load_of k p) (s\<lparr>dev := d, bus_trace := bus_trace s @ xfer_events (soft_cs s) (cs_pin s) p\<rparr>)"
    by (rule airedI) simp
  assume "ev \<in> set (xfer_partial (soft_cs s) (cs_pin s) p)"
  then have "loaded k (payloads ev) = [] \<or> loaded k (payloads ev) = load_of k p"
    by (auto simp: xfer_partial_def split: if_splits)
  then show "aired_part k s (load_of k p) (s\<lparr>dev := d, bus_trace := bus_trace s @ ev\<rparr>)"
    using airedI [of k ev _ s d] by (auto intro: aired_partI)
qed

lemma airs_if [airs_rules]: "(b \<Longrightarrow> airs k m l) \<Longrightarrow> (\<not> b \<Longrightarrow> airs k n l) \<Longrightarrow> airs k (if b then m else n) l"
  by simp

lemma airs_option [airs_rules]:
  "(x = None \<Longrightarrow> airs k m l) \<Longrightarrow> (\<And>y. x = Some y \<Longrightarrow> airs k (f y) l) \<Longrightarrow>
   airs k (case x of None \<Rightarrow> m | Some y \<Rightarrow> f y) l"
  by (cases x) auto

lemma airs_loopM [airs_rules]:
  assumes "airs k body []"
  shows "airs k (loopM body) []"
  unfolding airs_def
proof
  fix s
  show "wp (loopM body) (\<lambda>_. aired k s []) (\<lambda>_. aired_part k s []) s"
  proof (rule wp_loopM [where I = "aired k s []"])
    fix x assume "aired k s [] x"
    from airs_from [OF assms this] show "wp body (\<lambda>r t. case r of None \<Rightarrow> aired k s [] t | Some y \<Rightarrow> aired k s [] t)
        (\<lambda>_. aired_part k s []) x"
      by (rule wp_mono) (simp_all split: option.split)
  qed simp
qed

lemma airs_try_finally [airs_rules]:
  fixes m :: "(('d, 'z) radio_scheme, 'a) py"
  assumes "airs k m l" "airs k h []"
  shows "airs k (try_finally m h) l"
  unfolding airs_def wp_try_finally
proof (intro allI wp_mono [OF airsD [OF assms(1)]])
  show "wp h (\<lambda>_. aired k s l) (\<lambda>_. aired_part k s l) t" if "aired k s l t" for s t
    using airs_from [OF assms(2) that] by simp
  show "wp h (\<lambda>_. aired_part k s l) (\<lambda>_. aired_part k s l) t" if part: "aired_part k s l t" for s t :: "('d, 'z) radio_scheme"
  proof -
    from part obtain l' where l': "prefix l' l" "aired k s l' t" by (auto simp: aired_part_def)
    show ?thesis by (rule wp_mono [OF airs_from [OF assms(2) l'(2)]]) 
      (auto intro: aired_partI l'(1) simp: aired_part_def dest: prefix_order.trans [OF _ l'(1)])
  qed
qed

lemma airs_eq: "airs k m l \<Longrightarrow> l = l' \<Longrightarrow> airs k m l'"
  by simp

text \<open>Silent parts of a sequence.\<close>

lemma airs_silent:
  "airs k m [] \<Longrightarrow> (\<And>v. airs k (f v) l) \<Longrightarrow> airs k (bindM m f) l"
  "airs k m [] \<Longrightarrow> airs k n l \<Longrightarrow> airs k (thenM m n) l"
  using airs_bindM [of k m "[]" f l] airs_thenM [of k m "[]" n l] by simp_all

lemma airs_last: "airs k m l \<Longrightarrow> airs k n [] \<Longrightarrow> airs k (thenM m n) l"
  using airs_thenM [of k m l n "[]"] by simp

lemma airs_radio [airs_rules]: "airs k (set_txen E on) []" "airs k (wait_irq E t) []"
  unfolding set_txen_def wait_irq_def
  by (intro airs_silent airs_rules; intro airs_silent airs_rules)+

section \<open>The drivers\<close>

lemma and_127 [simp]: "(x :: int) AND 127 \<noteq> 128"
proof -
  have "x AND 127 = x mod 128"
    using take_bit_eq_mask [of 7 x] by (simp add: take_bit_eq_mod mask_eq_exp_minus_1)
  then show ?thesis using pos_mod_bound [of 128 x] by linarith
qed

lemma load_access [simp]: "load_of SX127x [reg AND 0x7F, 0] = []" "load_of SX127x (h # bs) = (if h = 128 then [map word_of_int bs] else [])"
  "load_of SX1262 (h # off # bs) = (if h = CMD_WRITE_BUFFER \<and> off = 0 then [map word_of_int bs] else [])" "load_of SX1262 [h] = []"
  by (auto simp: load_of_def REG_FIFO_def)

lemma airs_127 [airs_rules]:
  "airs SX127x (sx127x_read E reg) []"
  "reg OR 0x80 \<noteq> 128 \<Longrightarrow> airs SX127x (sx127x_write E reg v) []"
  "airs SX127x (sx127x_mode E m) []"
proof -
  show "airs SX127x (sx127x_read E reg) []"
    unfolding sx127x_read_def by (intro airs_silent airs_rules airs_eq [OF airs_xfer]) simp
  show w: "reg OR 0x80 \<noteq> 128 \<Longrightarrow> airs SX127x (sx127x_write E reg v) []" for reg v
    unfolding sx127x_write_def by (intro airs_silent airs_rules airs_eq [OF airs_xfer]) simp
  show "airs SX127x (sx127x_mode E m) []"
    unfolding sx127x_mode_def by (intro airs_silent airs_rules w) (simp add: REG_OP_MODE_def)
qed

text \<open>A transmission that returns has loaded its packet once; receiving loads nothing.\<close>

lemma airs_127_ops:
  "airs SX127x (sx127x_transmit E data t) [data]" "airs SX127x (sx127x_start_rx E) []" "airs SX127x (sx127x_poll_rx E) []"
proof -
  have fifo: "load_of SX127x ((REG_FIFO OR 0x80) # map uint data) = [data]"
    by (simp add: REG_FIFO_def comp_def)
  note x = airs_xfer [of SX127x E "(REG_FIFO OR 0x80) # map uint data", unfolded fifo]
  have await: "airs SX127x (sx127x_await E dl) []" for dl
    unfolding sx127x_await_def by (intro airs_silent airs_rules; simp add: REG_IRQ_FLAGS_def)
  show "airs SX127x (sx127x_transmit E data t) [data]"
    unfolding sx127x_transmit_def
    by (rule airs_if, rule airs_simple, rule airs_silent, rule airs_127, rule airs_silent, rule airs_127, simp add: REG_IRQ_FLAGS_def,
        rule airs_silent, rule airs_127, simp add: REG_FIFO_ADDR_PTR_def, rule airs_last, rule x)
      (intro airs_silent airs_radio airs_127 airs_simple airs_try_finally await; simp add: REG_PAYLOAD_LENGTH_def)
  show "airs SX127x (sx127x_start_rx E) []" "airs SX127x (sx127x_poll_rx E) []"
    unfolding sx127x_start_rx_def sx127x_poll_rx_def sx127x_packet_def seqM.simps Let_def
    by (intro airs_silent airs_127 airs_simple airs_if airs_eq [OF airs_xfer]; simp add: REG_IRQ_FLAGS_def REG_FIFO_ADDR_PTR_def REG_FIFO_def)+
qed

lemma airs_wait_busy: "airs k (wait_busy E) []"
  unfolding wait_busy_def by (intro airs_silent airs_simple airs_if airs_loopM airs_option)

lemma airs_126:
  "airs SX1262 (cmd E op params) (load_of SX1262 (op # params))"
  "op \<noteq> CMD_WRITE_BUFFER \<Longrightarrow> airs SX1262 (query E op n params) []"
proof -
  show "airs SX1262 (cmd E op params) (load_of SX1262 (op # params))"
    unfolding cmd_def by (intro airs_silent airs_wait_busy airs_last airs_eq [OF airs_xfer] airs_simple) simp
  have "load_of SX1262 (op # bs) = []" if "op \<noteq> CMD_WRITE_BUFFER" for bs
    using that by (cases bs) simp_all
  then show "op \<noteq> CMD_WRITE_BUFFER \<Longrightarrow> airs SX1262 (query E op n params) []"
    unfolding query_def by (intro airs_silent airs_wait_busy airs_simple airs_eq [OF airs_xfer]) simp
qed


lemma airs_126_ops:
  "airs SX1262 (sx126x_transmit E data t) [data]" "airs SX1262 (sx126x_start_rx E) []" "airs SX1262 (sx126x_poll_rx E) []"
proof -
  note silent = airs_eq [OF airs_126(1)] airs_126(2) airs_simple airs_silent
  have irq: "airs SX1262 (irq_status E) []"
    unfolding irq_status_def by (intro silent) (simp add: sx126x_codes)
  have await: "airs SX1262 (sx126x_await E dl) []" for dl
    unfolding sx126x_await_def
    by (intro airs_loopM silent irq airs_if; simp add: sx126x_codes)
  have buf: "load_of SX1262 (CMD_WRITE_BUFFER # 0 # map uint data) = [data]" by (simp add: comp_def)
  note x = airs_126(1) [of E CMD_WRITE_BUFFER "0 # map uint data", unfolded buf]
  show "airs SX1262 (sx126x_transmit E data t) [data]"
    unfolding sx126x_transmit_def set_packet_params_def
    by (rule airs_if, rule airs_simple, rule airs_silent, rule airs_eq [OF airs_126(1)], simp add: sx126x_codes,
        rule airs_silent, rule airs_eq [OF airs_126(1)], simp add: sx126x_codes, rule airs_silent, rule airs_simple,
        rule airs_silent, rule airs_eq [OF airs_126(1)], simp add: sx126x_codes, rule airs_last, rule x)
      (intro silent airs_radio airs_try_finally await; simp add: sx126x_codes)
  show "airs SX1262 (sx126x_start_rx E) []" "airs SX1262 (sx126x_poll_rx E) []"
    unfolding sx126x_start_rx_def sx126x_poll_rx_def sx126x_packet_def seqM.simps
    by (intro silent irq airs_if; simp add: sx126x_codes)+
qed

end
