(* ===== verification/Duty.thy ===== *)
theory Duty
  imports Ledger
begin

text \<open>
  \<open>DutyAccount\<close> of \<open>loraham_rns/duty.py\<close>: the lock file and the ledger it guards, reading
  with validation and clock rebasing, the atomic replacement of the ledger, \<open>reserve\<close> and
  \<open>usage\<close>. The files are shared with other processes: \<open>peers_p\<close> of the platform says what
  they do to the lock file and the ledger whenever this process does not hold the lock.
\<close>

section \<open>Files and state\<close>

text \<open>
  What is found at the ledger's path: nothing, something that is not a regular file, something
  that cannot be read, or a file whose text is blank, is not JSON, or is the JSON value \<open>j\<close>.
\<close>

datatype content = Blank | Garbage | Doc json

datatype ledger_file = Absent | NotRegular | Unreadable errno | File content

text \<open>The temporary file: the text meant for it, the bytes written so far, whether they are synced.\<close>

record tmpfile =
  t_doc :: json
  t_written :: nat
  t_synced :: bool

record 'd duty_platform = "'d platform" +
  peers_p :: "bool \<times> ledger_file \<Rightarrow> 'd \<Rightarrow> (bool \<times> ledger_file) \<times> 'd"
  dumps_len_p :: "json \<Rightarrow> nat"

text \<open>
  The account's state: the lock file's existence, the ledger, our temporary file and
  \<open>_pending_rebase\<close>; \<open>open_fds\<close> counts the descriptors this process holds, \<open>lock_held\<close>
  is the \<open>flock\<close>, and \<open>disk\<close> is the history of what a crash at some moment would leave at
  the ledger's path because of our writes.
\<close>

record 'd acct = "'d world" +
  lock_file :: bool
  ledger :: ledger_file
  tmp :: "tmpfile option"
  pending_rebase :: bool
  open_fds :: nat
  lock_held :: bool
  disk :: "ledger_file list"

definition ledger_exists :: "'d acct \<Rightarrow> bool" where
  "ledger_exists s = (ledger s \<noteq> Absent)"

definition peersM :: "('d, 'y) duty_platform_scheme \<Rightarrow> ('d acct, unit) py" where
  "peersM E = (\<lambda>s. case peers_p E (lock_file s, ledger s) (dev s) of
     ((l, f), d) \<Rightarrow> Some (Inr (), s\<lparr>lock_file := l, ledger := f, dev := d\<rparr>))"

definition open_fd :: "('d acct, unit) py" where
  "open_fd = modM (\<lambda>s. s\<lparr>open_fds := Suc (open_fds s)\<rparr>)"

definition close_fd :: "('d acct, unit) py" where
  "close_fd = modM (\<lambda>s. s\<lparr>open_fds := open_fds s - 1\<rparr>)"

text \<open>Closing the lock file's descriptor also ends the \<open>flock\<close> taken through it.\<close>

definition close_lock_fd :: "('d acct, unit) py" where
  "close_lock_fd = modM (\<lambda>s. s\<lparr>open_fds := open_fds s - 1, lock_held := False\<rparr>)"

section \<open>Locking\<close>

definition open_existing :: "('d, 'y) duty_platform_scheme \<Rightarrow> ('d acct, unit) py" where
  "open_existing E = bindM (getM lock_file) (\<lambda>present.
     if present then thenM (osM E OpenLock) open_fd else raise (OSError ENOENT))"

definition create_lock :: "('d, 'y) duty_platform_scheme \<Rightarrow> ('d acct, unit) py" where
  "create_lock E = thenM (peersM E) (bindM (getM lock_file) (\<lambda>present.
     if present then raise (OSError EEXIST)
     else seqM [osM E CreateLock, modM (\<lambda>s. s\<lparr>lock_file := True\<rparr>), open_fd]))"

definition open_lock_file :: "('d, 'y) duty_platform_scheme \<Rightarrow> bool \<Rightarrow> ('d acct, bool) py" where
  "open_lock_file E create =
     try_except (thenM (open_existing E) (ret False)) (\<lambda>e.
       if e = OSError ENOENT then
         (if \<not> create then raise e
          else try_except (thenM (create_lock E) (ret True)) (\<lambda>e.
            if e = OSError EEXIST then thenM (open_existing E) (ret False) else raise e))
       else raise e)"

definition flock :: "('d, 'y) duty_platform_scheme \<Rightarrow> ('d acct, unit) py" where
  "flock E = bindM (monotonicM E) (\<lambda>start.
     loopM (thenM (peersM E) (bindM (askM (os_call_p E FlockEx)) (\<lambda>err.
       case err of
         None \<Rightarrow> thenM (modM (\<lambda>s. s\<lparr>lock_held := True\<rparr>)) (ret (Some ()))
       | Some e \<Rightarrow>
           if e \<noteq> EAGAIN \<and> e \<noteq> EACCES then raise (OSError e)
           else bindM (monotonicM E) (\<lambda>now.
             if now \<ge> start + LOCK_TIMEOUT_S then raise (DutyError ''airtime lock busy'')
             else thenM (sleepM E 0.02) (ret None))))))"

definition wait_ledger :: "('d, 'y) duty_platform_scheme \<Rightarrow> ('d acct, unit) py" where
  "wait_ledger E = bindM (monotonicM E) (\<lambda>start.
     loopM (bindM (getM ledger_exists) (\<lambda>there.
       if there then ret (Some ())
       else bindM (monotonicM E) (\<lambda>now.
         if now < start + LOCK_TIMEOUT_S then thenM (sleepM E 0.02) (thenM (peersM E) (ret None))
         else ret (Some ())))))"

definition open_locked :: "('d, 'y) duty_platform_scheme \<Rightarrow> bool \<Rightarrow> ('d acct, bool) py" where
  "open_locked E create = bindM (open_lock_file E create) (\<lambda>first_use.
     thenM
       (try_except
         (thenM
           (bindM (getM ledger_exists) (\<lambda>there.
              if \<not> first_use \<and> create \<and> \<not> there then wait_ledger E else ret ()))
           (flock E))
         (\<lambda>e. thenM close_lock_fd (raise e)))
       (ret first_use))"

section \<open>Reading\<close>

fun read_entries :: "('d, 'y) duty_platform_scheme \<Rightarrow> json list \<Rightarrow> ('d acct, entry list) py" where
  "read_entries E [] = ret []"
| "read_entries E (item # items) =
     bindM (ofE (parse_entry item)) (\<lambda>e.
     bindM (timeM E) (\<lambda>now.
       if fst e > now + CLOCK_SKEW_S then raise (ValueError ''clock discontinuity'')
       else bindM (read_entries E items) (\<lambda>es. ret (e # es))))"

definition clock_float :: "(string \<times> json) list \<Rightarrow> string \<Rightarrow> exn + pyfloat" where
  "clock_float clock k = (case jget clock k of None \<Rightarrow> Inl KeyError | Some v \<Rightarrow> json_float v)"

text \<open>\<open>except (KeyError, TypeError, ValueError): return entries\<close>\<close>

definition clock_fault :: "exn \<Rightarrow> bool" where
  "clock_fault e = (e = KeyError \<or> e = TypeError \<or> is_ValueError e)"

text \<open>The second component says whether the result is a new list (\<open>rebased is not entries\<close>).\<close>

definition rebase_reboot :: "('d, 'y) duty_platform_scheme \<Rightarrow> entry list \<Rightarrow> (string \<times> json) list \<Rightarrow> ('d acct, entry list \<times> bool) py" where
  "rebase_reboot E entries clock =
     (case clock_float clock ''wall'' of
        Inl e \<Rightarrow> if clock_fault e then ret (entries, False) else raise e
      | Inr wall_then \<Rightarrow> bindM (timeM E) (\<lambda>now.
          case wall_then of
            Fin w \<Rightarrow> if now - w > CLOCK_SKEW_S then ret (shift_entries (now - w) entries, True)
                    else ret (entries, False)
          | _ \<Rightarrow> ret (entries, False)))"

definition rebase_same_boot :: "('d, 'y) duty_platform_scheme \<Rightarrow> entry list \<Rightarrow> (string \<times> json) list \<Rightarrow> ('d acct, entry list \<times> bool) py" where
  "rebase_same_boot E entries clock =
     (case bindE (clock_float clock ''monotonic'') (\<lambda>m. bindE (clock_float clock ''wall'') (\<lambda>w. Inr (m, w))) of
        Inl e \<Rightarrow> if clock_fault e then ret (entries, False) else raise e
      | Inr (Fin m, Fin w) \<Rightarrow> bindM (timeM E) (\<lambda>now. bindM (monotonicM E) (\<lambda>mnow.
          let step = (now - w) - (mnow - m) in
          if \<bar>step\<bar> \<le> CLOCK_SKEW_S then ret (entries, False)
          else ret (shift_entries step entries, True)))
      | Inr _ \<Rightarrow> ret (entries, False))"

definition rebase :: "('d, 'y) duty_platform_scheme \<Rightarrow> entry list \<Rightarrow> json \<Rightarrow> ('d acct, entry list \<times> bool) py" where
  "rebase E entries clock = (case clock of
       JObj kvs \<Rightarrow>
         if entries = [] then ret (entries, False)
         else if jget kvs ''boot'' \<noteq> Some (JStr (boot_id_p E)) then rebase_reboot E entries kvs
         else rebase_same_boot E entries kvs
     | _ \<Rightarrow> ret (entries, False))"

definition parse_doc :: "('d, 'y) duty_platform_scheme \<Rightarrow> bool \<Rightarrow> json \<Rightarrow> ('d acct, entry list) py" where
  "parse_doc E first_use data =
     try_except (bindM (ofE (raw_entries first_use data)) (read_entries E))
       (\<lambda>e. if is_Exception e then raise (DutyError ''airtime state is unreadable'') else raise e)"

text \<open>
  The reader takes at most \<open>1 << 20\<close> bytes; a document longer than that is cut short and
  no longer JSON.
\<close>

definition READ_MAX :: nat where "READ_MAX = 2 ^ 20"

definition read_ledger :: "('d, 'y) duty_platform_scheme \<Rightarrow> bool \<Rightarrow> ('d acct, entry list) py" where
  "read_ledger E first_use = bindM (getM ledger) (\<lambda>f. case f of
       Absent \<Rightarrow> if first_use then ret [] else raise (DutyError ''airtime state has disappeared'')
     | NotRegular \<Rightarrow> raise (DutyError ''airtime state is not a regular file'')
     | Unreadable e \<Rightarrow> raise (DutyError ''airtime state is unreadable'')
     | File Blank \<Rightarrow> raise (DutyError ''airtime state is empty'')
     | File Garbage \<Rightarrow> raise (DutyError ''airtime state is unreadable'')
     | File (Doc data) \<Rightarrow>
         if READ_MAX < dumps_len_p E data then raise (DutyError ''airtime state is unreadable'')
         else bindM (parse_doc E first_use data) (\<lambda>entries.
         bindM (rebase E entries (doc_clock data)) (\<lambda>(rebased, new).
         thenM (modM (\<lambda>s. s\<lparr>pending_rebase := new\<rparr>)) (ret rebased))))"

section \<open>Writing\<close>

definition start_tmp :: "('d, 'y) duty_platform_scheme \<Rightarrow> json \<Rightarrow> ('d acct, unit) py" where
  "start_tmp E doc = seqM [osM E OpenTmp,
     modM (\<lambda>s. s\<lparr>tmp := Some \<lparr>t_doc = doc, t_written = 0, t_synced = False\<rparr>\<rparr>), open_fd]"

definition write_tmp :: "('d, 'y) duty_platform_scheme \<Rightarrow> json \<Rightarrow> ('d acct, unit) py" where
  "write_tmp E doc = loopM (bindM (getM (\<lambda>s. case tmp s of None \<Rightarrow> 0 | Some t \<Rightarrow> t_written t)) (\<lambda>written.
     if written < dumps_len_p E doc then
       thenM (osM E WriteTmp) (bindM (askM (os_write_p E (dumps_len_p E doc - written))) (\<lambda>n.
       thenM (modM (\<lambda>s. s\<lparr>tmp := map_option (\<lambda>t. t\<lparr>t_written := t_written t + n\<rparr>) (tmp s)\<rparr>)) (ret None)))
     else ret (Some ())))"

definition sync_tmp :: "('d, 'y) duty_platform_scheme \<Rightarrow> ('d acct, unit) py" where
  "sync_tmp E = thenM (osM E FsyncTmp)
     (modM (\<lambda>s. s\<lparr>tmp := map_option (\<lambda>t. t\<lparr>t_synced := True\<rparr>) (tmp s)\<rparr>))"

text \<open>What the ledger's path holds after the rename: a text cut short or not on disk is damaged.\<close>

definition renamed :: "('d, 'y) duty_platform_scheme \<Rightarrow> tmpfile \<Rightarrow> ledger_file" where
  "renamed E t = File (if t_written t \<ge> dumps_len_p E (t_doc t) \<and> t_synced t then Doc (t_doc t) else Garbage)"

definition rename_tmp :: "('d, 'y) duty_platform_scheme \<Rightarrow> ('d acct, unit) py" where
  "rename_tmp E = thenM (osM E RenameTmp) (modM (\<lambda>s. case tmp s of
       None \<Rightarrow> s
     | Some t \<Rightarrow> s\<lparr>ledger := renamed E t, tmp := None, disk := disk s @ [renamed E t]\<rparr>))"

definition sync_dir :: "('d, 'y) duty_platform_scheme \<Rightarrow> ('d acct, unit) py" where
  "sync_dir E = thenM (thenM (osM E OpenDir) open_fd) (try_finally (osM E FsyncDir) close_fd)"

definition replace_ledger :: "('d, 'y) duty_platform_scheme \<Rightarrow> json \<Rightarrow> ('d acct, unit) py" where
  "replace_ledger E doc = seqM
     [start_tmp E doc,
      try_finally (thenM (write_tmp E doc) (sync_tmp E)) close_fd,
      rename_tmp E,
      sync_dir E]"

definition unlink_tmp :: "('d, 'y) duty_platform_scheme \<Rightarrow> ('d acct, unit) py" where
  "unlink_tmp E = try_except (thenM (osM E UnlinkTmp) (modM (\<lambda>s. s\<lparr>tmp := None\<rparr>)))
     (\<lambda>e. if is_OSError e then ret () else raise e)"

definition write_ledger :: "('d, 'y) duty_platform_scheme \<Rightarrow> entry list \<Rightarrow> ('d acct, unit) py" where
  "write_ledger E entries = bindM (monotonicM E) (\<lambda>m. bindM (timeM E) (\<lambda>w.
     try_except (replace_ledger E (ledger_doc (boot_id_p E) m w entries))
       (\<lambda>e. if is_OSError e then thenM (unlink_tmp E) (raise (DutyError ''airtime state could not be written''))
            else raise e)))"

section \<open>Accounting\<close>

definition unlock :: "('d, 'y) duty_platform_scheme \<Rightarrow> ('d acct, unit) py" where
  "unlock E = try_finally
     (try_except (thenM (osM E FlockUn) (modM (\<lambda>s. s\<lparr>lock_held := False\<rparr>)))
        (\<lambda>e. if is_OSError e then raise (DutyError ''airtime lock could not be released'') else raise e))
     close_lock_fd"

text \<open>The decision of \<open>reserve\<close> on the entries of the window, and the part of it under the lock.\<close>

definition decide ::
  "('d, 'y) duty_platform_scheme \<Rightarrow> duty_cfg \<Rightarrow> real \<Rightarrow> entry list \<Rightarrow> real \<Rightarrow> ('d acct, bool \<times> string) py" where
  "decide E cfg now entries airtime =
     (if short_window cfg = 0 \<or> long_window cfg = 0 then raise ZeroDivisionError
      else bindM (getM pending_rebase) (\<lambda>pend.
        thenM (if pend then thenM (write_ledger E entries) (modM (\<lambda>s. s\<lparr>pending_rebase := False\<rparr>)) else ret ())
        (case verdict cfg entries now airtime of
           Some why \<Rightarrow> ret (False, why)
         | None \<Rightarrow> thenM (write_ledger E (entries @ [(now, airtime)])) (ret (True, [])))))"

definition reserve_locked ::
  "('d, 'y) duty_platform_scheme \<Rightarrow> duty_cfg \<Rightarrow> bool \<Rightarrow> real \<Rightarrow> ('d acct, bool \<times> string) py" where
  "reserve_locked E cfg first_use airtime =
     bindM (timeM E) (\<lambda>now.
     bindM (read_ledger E first_use) (\<lambda>all.
       let entries = prune cfg now all in
       thenM (if first_use then write_ledger E entries else ret ())
       (decide E cfg now entries airtime)))"

definition reserve ::
  "('d, 'y) duty_platform_scheme \<Rightarrow> duty_cfg \<Rightarrow> real \<Rightarrow> ('d acct, bool \<times> string) py" where
  "reserve E cfg airtime = bindM (open_locked E True) (\<lambda>first_use.
     try_finally (reserve_locked E cfg first_use airtime) (unlock E))"

definition usage_locked ::
  "('d, 'y) duty_platform_scheme \<Rightarrow> duty_cfg \<Rightarrow> ('d acct, pyfloat \<times> pyfloat) py" where
  "usage_locked E cfg =
     try_except
       (bindM (timeM E) (\<lambda>now. bindM (read_ledger E False) (\<lambda>entries.
          if short_window cfg = 0 \<or> long_window cfg = 0 then raise ZeroDivisionError
          else ret (Fin (used entries (short_window cfg) now / short_window cfg * 100),
                    Fin (used entries (long_window cfg) now / long_window cfg * 100)))))
       (\<lambda>e. if is_DutyError e then ret (NaN, NaN) else raise e)"

definition usage ::
  "('d, 'y) duty_platform_scheme \<Rightarrow> duty_cfg \<Rightarrow> ('d acct, pyfloat \<times> pyfloat) py" where
  "usage E cfg =
     bindM (try_except (thenM (open_locked E False) (ret True))
              (\<lambda>e. if is_OSError e then ret False else raise e)) (\<lambda>opened.
       if opened then try_finally (usage_locked E cfg) (unlock E) else ret (Fin 0, Fin 0))"

section \<open>Writing: what a write leaves\<close>

text \<open>The fields no write touches.\<close>

definition same_lock :: "'d acct \<Rightarrow> 'd acct \<Rightarrow> bool" where
  "same_lock s0 s \<longleftrightarrow> lock_file s = lock_file s0 \<and> pending_rebase s = pending_rebase s0 \<and>
     open_fds s = open_fds s0 \<and> lock_held s = lock_held s0"

definition untouched :: "'d acct \<Rightarrow> 'd acct \<Rightarrow> bool" where
  "untouched s0 s \<longleftrightarrow> ledger s = ledger s0 \<and> disk s = disk s0"

definition replaced :: "json \<Rightarrow> 'd acct \<Rightarrow> 'd acct \<Rightarrow> bool" where
  "replaced doc s0 s \<longleftrightarrow> ledger s = File (Doc doc) \<and> disk s = disk s0 @ [File (Doc doc)]"

lemma same_fields [simp]:
  "same_lock a (s\<lparr>dev := d\<rparr>) = same_lock a s" "same_lock (a\<lparr>dev := d\<rparr>) s = same_lock a s"
  "same_lock a (s\<lparr>tmp := y\<rparr>) = same_lock a s" "same_lock a (s\<lparr>ledger := f\<rparr>) = same_lock a s"
  "same_lock a (s\<lparr>disk := h\<rparr>) = same_lock a s" "same_lock a (s\<lparr>open_fds := open_fds s\<rparr>) = same_lock a s"
  "untouched a (s\<lparr>dev := d\<rparr>) = untouched a s" "untouched (a\<lparr>dev := d\<rparr>) s = untouched a s"
  "untouched a (s\<lparr>tmp := y\<rparr>) = untouched a s" "untouched a (s\<lparr>open_fds := n\<rparr>) = untouched a s"
  "replaced doc a (s\<lparr>dev := d\<rparr>) = replaced doc a s" "replaced doc (a\<lparr>dev := d\<rparr>) s = replaced doc a s"
  "replaced doc a (s\<lparr>tmp := y\<rparr>) = replaced doc a s" "replaced doc a (s\<lparr>open_fds := n\<rparr>) = replaced doc a s"
  by (simp_all add: same_lock_def untouched_def replaced_def)

lemma same_refl [simp]: "same_lock s s" "untouched s s"
  by (simp_all add: same_lock_def untouched_def)

lemma same_trans:
  "same_lock s t \<Longrightarrow> same_lock t x \<Longrightarrow> same_lock s x"
  "untouched s t \<Longrightarrow> untouched t x \<Longrightarrow> untouched s x"
  "replaced doc s t \<Longrightarrow> untouched t x \<Longrightarrow> replaced doc s x"
  by (simp_all add: same_lock_def untouched_def replaced_def)

lemma replaced_after: "untouched s t \<Longrightarrow> replaced doc t x \<Longrightarrow> replaced doc s x"
  by (simp add: replaced_def untouched_def)

lemma wp_peersM:
  "(\<And>l f d. Q () (s\<lparr>lock_file := l, ledger := f, dev := d\<rparr>)) \<Longrightarrow> wp (peersM E) Q X s"
  by (simp add: wp_def peersM_def split: prod.split)

lemmas wp_platform = wp_osM wp_clock wp_sleepM wp_peersM

lemma wp_write_tmp:
  assumes "tmp s = Some t"
    and "\<And>u x. same_lock s x \<Longrightarrow> untouched s x \<Longrightarrow> tmp x = Some (t\<lparr>t_written := u\<rparr>) \<Longrightarrow>
      dumps_len_p E doc \<le> u \<Longrightarrow> Q () x"
    and "\<And>e x. same_lock s x \<Longrightarrow> untouched s x \<Longrightarrow> X (OSError e) x"
  shows "wp (write_tmp E doc) Q X s"
  unfolding write_tmp_def
proof (rule wp_loopM [where I = "\<lambda>x. same_lock s x \<and> untouched s x \<and> (\<exists>u. tmp x = Some (t\<lparr>t_written := u\<rparr>))"])
  show "same_lock s s \<and> untouched s s \<and> (\<exists>u. tmp s = Some (t\<lparr>t_written := u\<rparr>))"
    by (auto simp: same_lock_def untouched_def assms(1) intro!: exI [of _ "t_written t"])
  have keep: "same_lock s (x\<lparr>dev := d\<rparr>) = same_lock s x" "untouched s (x\<lparr>dev := d\<rparr>) = untouched s x"
    "same_lock s (x\<lparr>dev := d, tmp := y\<rparr>) = same_lock s x" "untouched s (x\<lparr>dev := d, tmp := y\<rparr>) = untouched s x" for x d y
    by (simp_all add: same_lock_def untouched_def)
  show "wp (bindM (getM (\<lambda>s. case tmp s of None \<Rightarrow> 0 | Some t \<Rightarrow> t_written t)) (\<lambda>written.
      if written < dumps_len_p E doc then
        thenM (osM E WriteTmp) (bindM (askM (os_write_p E (dumps_len_p E doc - written))) (\<lambda>n.
        thenM (modM (\<lambda>s. s\<lparr>tmp := map_option (\<lambda>t. t\<lparr>t_written := t_written t + n\<rparr>) (tmp s)\<rparr>)) (ret None)))
      else ret (Some ())))
    (\<lambda>r x. case r of None \<Rightarrow> same_lock s x \<and> untouched s x \<and> (\<exists>u. tmp x = Some (t\<lparr>t_written := u\<rparr>)) | Some z \<Rightarrow> Q z x) X y"
    if "same_lock s y \<and> untouched s y \<and> (\<exists>u. tmp y = Some (t\<lparr>t_written := u\<rparr>))" for y
    using that by (auto simp: keep not_less intro!: wp_osM assms(2,3))
qed

lemma wp_sync_tmp:
  assumes "tmp s = Some t"
    and "\<And>x. same_lock s x \<Longrightarrow> untouched s x \<Longrightarrow> tmp x = Some (t\<lparr>t_synced := True\<rparr>) \<Longrightarrow> Q () x"
    and "\<And>e x. same_lock s x \<Longrightarrow> untouched s x \<Longrightarrow> X (OSError e) x"
  shows "wp (sync_tmp E) Q X s"
  unfolding sync_tmp_def wp_thenM wp_modM
  by (rule wp_osM) (simp_all add: assms)

lemma same_closed:
  "same_lock s x \<Longrightarrow> same_lock (s\<lparr>open_fds := open_fds s - 1\<rparr>) (x\<lparr>open_fds := open_fds x - 1\<rparr>)"
  by (simp add: same_lock_def)

lemma wp_fill_tmp:
  assumes "tmp s = Some t"
    and "\<And>u x. same_lock (s\<lparr>open_fds := open_fds s - 1\<rparr>) x \<Longrightarrow> untouched s x \<Longrightarrow>
      tmp x = Some (t\<lparr>t_written := u, t_synced := True\<rparr>) \<Longrightarrow> dumps_len_p E doc \<le> u \<Longrightarrow> Q () x"
    and "\<And>e x. same_lock (s\<lparr>open_fds := open_fds s - 1\<rparr>) x \<Longrightarrow> untouched s x \<Longrightarrow> X (OSError e) x"
  shows "wp (try_finally (thenM (write_tmp E doc) (sync_tmp E)) close_fd) Q X s"
  unfolding wp_try_finally wp_thenM close_fd_def wp_modM
proof (rule wp_write_tmp [OF assms(1)], erule_tac [1] wp_sync_tmp)
  fix u x y
  assume "same_lock s x" "untouched s x" "dumps_len_p E doc \<le> u" "same_lock x y" "untouched x y"
    and "tmp y = Some (t\<lparr>t_written := u, t_synced := True\<rparr>)"
  then show "Q () (y\<lparr>open_fds := open_fds y - 1\<rparr>)"
    by (intro assms(2) [of _ u]) (auto intro: same_closed [simplified] same_trans)
qed (rule assms(3); auto intro: same_closed [simplified] same_trans)+

lemma wp_start_tmp:
  assumes "\<And>x. same_lock (s\<lparr>open_fds := Suc (open_fds s)\<rparr>) x \<Longrightarrow> untouched s x \<Longrightarrow>
      tmp x = Some \<lparr>t_doc = doc, t_written = 0, t_synced = False\<rparr> \<Longrightarrow> Q () x"
    and "\<And>e x. same_lock s x \<Longrightarrow> untouched s x \<Longrightarrow> X (OSError e) x"
  shows "wp (start_tmp E doc) Q X s"
  unfolding start_tmp_def seqM.simps wp_thenM open_fd_def
  by (rule wp_osM) (auto intro!: assms simp: same_lock_def untouched_def)

lemma wp_rename_tmp:
  assumes "tmp s = Some t" "renamed E t = File (Doc doc)"
    and "\<And>x. same_lock s x \<Longrightarrow> replaced doc s x \<Longrightarrow> Q () x"
    and "\<And>e x. same_lock s x \<Longrightarrow> untouched s x \<Longrightarrow> X (OSError e) x"
  shows "wp (rename_tmp E) Q X s"
  unfolding rename_tmp_def wp_thenM wp_modM
  by (rule wp_osM) (simp_all add: assms same_lock_def replaced_def)

lemma wp_sync_dir:
  assumes "\<And>x. same_lock s x \<Longrightarrow> untouched s x \<Longrightarrow> Q () x"
    and "\<And>e x. same_lock s x \<Longrightarrow> untouched s x \<Longrightarrow> X (OSError e) x"
  shows "wp (sync_dir E) Q X s"
  unfolding sync_dir_def wp_thenM wp_try_finally open_fd_def close_fd_def wp_modM
  by (intro wp_osM) (rule assms; simp add: same_lock_def untouched_def)+

lemma wp_replace_ledger:
  "wp (replace_ledger E doc)
     (\<lambda>_ s. same_lock s0 s \<and> replaced doc s0 s)
     (\<lambda>e s. is_OSError e \<and> same_lock s0 s \<and> (untouched s0 s \<or> replaced doc s0 s)) s0"
proof -
  let ?Q = "\<lambda>_ s. same_lock s0 s \<and> replaced doc s0 s"
  let ?X = "\<lambda>e s. is_OSError e \<and> same_lock s0 s \<and> (untouched s0 s \<or> replaced doc s0 s)"
  have dir: "wp (sync_dir E) ?Q ?X s" if "same_lock s0 s" "replaced doc s0 s" for s
    by (rule wp_sync_dir) (use that in \<open>auto intro: same_trans\<close>)
  have finish: "wp (thenM (rename_tmp E) (thenM (sync_dir E) (ret ()))) ?Q ?X s"
    if "same_lock s0 s" "untouched s0 s" "tmp s = Some t" "renamed E t = File (Doc doc)" for s t
    unfolding wp_thenM wp_ret
    by (rule wp_rename_tmp [OF that(3,4)])
      (use that(1,2) in \<open>auto intro!: dir elim: same_trans replaced_after\<close>)
  have fill: "wp (thenM (try_finally (thenM (write_tmp E doc) (sync_tmp E)) close_fd)
      (thenM (rename_tmp E) (thenM (sync_dir E) (ret ())))) ?Q ?X s"
    if "same_lock (s0\<lparr>open_fds := Suc (open_fds s0)\<rparr>) s" "untouched s0 s"
      "tmp s = Some \<lparr>t_doc = doc, t_written = 0, t_synced = False\<rparr>" for s
    unfolding wp_thenM [of "try_finally (thenM (write_tmp E doc) (sync_tmp E)) close_fd"]
    by (rule wp_fill_tmp [OF that(3)], rule finish)
      (use that(1,2) in \<open>simp_all add: same_lock_def untouched_def renamed_def\<close>, simp)
  show ?thesis
    unfolding replace_ledger_def seqM.simps wp_thenM [of "start_tmp E doc"]
    by (rule wp_start_tmp) (rule fill, assumption+, simp)
qed

lemma wp_unlink_tmp:
  "(\<And>x. same_lock s x \<Longrightarrow> untouched s x \<Longrightarrow> Q () x) \<Longrightarrow> wp (unlink_tmp E) Q X s"
  unfolding unlink_tmp_def
  by (auto intro!: wp_osM simp: same_lock_def untouched_def)

text \<open>
  A write that returns has replaced the ledger by the document of its entries; one that raises
  has left the ledger as it was or has replaced it.
\<close>

lemma wp_write_ledger:
  assumes "\<And>m w t. same_lock s t \<Longrightarrow> replaced (ledger_doc (boot_id_p E) m w es) s t \<Longrightarrow> Q () t"
    and "\<And>t. same_lock s t \<Longrightarrow> untouched s t \<Longrightarrow> X (DutyError ''airtime state could not be written'') t"
    and "\<And>m w t. same_lock s t \<Longrightarrow> replaced (ledger_doc (boot_id_p E) m w es) s t \<Longrightarrow>
      X (DutyError ''airtime state could not be written'') t"
  shows "wp (write_ledger E es) Q X s"
  unfolding write_ledger_def wp_bindM wp_try_except
  by (intro wp_clock wp_mono [OF wp_replace_ledger])
    (auto intro!: wp_unlink_tmp intro: assms(1) assms(2) [OF same_trans(1,2)] assms(3) [OF same_trans(1,3)])

section \<open>Reading: what a read yields\<close>

lemma float_of_int_Inl: "float_of_int i = Inl e \<Longrightarrow> e = OverflowError"
  by (auto simp: float_of_int_def split: pyfloat.splits)

lemma json_float_Inl: "json_float j = Inl e \<Longrightarrow> is_Exception e"
  by (cases j) (auto dest: float_of_int_Inl split: option.splits if_splits)

lemma plausible_Inl: "plausible t a = Inl e \<Longrightarrow> is_Exception e"
  by (cases t; cases a) (auto simp: plausible_def split: if_splits)

lemma parse_entry_Inl: "parse_entry j = Inl e \<Longrightarrow> is_Exception e"
  by (auto simp: parse_entry_def bindE_Inl_iff dest: plausible_Inl json_float_Inl
    split: json.splits list.splits if_splits)

lemma raw_entries_Inl: "raw_entries fu j = Inl e \<Longrightarrow> is_Exception e"
  by (auto simp: raw_entries_def split: json.splits option.splits if_splits)

lemma mapE_parse_positive: "mapE parse_entry items = Inr es \<Longrightarrow> positive es"
  by (induction items arbitrary: es) (auto simp: bindE_Inr_iff dest: parse_entry_positive)

lemma mapE_entry_json: "positive es \<Longrightarrow> mapE parse_entry (map entry_json es) = Inr es"
  by (induction es) auto

lemma wp_read_entries:
  assumes "\<And>es d. mapE parse_entry items = Inr es \<Longrightarrow> Q es (s\<lparr>dev := d\<rparr>)"
    and "\<And>e d. is_Exception e \<Longrightarrow> X e (s\<lparr>dev := d\<rparr>)"
  shows "wp (read_entries E items) Q X s"
  using assms
proof (induction items arbitrary: Q s)
  case Nil
  from Nil(1) [of "[]" "dev s"] show ?case by simp
next
  case (Cons item items)
  show ?case
  proof (cases "parse_entry item")
    case (Inl e)
    with Cons(3) [of e "dev s"] show ?thesis by (simp add: parse_entry_Inl)
  next
    case (Inr e)
    show ?thesis
      unfolding read_entries.simps wp_bindM wp_ofE Inr sum.case
      by (rule wp_clock) (auto intro!: Cons.IH Cons.prems simp: Inr)
  qed
qed

text \<open>The entries a document holds, when it passes every check but the one against the clock.\<close>

definition doc_entries :: "bool \<Rightarrow> json \<Rightarrow> entry list option" where
  "doc_entries fu data = (case bindE (raw_entries fu data) (mapE parse_entry) of
     Inl _ \<Rightarrow> None | Inr es \<Rightarrow> Some es)"

lemma doc_entries_doc [simp]: "positive es \<Longrightarrow> doc_entries fu (ledger_doc b m w es) = Some es"
  by (simp add: doc_entries_def mapE_entry_json)

lemma doc_entries_positive: "doc_entries fu data = Some es \<Longrightarrow> positive es"
  by (auto simp: doc_entries_def bindE_def mapE_parse_positive split: sum.splits)

lemma wp_parse_doc:
  assumes "\<And>es d. doc_entries fu data = Some es \<Longrightarrow> Q es (s\<lparr>dev := d\<rparr>)"
    and "\<And>d. X (DutyError ''airtime state is unreadable'') (s\<lparr>dev := d\<rparr>)"
  shows "wp (parse_doc E fu data) Q X s"
proof (cases "raw_entries fu data")
  case (Inl e)
  with assms(2) [of "dev s"] show ?thesis by (simp add: parse_doc_def raw_entries_Inl)
next
  case (Inr items)
  then show ?thesis
    unfolding parse_doc_def wp_try_except wp_bindM wp_ofE
    by (auto intro!: wp_read_entries assms simp: doc_entries_def)
qed

lemma wp_rebase_reboot:
  assumes "\<And>d. Q (es, False) (s\<lparr>dev := d\<rparr>)"
    and "\<And>step d. CLOCK_SKEW_S < \<bar>step\<bar> \<Longrightarrow> Q (shift_entries step es, True) (s\<lparr>dev := d\<rparr>)"
    and "\<And>e. X e s"
  shows "wp (rebase_reboot E es kvs) Q X s"
  unfolding rebase_reboot_def using assms(1) [of "dev s"]
  by (auto split: sum.split pyfloat.split intro!: assms wp_clock simp: CLOCK_SKEW_S_def)

lemma wp_rebase_same_boot:
  assumes "\<And>d. Q (es, False) (s\<lparr>dev := d\<rparr>)"
    and "\<And>step d. CLOCK_SKEW_S < \<bar>step\<bar> \<Longrightarrow> Q (shift_entries step es, True) (s\<lparr>dev := d\<rparr>)"
    and "\<And>e. X e s"
  shows "wp (rebase_same_boot E es kvs) Q X s"
  unfolding rebase_same_boot_def using assms(1) [of "dev s"]
  by (auto split: sum.split pyfloat.split prod.split intro!: assms wp_clock simp: Let_def)

lemma wp_rebase:
  assumes "\<And>d. Q (es, False) (s\<lparr>dev := d\<rparr>)"
    and "\<And>step d. CLOCK_SKEW_S < \<bar>step\<bar> \<Longrightarrow> Q (shift_entries step es, True) (s\<lparr>dev := d\<rparr>)"
    and "\<And>e. X e s"
  shows "wp (rebase E es clock) Q X s"
  unfolding rebase_def using assms assms(1) [of "dev s"]
  by (auto split: json.split intro!: wp_rebase_reboot wp_rebase_same_boot)

text \<open>
  The ledger \<open>read_ledger\<close> accepts and the entries it stands for; everything else is damaged.
\<close>

definition ledger_entries :: "('d, 'y) duty_platform_scheme \<Rightarrow> bool \<Rightarrow> ledger_file \<Rightarrow> entry list option" where
  "ledger_entries E fu f = (case f of
       Absent \<Rightarrow> if fu then Some [] else None
     | File (Doc data) \<Rightarrow> if READ_MAX < dumps_len_p E data then None else doc_entries fu data
     | _ \<Rightarrow> None)"

lemma ledger_entries_positive: "ledger_entries E fu f = Some es \<Longrightarrow> positive es"
  by (auto simp: ledger_entries_def doc_entries_positive
    split: ledger_file.splits content.splits if_splits)

text \<open>A read hands out the entries of the ledger, as they are or all moved by one clock step.\<close>

lemma wp_read_ledger:
  assumes "\<And>es. ledger_entries E fu (ledger s) = Some es \<Longrightarrow> ledger s = Absent \<Longrightarrow> Q es s"
    and "\<And>es d. ledger_entries E fu (ledger s) = Some es \<Longrightarrow> Q es (s\<lparr>dev := d, pending_rebase := False\<rparr>)"
    and "\<And>es step d. ledger_entries E fu (ledger s) = Some es \<Longrightarrow> CLOCK_SKEW_S < \<bar>step\<bar> \<Longrightarrow>
      Q (shift_entries step es) (s\<lparr>dev := d, pending_rebase := True\<rparr>)"
    and "\<And>m d. X (DutyError m) (s\<lparr>dev := d\<rparr>)"
    and "\<And>e d. ledger_entries E fu (ledger s) \<noteq> None \<Longrightarrow> X e (s\<lparr>dev := d\<rparr>)"
  shows "wp (read_ledger E fu) Q X s"
proof -
  have X0: "X (DutyError m) s" for m using assms(4) [of m "dev s"] by simp
  show ?thesis
  proof (cases "ledger s")
    case Absent
    with assms(1) X0 show ?thesis by (simp add: read_ledger_def ledger_entries_def)
  next
    case (File c)
    show ?thesis
    proof (cases c)
      case (Doc data)
      show ?thesis
      proof (cases "READ_MAX < dumps_len_p E data")
        case False
        then have eq: "ledger_entries E fu (ledger s) = doc_entries fu data"
          by (simp add: File Doc ledger_entries_def)
        show ?thesis
          unfolding read_ledger_def wp_bindM wp_getM File Doc ledger_file.case content.case if_not_P [OF False]
          by (rule wp_parse_doc; (rule wp_rebase)?) (auto simp: eq intro: assms)
      qed (simp add: read_ledger_def File Doc X0)
    qed (simp_all add: read_ledger_def File X0)
  qed (simp_all add: read_ledger_def X0)
qed

section \<open>Locking: what the lock protocol leaves\<close>

definition files :: "'d acct \<Rightarrow> bool \<times> ledger_file" where
  "files s = (lock_file s, ledger s)"

text \<open>A property of the two files that other processes keep and creating the lock file keeps.\<close>

definition peers_keep :: "('d, 'y) duty_platform_scheme \<Rightarrow> (bool \<times> ledger_file \<Rightarrow> bool) \<Rightarrow> bool" where
  "peers_keep E P \<longleftrightarrow> (\<forall>x d. P x \<longrightarrow> P (fst (peers_p E x d))) \<and> (\<forall>f. P (False, f) \<longrightarrow> P (True, f))"

text \<open>The fields the lock protocol leaves alone, with the descriptor count and lock it ends with.\<close>

definition frame_lock :: "nat \<Rightarrow> bool \<Rightarrow> 'd acct \<Rightarrow> 'd acct \<Rightarrow> bool" where
  "frame_lock n h s0 s \<longleftrightarrow> disk s = disk s0 \<and> tmp s = tmp s0 \<and> pending_rebase s = pending_rebase s0 \<and>
     open_fds s = n \<and> lock_held s = h"

lemma frame_lock_simps [simp]:
  "frame_lock n h s (x\<lparr>dev := d\<rparr>) = frame_lock n h s x"
  "frame_lock n h s (x\<lparr>lock_file := l\<rparr>) = frame_lock n h s x"
  "frame_lock n h s (x\<lparr>ledger := f\<rparr>) = frame_lock n h s x"
  "frame_lock (open_fds s) (lock_held s) s s"
  "files (s\<lparr>dev := d\<rparr>) = files s" "files (s\<lparr>open_fds := n\<rparr>) = files s" "files (s\<lparr>lock_held := h\<rparr>) = files s"
  "files (s\<lparr>tmp := t\<rparr>) = files s" "files (s\<lparr>pending_rebase := b\<rparr>) = files s"
  "lock_held (s\<lparr>dev := d\<rparr>) = lock_held s" "open_fds (s\<lparr>dev := d\<rparr>) = open_fds s"
  by (simp_all add: frame_lock_def files_def)

lemma frame_lock_trans: "frame_lock n h s x \<Longrightarrow> frame_lock n' h' x y \<Longrightarrow> frame_lock n' h' s y"
  by (simp add: frame_lock_def)

lemma frame_lock_step:
  "frame_lock n h s x \<Longrightarrow> frame_lock (open_fds x) (lock_held x) x y \<Longrightarrow> frame_lock n h s y"
  "frame_lock n h s x \<Longrightarrow> frame_lock (Suc (open_fds x)) (lock_held x) x y \<Longrightarrow> frame_lock (Suc n) h s y"
  by (auto simp: frame_lock_def)

lemma frame_lock_fields: "frame_lock n h s x \<Longrightarrow> open_fds x = n \<and> lock_held x = h"
  by (simp add: frame_lock_def)

lemma wp_peers:
  assumes "peers_keep E P" "P (files s)"
    and "\<And>x. frame_lock (open_fds s) (lock_held s) s x \<Longrightarrow> P (files x) \<Longrightarrow> Q () x"
  shows "wp (peersM E) Q X s"
proof -
  obtain l f d where p: "peers_p E (files s) (dev s) = ((l, f), d)" by (metis prod.exhaust)
  then have "P (l, f)" using assms(1,2) unfolding peers_keep_def by (metis fst_conv)
  then have "Q () (s\<lparr>lock_file := l, ledger := f, dev := d\<rparr>)"
    by (intro assms(3)) (simp_all add: files_def)
  then show ?thesis using p by (simp add: wp_def peersM_def files_def)
qed

lemma wp_open_existing:
  assumes "\<And>x. frame_lock (Suc (open_fds s)) (lock_held s) s x \<Longrightarrow> files x = files s \<Longrightarrow> Q () x"
    and "\<And>e x. frame_lock (open_fds s) (lock_held s) s x \<Longrightarrow> files x = files s \<Longrightarrow>
      e = ENOENT \<or> lock_file s \<Longrightarrow> X (OSError e) x"
  shows "wp (open_existing E) Q X s"
proof (cases "lock_file s")
  case True
  then show ?thesis
    unfolding open_existing_def wp_bindM wp_getM if_P [OF True] wp_thenM open_fd_def wp_modM
    by (intro wp_osM) (auto intro!: assms simp: frame_lock_def)
qed (simp add: open_existing_def assms)

lemma wp_create_lock:
  assumes "peers_keep E P" "P (files s)"
    and "\<And>x f. frame_lock (Suc (open_fds s)) (lock_held s) s x \<Longrightarrow> P (False, f) \<Longrightarrow> P (files x) \<Longrightarrow> Q () x"
    and "\<And>e x. frame_lock (open_fds s) (lock_held s) s x \<Longrightarrow> P (files x) \<Longrightarrow> X (OSError e) x"
  shows "wp (create_lock E) Q X s"
  unfolding create_lock_def wp_thenM wp_bindM wp_getM
proof (rule wp_peers [OF assms(1,2)])
  fix x
  assume x: "frame_lock (open_fds s) (lock_held s) s x" "P (files x)"
  show "wp (if lock_file x then raise (OSError EEXIST)
      else seqM [osM E CreateLock, modM (lock_file_update (\<lambda>_. True)), open_fd]) Q X x"
  proof (cases "lock_file x")
    case False
    have P: "P (False, ledger x)" using x(2) False by (simp add: files_def)
    then have "P (True, ledger x)" using assms(1) by (simp add: peers_keep_def)
    with P x show ?thesis
      unfolding if_not_P [OF False] seqM.simps wp_thenM wp_modM wp_ret open_fd_def
      by (intro wp_osM) (auto intro!: assms(3) [of _ "ledger x"] assms(4) simp: frame_lock_def files_def)
  qed (use x in \<open>simp add: assms(4)\<close>)
qed

lemma wp_open_lock_file:
  assumes P: "peers_keep E P" "P (files s)"
    and Q: "\<And>fu x. frame_lock (Suc (open_fds s)) (lock_held s) s x \<Longrightarrow> P (files x) \<Longrightarrow>
      (fu \<longrightarrow> create \<and> (\<exists>f. P (False, f))) \<Longrightarrow> Q fu x"
    and X: "\<And>e x. frame_lock (open_fds s) (lock_held s) s x \<Longrightarrow> P (files x) \<Longrightarrow> X (OSError e) x"
  shows "wp (open_lock_file E create) Q X s"
proof -
  have again: "wp (open_existing E) (\<lambda>_. wp (ret False) Q X) X x"
    if x: "frame_lock (open_fds s) (lock_held s) s x" "P (files x)" for x
    unfolding wp_ret
    by (rule wp_open_existing)
      (use x in \<open>auto intro!: Q X intro: frame_lock_step\<close>)
  have fresh: "wp (try_except (thenM (create_lock E) (ret True)) (\<lambda>e. if e = OSError EEXIST
      then thenM (open_existing E) (ret False) else raise e)) Q X x"
    if x: "frame_lock (open_fds s) (lock_held s) s x" "P (files x)" create for x
    unfolding wp_try_except wp_thenM [of "create_lock E"] wp_ret
    by (rule wp_create_lock [OF P(1) x(2)])
      (use x in \<open>auto intro!: Q X again intro: frame_lock_step\<close>)
  show ?thesis
    unfolding open_lock_file_def wp_try_except [of "thenM (open_existing E) (ret False)"]
      wp_thenM [of "open_existing E"] wp_ret
    by (rule wp_open_existing) (use P(2) in \<open>auto intro!: Q X fresh simp del: wp_try_except\<close>)
qed

lemma wp_flock:
  assumes P: "peers_keep E P" "P (files s)"
    and Q: "\<And>x. frame_lock (open_fds s) True s x \<Longrightarrow> P (files x) \<Longrightarrow> Q () x"
    and X: "\<And>e x. frame_lock (open_fds s) (lock_held s) s x \<Longrightarrow> P (files x) \<Longrightarrow> X e x"
  shows "wp (flock E) Q X s"
proof -
  let ?I = "\<lambda>x. frame_lock (open_fds s) (lock_held s) s x \<and> P (files x)"
  have held: "frame_lock (open_fds s) True s (x\<lparr>dev := d, lock_held := True\<rparr>)" if "?I x" for x d
    using that by (simp add: frame_lock_def)
  show ?thesis
    unfolding flock_def wp_bindM
  proof (rule wp_clock, rule wp_loopM [where I = ?I], goal_cases)
    case (2 start d y)
    show ?case
      unfolding wp_thenM wp_bindM wp_askM
    proof (rule wp_peers [OF P(1)])
      fix x
      assume "frame_lock (open_fds y) (lock_held y) y x" "P (files x)"
      with 2 have I: "?I x" by (auto intro: frame_lock_step)
      show "wp (case fst (os_call_p E FlockEx (dev x)) of
          None \<Rightarrow> thenM (modM (lock_held_update (\<lambda>_. True))) (ret (Some ()))
        | Some e \<Rightarrow> if e \<noteq> EAGAIN \<and> e \<noteq> EACCES then raise (OSError e)
            else bindM (monotonicM E) (\<lambda>now. if start + LOCK_TIMEOUT_S \<le> now
              then raise (DutyError ''airtime lock busy'') else thenM (sleepM E 0.02) (ret None)))
          (\<lambda>r x. case r of None \<Rightarrow> ?I x | Some a \<Rightarrow> Q a x) X (x\<lparr>dev := snd (os_call_p E FlockEx (dev x))\<rparr>)"
        using I by (auto split: option.split intro!: X Q held wp_clock wp_sleepM)
    qed (use 2 in simp)
  qed (use P in simp)
qed

lemma wp_wait_ledger:
  assumes P: "peers_keep E P" "P (files s)"
    and Q: "\<And>x. frame_lock (open_fds s) (lock_held s) s x \<Longrightarrow> P (files x) \<Longrightarrow> Q () x"
    and X: "\<And>e x. frame_lock (open_fds s) (lock_held s) s x \<Longrightarrow> P (files x) \<Longrightarrow> X e x"
  shows "wp (wait_ledger E) Q X s"
proof -
  let ?I = "\<lambda>x. frame_lock (open_fds s) (lock_held s) s x \<and> P (files x)"
  have again: "wp (thenM (peersM E) (ret None)) (\<lambda>r x. case r of None \<Rightarrow> ?I x | Some a \<Rightarrow> Q a x) X x"
    if "?I x" for x
    unfolding wp_thenM
    by (rule wp_peers [OF P(1)]) (use that in \<open>auto intro: frame_lock_step\<close>)
  show ?thesis
    unfolding wait_ledger_def wp_bindM
  proof (rule wp_clock, rule wp_loopM [where I = ?I], goal_cases)
    case (2 start d x)
    then show ?case
      using again [of "x\<lparr>dev := d\<rparr>" for d]
      by (auto intro!: wp_clock Q X wp_sleepM simp del: wp_thenM simp: wp_thenM [of "sleepM E t" for t])
  qed (use P in simp)
qed

lemma wp_open_locked:
  assumes P: "peers_keep E P" "P (files s)" and free: "\<not> lock_held s"
    and Q: "\<And>fu x. frame_lock (Suc (open_fds s)) True s x \<Longrightarrow> P (files x) \<Longrightarrow>
      (fu \<longrightarrow> create \<and> (\<exists>f. P (False, f))) \<Longrightarrow> Q fu x"
    and X: "\<And>e x. frame_lock (open_fds s) False s x \<Longrightarrow> P (files x) \<Longrightarrow> X e x"
  shows "wp (open_locked E create) Q X s"
proof -
  have closed: "X e (x\<lparr>open_fds := open_fds x - Suc 0, lock_held := False\<rparr>)"
    if "frame_lock (Suc (open_fds s)) h s x" "P (files x)" for e x h
    using that by (intro X) (simp_all add: frame_lock_def)
  show ?thesis
    unfolding open_locked_def wp_bindM wp_thenM wp_try_except wp_ret wp_getM close_lock_fd_def wp_modM wp_raise
      One_nat_def
  proof (rule wp_open_lock_file [where P = P, OF P], goal_cases)
    case (1 fu x)
    have lk: "wp (flock E) (\<lambda>_. Q fu) (\<lambda>e x. X e (x\<lparr>open_fds := open_fds x - Suc 0, lock_held := False\<rparr>)) y"
      if "frame_lock (Suc (open_fds s)) (lock_held s) s y" "P (files y)" for y
      by (rule wp_flock [OF P(1) that(2)])
        (use that 1 frame_lock_fields [OF that(1)] in \<open>auto intro!: Q closed intro: frame_lock_trans\<close>)
    have wt: "wp (wait_ledger E) (\<lambda>_. wp (flock E) (\<lambda>_. Q fu) (\<lambda>e x. X e (x\<lparr>open_fds := open_fds x - Suc 0, lock_held := False\<rparr>)))
       (\<lambda>e x. X e (x\<lparr>open_fds := open_fds x - Suc 0, lock_held := False\<rparr>)) x"
      by (rule wp_wait_ledger [OF P(1) 1(2)])
        (use 1(1) in \<open>auto intro!: lk closed intro: frame_lock_step\<close>)
    show ?case using lk [OF 1(1,2)] wt by (cases fu) auto
  qed (use free in \<open>auto intro!: X\<close>)
qed

lemma wp_unlock:
  assumes "\<And>x. frame_lock (open_fds s - 1) False s x \<Longrightarrow> files x = files s \<Longrightarrow> Q () x"
    and "\<And>m x. frame_lock (open_fds s - 1) False s x \<Longrightarrow> files x = files s \<Longrightarrow> X (DutyError m) x"
  shows "wp (unlock E) Q X s"
  unfolding unlock_def wp_try_finally wp_try_except wp_thenM wp_modM close_lock_fd_def
  by (rule wp_osM) (auto intro!: assms simp: frame_lock_def)

section \<open>Reserving: what a reservation leaves\<close>

text \<open>
  Since \<open>s0\<close> the ledger's path has held, one after another, only complete documents of this
  program with positive airtimes, and holds the last of them.
\<close>

definition own_doc :: "('d, 'y) duty_platform_scheme \<Rightarrow> entry list \<Rightarrow> ledger_file \<Rightarrow> bool" where
  "own_doc E es f \<longleftrightarrow> (\<exists>m w. f = File (Doc (ledger_doc (boot_id_p E) m w es)))"

definition intact :: "('d, 'y) duty_platform_scheme \<Rightarrow> 'd acct \<Rightarrow> 'd acct \<Rightarrow> bool" where
  "intact E s0 s \<longleftrightarrow> (\<exists>fs. disk s = disk s0 @ fs \<and> ledger s = last (ledger s0 # fs) \<and>
     (\<forall>f \<in> set fs. \<exists>es. positive es \<and> own_doc E es f))"

lemma intact_refl [simp]: "intact E s s"
  by (simp add: intact_def)

lemma intact_trans: "intact E s t \<Longrightarrow> intact E t x \<Longrightarrow> intact E s x"
  unfolding intact_def by (force simp: last_append)

lemma intact_write:
  "replaced (ledger_doc (boot_id_p E) m w es) s x \<Longrightarrow> positive es \<Longrightarrow> intact E s x"
  "untouched s x \<Longrightarrow> intact E s x"
  unfolding intact_def replaced_def untouched_def own_doc_def
  by (auto intro!: exI [of _ "[File (Doc (ledger_doc (boot_id_p E) m w es))]"])

lemma own_doc_replaced: "replaced (ledger_doc (boot_id_p E) m w es) s x \<Longrightarrow> own_doc E es (ledger x)"
  by (auto simp: replaced_def own_doc_def)

text \<open>Under the lock: the path stays intact, the lock and the descriptors are as before.\<close>

definition kept :: "('d, 'y) duty_platform_scheme \<Rightarrow> 'd acct \<Rightarrow> 'd acct \<Rightarrow> bool" where
  "kept E s0 s \<longleftrightarrow> intact E s0 s \<and> lock_file s = lock_file s0 \<and> open_fds s = open_fds s0 \<and>
     lock_held s = lock_held s0"

lemma kept_refl [simp]: "kept E s s"
  by (simp add: kept_def)

lemma kept_trans: "kept E s t \<Longrightarrow> kept E t x \<Longrightarrow> kept E s x"
  by (auto simp: kept_def intro: intact_trans)

lemma kept_fields [simp]:
  "kept E s (x\<lparr>dev := d\<rparr>) = kept E s x" "kept E (s\<lparr>dev := d\<rparr>) x = kept E s x"
  "kept E s (x\<lparr>pending_rebase := b\<rparr>) = kept E s x" "kept E (s\<lparr>pending_rebase := b\<rparr>) x = kept E s x"
  by (simp_all add: kept_def intact_def)

lemma wp_write_kept:
  assumes pos: "positive es"
    and Q: "\<And>x. kept E s x \<Longrightarrow> own_doc E es (ledger x) \<Longrightarrow> pending_rebase x = pending_rebase s \<Longrightarrow> Q () x"
    and X: "\<And>x m. kept E s x \<Longrightarrow> X (DutyError m) x"
  shows "wp (write_ledger E es) Q X s"
proof -
  have "kept E s x" if "same_lock s x" "intact E s x" for x
    using that by (simp add: kept_def same_lock_def)
  then show ?thesis
    by (intro wp_write_ledger)
      (auto intro!: Q X intro: intact_write pos own_doc_replaced simp: same_lock_def)
qed

lemma wp_decide:
  assumes pos: "positive es" "0 < a"
    and grant: "\<And>x. verdict cfg es now a = None \<Longrightarrow> kept E s x \<Longrightarrow> \<not> pending_rebase x \<Longrightarrow>
      own_doc E (es @ [(now, a)]) (ledger x) \<Longrightarrow> Q (True, []) x"
    and refuse: "\<And>x why. verdict cfg es now a = Some why \<Longrightarrow> kept E s x \<Longrightarrow> \<not> pending_rebase x \<Longrightarrow>
      (if pending_rebase s then own_doc E es (ledger x) else x = s) \<Longrightarrow> Q (False, why) x"
    and X: "\<And>e x. kept E s x \<Longrightarrow> X e x"
  shows "wp (decide E cfg now es a) Q X s"
proof -
  have settle: "wp (case verdict cfg es now a of Some why \<Rightarrow> ret (False, why)
      | None \<Rightarrow> thenM (write_ledger E (es @ [(now, a)])) (ret (True, []))) Q X x"
    if x: "kept E s x" "\<not> pending_rebase x" "if pending_rebase s then own_doc E es (ledger x) else x = s" for x
  proof (cases "verdict cfg es now a")
    case None
    then show ?thesis
      by (auto intro!: wp_write_kept grant pos X dest: kept_trans [OF x(1)] simp: x(2) pos)
  qed (use x in \<open>auto intro: refuse\<close>)
  show ?thesis
  proof (cases "pending_rebase s")
    case True
    then show ?thesis
      unfolding decide_def wp_bindM wp_getM
      by (auto intro!: X wp_write_kept pos settle)
  next
    case False
    with settle [of s] X [of s] show ?thesis by (simp add: decide_def)
  qed
qed

lemma shift_entries_0 [simp]: "shift_entries 0 es = es"
  by (simp add: shift_entries_def)

text \<open>
  What the critical section of \<open>reserve\<close> returns and leaves: it answers by \<open>verdict\<close> on the
  entries of the ledger it found, moved by the clock step it detected and pruned to the window.
\<close>

definition reserved :: "('d, 'y) duty_platform_scheme \<Rightarrow> duty_cfg \<Rightarrow> bool \<Rightarrow> real \<Rightarrow> 'd acct \<Rightarrow> bool \<Rightarrow> 'd acct \<Rightarrow> bool" where
  "reserved E cfg fu a s ok x \<longleftrightarrow> (\<exists>es step now.
     ledger_entries E fu (ledger s) = Some es \<and> (step = 0 \<or> CLOCK_SKEW_S < \<bar>step\<bar>) \<and>
     (let ws = prune cfg now (shift_entries step es) in
       ok = (verdict cfg ws now a = None) \<and>
       (if ok then own_doc E (ws @ [(now, a)]) (ledger x)
        else if fu \<or> step \<noteq> 0 then own_doc E ws (ledger x)
        else ledger x = ledger s)))"

lemma reservedI:
  assumes "ledger_entries E fu (ledger s) = Some es" "step = 0 \<or> CLOCK_SKEW_S < \<bar>step\<bar>"
    and "ws = prune cfg now (shift_entries step es)" "ok = (verdict cfg ws now a = None)"
    and "if ok then own_doc E (ws @ [(now, a)]) (ledger x)
         else if fu \<or> step \<noteq> 0 then own_doc E ws (ledger x) else ledger x = ledger s"
  shows "reserved E cfg fu a s ok x"
  unfolding reserved_def Let_def using assms by blast

lemma reservedE:
  assumes "reserved E cfg fu a s ok x"
  obtains es step now where "ledger_entries E fu (ledger s) = Some es" "step = 0 \<or> CLOCK_SKEW_S < \<bar>step\<bar>"
    "ok = (verdict cfg (prune cfg now (shift_entries step es)) now a = None)"
    "if ok then own_doc E (prune cfg now (shift_entries step es) @ [(now, a)]) (ledger x)
     else if fu \<or> step \<noteq> 0 then own_doc E (prune cfg now (shift_entries step es)) (ledger x)
     else ledger x = ledger s"
  using assms unfolding reserved_def Let_def by blast

lemma wp_reserve_locked:
  assumes a: "0 < a"
  shows "wp (reserve_locked E cfg fu a)
    (\<lambda>r x. reserved E cfg fu a s (fst r) x \<and> kept E s x \<and> \<not> pending_rebase x)
    (\<lambda>e x. kept E s x \<and> (ledger_entries E fu (ledger s) = None \<longrightarrow>
       is_DutyError e \<and> ledger x = ledger s \<and> disk x = disk s)) s"
    (is "wp _ ?Q ?X s")
proof -
  have rest: "wp (thenM (if fu then write_ledger E ws else ret ()) (decide E cfg now ws a)) ?Q ?X x"
    if x: "ledger x = ledger s" "kept E s x" "ledger_entries E fu (ledger s) = Some es"
      "step = 0 \<or> CLOCK_SKEW_S < \<bar>step\<bar>" "fu \<or> pending_rebase x = (step \<noteq> 0)"
      and ws: "ws = prune cfg now (shift_entries step es)" for x es step now ws
  proof -
    have pos: "positive ws" using ledger_entries_positive [OF x(3)] by (simp add: ws positive_prune)
    have dec: "wp (decide E cfg now ws a) ?Q ?X y"
      if y: "kept E s y" "if fu then own_doc E ws (ledger y) else y = x" for y
    proof (rule wp_decide [OF pos a])
      fix z
      assume "verdict cfg ws now a = None" "kept E y z" "\<not> pending_rebase z" "own_doc E (ws @ [(now, a)]) (ledger z)"
      then show "?Q (True, []) z"
        using kept_trans [OF y(1)] by (auto intro!: reservedI [OF x(3,4) ws])
    next
      fix z why
      assume z: "verdict cfg ws now a = Some why" "kept E y z" "\<not> pending_rebase z"
        "if pending_rebase y then own_doc E ws (ledger z) else z = y"
      have "if fu \<or> step \<noteq> 0 then own_doc E ws (ledger z) else ledger z = ledger s"
        using z(4) y(2) x(1,5) by (auto split: if_splits)
      with z show "?Q (False, why) z"
        using kept_trans [OF y(1)] by (auto intro!: reservedI [OF x(3,4) ws])
    qed (use y x(3) in \<open>auto intro: kept_trans\<close>)
    show ?thesis
    proof (cases fu)
      case True
      show ?thesis unfolding wp_thenM if_P [OF True]
        by (rule wp_write_kept [OF pos], rule dec)
          (use True x(3) in \<open>auto intro: kept_trans [OF x(2)]\<close>)
    qed (use dec x in simp)
  qed
  show ?thesis
    unfolding reserve_locked_def wp_bindM Let_def
  proof (rule wp_clock, rule wp_read_ledger, goal_cases)
    case (1 now d es)
    then show ?case
      by (intro rest [where es = es and step = 0]) (auto simp: ledger_entries_def split: if_splits)
  next
    case (2 now d es d')
    then show ?case by (intro rest [where es = es and step = 0]) auto
  next
    case (3 now d es step d')
    then show ?case by (intro rest [where es = es and step = step]) (auto simp: CLOCK_SKEW_S_def)
  qed auto
qed

lemma reserved_ledger: "reserved E cfg fu a s ok x \<Longrightarrow> files y = files x \<Longrightarrow> reserved E cfg fu a s ok y"
  unfolding reserved_def files_def by (metis prod.inject)

lemma intact_frame: "intact E s x \<Longrightarrow> frame_lock n h x y \<Longrightarrow> files y = files x \<Longrightarrow> intact E s y"
  by (simp add: intact_def frame_lock_def files_def)

text \<open>
  A reservation as a whole: \<open>t\<close> is the state in which the lock was taken, with the files as
  the other processes left them.
\<close>

lemma wp_reserve:
  assumes a: "0 < a" and free: "\<not> lock_held s" and P: "peers_keep E P" "P (files s)"
  shows "wp (reserve E cfg a)
    (\<lambda>r x. (\<exists>fu t. lock_held t \<and> P (files t) \<and> (fu \<longrightarrow> (\<exists>f. P (False, f))) \<and> disk t = disk s \<and>
       reserved E cfg fu a t (fst r) x \<and> intact E t x) \<and> open_fds x = open_fds s \<and> \<not> lock_held x)
    (\<lambda>e x. (\<exists>fu t. P (files t) \<and> (fu \<longrightarrow> (\<exists>f. P (False, f))) \<and> disk t = disk s \<and>
       intact E t x \<and> lock_file x = lock_file t \<and>
       (ledger_entries E fu (ledger t) = None \<longrightarrow> ledger x = ledger t)) \<and>
       open_fds x = open_fds s \<and> \<not> lock_held x) s"
    (is "wp _ ?Q ?X s")
  unfolding reserve_def wp_bindM wp_try_finally
proof (rule wp_open_locked [where P = P, OF P free], goal_cases)
  case (1 fu t)
  have t: "lock_held t" "open_fds t = Suc (open_fds s)" "disk t = disk s"
    using 1(1) by (simp_all add: frame_lock_def)
  have after: "open_fds y = open_fds s \<and> \<not> lock_held y \<and> intact E t y \<and> lock_file y = lock_file t"
    if "kept E t x" "frame_lock (open_fds x - 1) False x y" "files y = files x" for x y
    using that t intact_frame [of E t x] by (auto simp: kept_def frame_lock_def files_def)
  show ?case
  proof (rule wp_mono [OF wp_reserve_locked [OF a]], goal_cases)
    case r: (1 r x)
    then have k: "kept E t x" and rs: "reserved E cfg fu a t (fst r) x" by simp_all
    then have some: "ledger_entries E fu (ledger t) \<noteq> None" by (auto simp: reserved_def)
    show ?case
    proof (rule wp_unlock)
      fix y assume y: "frame_lock (open_fds x - 1) False x y" "files y = files x"
      show "?Q r y" using after [OF k y] reserved_ledger [OF rs y(2)] 1(2,3) t(1,3)
        by (intro conjI exI [of _ fu] exI [of _ t]) simp_all
    next
      fix m y assume y: "frame_lock (open_fds x - 1) False x y" "files y = files x"
      show "?X (DutyError m) y" using after [OF k y] some 1(2,3) t(3)
        by (intro conjI exI [of _ fu] exI [of _ t]) auto
    qed
  next
    case e: (2 e x)
    have X: "?X e' y" if y: "frame_lock (open_fds x - 1) False x y" "files y = files x" for e' y
    proof -
      have k: "kept E t x" and l: "ledger_entries E fu (ledger t) = None \<longrightarrow> ledger y = ledger t"
        using e y(2) by (simp_all add: files_def)
      show ?thesis using after [OF k y] l 1(2,3) t(3)
        by (intro conjI exI [of _ fu] exI [of _ t]) simp_all
    qed
    show ?case by (rule wp_unlock) (rule X; assumption)+
  qed
next
  case (2 e x)
  then show ?case using free by (auto simp: frame_lock_def intro!: exI [of _ False] exI [of _ x])
qed

lemma peers_keep_True [simp]: "peers_keep E (\<lambda>_. True)"
  by (simp add: peers_keep_def)

text \<open>The other processes leave the files alone.\<close>

definition idle_peers :: "('d, 'y) duty_platform_scheme \<Rightarrow> bool" where
  "idle_peers E \<longleftrightarrow> (\<forall>x d. fst (peers_p E x d) = x)"

lemma peers_keep_ledger: "idle_peers E \<Longrightarrow> peers_keep E (\<lambda>x. snd x = f)"
  "idle_peers E \<Longrightarrow> peers_keep E (\<lambda>x. x = (True, f))"
  by (auto simp: idle_peers_def peers_keep_def)

end
