(* ===== verification/Duty_Properties.thy ===== *)
theory Duty_Properties
  imports Duty
begin

text \<open>
  What the airtime account guarantees: budget, refinement of the abstract account, fail-closed
  reading, atomic replacement, balance of locks and descriptors, read-only status, termination,
  clock steps, and the one way in which a failed first write blocks transmission for good. The
  witnesses run the account on \<open>bench\<close>, a platform on which every call succeeds but those told
  to fail.
\<close>

section \<open>A platform for concrete runs\<close>

definition bench :: "(os_call \<Rightarrow> errno option) \<Rightarrow> real duty_platform" where
  "bench fails = \<lparr>os_call_p = \<lambda>c d. (fails c, d), os_write_p = \<lambda>n d. (n, d), time_p = \<lambda>d. (d, d),
     monotonic_p = \<lambda>d. (d, d), sleep_p = \<lambda>t d. (False, d + t), random_p = \<lambda>d. (0, d), boot_id_p = ''boot'',
     lock_dir_p = \<lambda>_. None, cs_gpios_p = \<lambda>_. None, cs_gpios_size_p = \<lambda>_ _. None,
     spi_open_p = \<lambda>_ _ d. (True, d), no_cs_p = \<lambda>d. (Inr True, d), spi_xfer2_p = \<lambda>bs d. (Some (map word_of_int bs), d), line_set_p = \<lambda>p v d. (True, d), line_get_p = \<lambda>p d. (Some False, d),
     line_request_p = \<lambda>p d. (True, d), edge_wait_p = \<lambda>t d. (Some False, d + t),
     peers_p = \<lambda>x d. (x, d), dumps_len_p = \<lambda>_. 100\<rparr>"

definition fresh :: "real acct" where
  "fresh = \<lparr>dev = 1000000, lock_file = False, ledger = Absent, tmp = None, pending_rebase = False, open_fds = 0,
     lock_held = False, disk = []\<rparr>"

lemmas duty_run = reserve_def open_locked_def open_lock_file_def open_existing_def create_lock_def peersM_def
  open_fd_def close_fd_def close_lock_fd_def flock_def wait_ledger_def ledger_exists_def reserve_locked_def decide_def
  read_ledger_def write_ledger_def replace_ledger_def start_tmp_def write_tmp_def sync_tmp_def rename_tmp_def renamed_def
  sync_dir_def unlink_tmp_def unlock_def platform_defs py_defs loopM.simps bench_def

lemma bench_grant: "\<exists>s'. reserve (bench (\<lambda>_. None)) (duty_account 5 1) (1/2) fresh = Some (Inr (True, []), s')"
  by (simp add: duty_run fresh_def duty_account_def verdict_def prune_def Let_def)

lemma bench_refuse: "\<exists>s'. reserve (bench (\<lambda>_. None)) (duty_account 5 1) 37 fresh = Some (Inr (False, ''long-term airtime''), s')"
  by (simp add: duty_run fresh_def duty_account_def verdict_def prune_def Let_def)

lemma bench_blank: "\<exists>r s'. reserve (bench (\<lambda>_. None)) (duty_account 5 1) (1/2)
    (fresh\<lparr>lock_file := True, ledger := File Blank\<rparr>) = Some (r, s')"
  by (simp add: duty_run fresh_def duty_account_def verdict_def prune_def Let_def)

lemma bench_full: "reserve (bench (\<lambda>c. if c = OpenTmp then Some (EOther 28) else None)) (duty_account 5 1) (1/2) fresh =
  Some (Inl (DutyError ''airtime state could not be written''), fresh\<lparr>lock_file := True\<rparr>)"
  by (simp add: duty_run fresh_def duty_account_def verdict_def prune_def Let_def)

section \<open>Properties of the account\<close>

lemma own_doc_exists: "own_doc E es f \<Longrightarrow> \<exists>m w. f = File (Doc (ledger_doc (boot_id_p E) m w es))"
  by (simp add: own_doc_def)

lemma wp_usage:
  assumes idle: "idle_peers E" and free: "\<not> lock_held s"
  shows "wp (usage E cfg)
    (\<lambda>r x. files x = files s \<and> disk x = disk s \<and> open_fds x = open_fds s \<and> \<not> lock_held x \<and>
       (\<not> lock_file s \<longrightarrow> r = (Fin 0, Fin 0)))
    (\<lambda>e x. files x = files s \<and> disk x = disk s \<and> open_fds x = open_fds s \<and> \<not> lock_held x \<and> lock_file s) s"
    (is "wp _ ?Q ?X s")
proof (cases "lock_file s")
  case False
  then show ?thesis
    using free by (simp add: wp_def usage_def open_locked_def open_lock_file_def open_existing_def py_defs)
next
  case True
  have keep: "peers_keep E (\<lambda>x. x = files s)"
    using idle True by (auto simp: peers_keep_def idle_peers_def files_def)
  let ?K = "\<lambda>x. files x = files s \<and> disk x = disk s \<and> open_fds x = Suc (open_fds s) \<and> lock_held x"
  have rd: "wp (usage_locked E cfg) (\<lambda>_. ?K) (\<lambda>_. ?K) x" if "?K x" for x
    unfolding usage_locked_def wp_try_except wp_bindM
    by (rule wp_clock, rule wp_read_ledger) (use that in \<open>auto simp: files_def\<close>)
  have fin: "wp (unlock E) (\<lambda>_ x. files x = files s \<and> disk x = disk s \<and> open_fds x = open_fds s \<and> \<not> lock_held x)
      (\<lambda>e x. files x = files s \<and> disk x = disk s \<and> open_fds x = open_fds s \<and> \<not> lock_held x) x" if "?K x" for x
    by (rule wp_unlock) (use that in \<open>simp_all add: frame_lock_def\<close>)
  show ?thesis
    unfolding usage_def wp_bindM wp_try_except wp_thenM wp_ret
    by (rule wp_open_locked [OF keep refl free])
      (use True in \<open>auto intro!: wp_mono [OF rd] fin simp: frame_lock_def\<close>)
qed

text \<open>
  \<open>granted E cfg a x\<close>: the ledger on disk ends with an entry of airtime \<open>a\<close>, made now, and its
  entries together stay within the long-window limit.
\<close>

definition granted :: "('d, 'y) duty_platform_scheme \<Rightarrow> duty_cfg \<Rightarrow> real \<Rightarrow> 'd acct \<Rightarrow> bool" where
  "granted E cfg a x \<longleftrightarrow> (\<exists>es now m w.
     ledger x = File (Doc (ledger_doc (boot_id_p E) m w (es @ [(now, a)]))) \<and> positive es \<and>
     used (es @ [(now, a)]) (long_window cfg) now \<le> long_limit cfg / 100 * long_window cfg)"

lemma reserved_granted:
  assumes "reserved E cfg fu a t True x" "0 < long_window cfg"
  shows "granted E cfg a x"
proof -
  from assms(1) obtain es0 step now where r: "ledger_entries E fu (ledger t) = Some es0"
    "verdict cfg (prune cfg now (shift_entries step es0)) now a = None"
    "own_doc E (prune cfg now (shift_entries step es0) @ [(now, a)]) (ledger x)"
    by (rule reservedE) (simp only: simp_thms if_True)
  let ?es = "prune cfg now (shift_entries step es0)"
  have "positive ?es" using ledger_entries_positive [OF r(1)] by (simp add: positive_prune)
  moreover have "used (?es @ [(now, a)]) (long_window cfg) now \<le> long_limit cfg / 100 * long_window cfg"
    using verdict_grant_long [OF r(2) assms(2)] assms(2) by simp
  ultimately show ?thesis using own_doc_exists [OF r(3)] unfolding granted_def by blast
qed

text \<open>What the callers of \<open>reserve\<close> rely on.\<close>

lemma wp_reserve_granted:
  assumes "0 < a" "\<not> lock_held s" "0 < long_window cfg"
  shows "wp (reserve E cfg a) (\<lambda>r x. \<not> lock_held x \<and> (fst r \<longrightarrow> granted E cfg a x)) (\<lambda>_ x. \<not> lock_held x) s"
  by (rule wp_mono [OF wp_reserve [OF assms(1,2) peers_keep_True TrueI]])
    (use reserved_granted [OF _ assms(3)] in \<open>auto\<close>)

text \<open>C5. Whatever the other processes and the operating system do, a granted reservation of airtime \<open>a\<close>
  has persisted a complete ledger whose last entry is this airtime at the current time and whose
  entries together stay within the long-window limit.
\<close>

theorem reserve_grant_within_budget:
  assumes "reserve E cfg a s = Some (Inr (True, why), s')"
    and "0 < a" "\<not> lock_held s" "0 < long_window cfg"
  shows "\<exists>es now m w. ledger s' = File (Doc (ledger_doc (boot_id_p E) m w (es @ [(now, a)]))) \<and> positive es \<and>
    used (es @ [(now, a)]) (long_window cfg) now \<le> long_limit cfg / 100 * long_window cfg"
  using wpD(1) [OF wp_reserve_granted [OF assms(2-4)] assms(1)] by (simp add: granted_def)


text \<open>A ledger that cannot be read blocks every reservation.\<close>

lemma reserve_blocked:
  fixes s :: "'d acct"
  assumes "reserve E cfg a s = Some (r, s')"
    and "ledger_entries E False (ledger s) = None" "lock_file s" "idle_peers E"
    and "0 < a" "\<not> lock_held s"
  shows "(\<exists>e. r = Inl e) \<and> ledger s' = ledger s \<and> lock_file s'"
proof -
  note w = wp_reserve [OF assms(5,6) peers_keep_ledger(2) [OF assms(4)], of "ledger s" cfg]
  have f: "files s = (True, ledger s)" using assms(3) by (simp add: files_def)
  show ?thesis
  proof (cases r)
    case (Inr v)
    then obtain fu t where "files t = (True, ledger s)" "\<not> fu" "reserved E cfg fu a t (fst v) s'"
      using wpD(1) [OF w [OF f]] assms(1) by auto
    then show ?thesis using assms(2) by (auto simp: reserved_def files_def)
  next
    case (Inl e)
    from wpD(2) [OF w [OF f] assms(1) [unfolded Inl]] assms(2) show ?thesis
      by (elim conjE exE) (simp add: files_def Inl)
  qed
qed


text \<open>A first reservation that is refused leaves an initialised ledger with no entries, which later
  reservations accept.
\<close>

theorem reserve_first_use_refused:
  assumes "reserve E cfg a s = Some (Inr (False, why), s')"
    and "ledger s = Absent" "idle_peers E" "0 < a" "\<not> lock_held s"
    and "\<And>m w. dumps_len_p E (ledger_doc (boot_id_p E) m w []) \<le> READ_MAX"
  shows "own_doc E [] (ledger s') \<and> ledger_entries E False (ledger s') = Some []"
proof -
  obtain fu t where t: "ledger t = Absent" and r: "reserved E cfg fu a t False s'"
    using wpD(1) [OF wp_reserve [OF assms(4,5) peers_keep_ledger(1) [OF assms(3)]] assms(1)] assms(2)
    by (auto simp: files_def)
  then have fu by (auto simp: reserved_def ledger_entries_def split: if_splits)
  with r t obtain step now where "own_doc E (prune cfg now (shift_entries step [])) (ledger s')"
    by (auto simp: reserved_def ledger_entries_def Let_def)
  then have own: "own_doc E [] (ledger s')" by (simp add: prune_def shift_entries_def)
  then show ?thesis using assms(6) by (auto simp: own_doc_def ledger_entries_def not_less)
qed

text \<open>C23. However a reservation ends, granted, refused or with any exception, the lock is free, no
  descriptor is left open, and since the lock was taken (state \<open>t\<close>) the ledger's path has
  held only the ledger found there and complete documents, never a partial one.
\<close>

theorem reserve_atomic_and_balanced:
  fixes s :: "'d acct"
  assumes "reserve E cfg a s = Some (r, s')" and "0 < a" "\<not> lock_held s"
  shows "open_fds s' = open_fds s \<and> \<not> lock_held s' \<and>
    (\<exists>(t :: 'd acct) fs. disk s' = disk s @ fs \<and> ledger s' = last (ledger t # fs) \<and>
       list_all (\<lambda>f. \<exists>es. positive es \<and> own_doc E es f) fs)"
proof -
  note w = wp_reserve [OF assms(2,3) peers_keep_True TrueI, of E cfg]
  have "(\<exists>t. disk t = disk s \<and> intact E t s') \<and> open_fds s' = open_fds s \<and> \<not> lock_held s'"
  proof (cases r)
    case (Inl e)
    with wpD(2) [OF w] assms(1) show ?thesis by blast
  next
    case (Inr v)
    with wpD(1) [OF w] assms(1) show ?thesis by blast
  qed
  then show ?thesis by (auto simp: intact_def list_all_iff)
qed

text \<open>After a first reservation whose write failed (here: no temporary file could be created) the
  lock file exists and the ledger does not; from then on no reservation is ever granted again on
  any platform on which the other processes leave the files alone, however healthy it is.
\<close>

theorem failed_first_write_blocks_for_good:
  fixes E :: "(real, 'y) duty_platform_scheme"
  shows "\<exists>s. reserve (bench (\<lambda>c. if c = OpenTmp then Some (EOther 28) else None)) (duty_account 5 1) (1/2) fresh
      = Some (Inl (DutyError ''airtime state could not be written''), s) \<and>
    (idle_peers E \<longrightarrow> 0 < a \<longrightarrow> reserve E cfg a s = Some (r, s') \<longrightarrow>
       (\<exists>e. r = Inl e) \<and> ledger s' = Absent \<and> lock_file s')"
proof -
  let ?s = "fresh\<lparr>lock_file := True\<rparr>"
  have "(\<exists>e. r = Inl e) \<and> ledger s' = ledger ?s \<and> lock_file s'"
    if "idle_peers E" "0 < a" "reserve E cfg a ?s = Some (r, s')"
    using that(1,2) by (intro reserve_blocked [OF that(3)]) (simp_all add: ledger_entries_def fresh_def)
  with bench_full show ?thesis by (auto simp: fresh_def)
qed

text \<open>A status query never changes the files and never takes the first-use transition, and it always
  gives its lock and descriptor back; with no lock file it answers zero.
\<close>

theorem usage_read_only:
  assumes "usage E cfg s = Some (r, s')" "idle_peers E" "\<not> lock_held s"
  shows "files s' = files s \<and> disk s' = disk s \<and> open_fds s' = open_fds s \<and> \<not> lock_held s' \<and>
    (\<not> lock_file s \<longrightarrow> r = Inr (Fin 0, Fin 0))"
  using wpD [OF wp_usage [OF assms(2,3)]] assms(1) by (cases r) auto

section \<open>Termination\<close>

text \<open>
  A live platform: there is a clock \<open>clk\<close> that \<open>time.monotonic\<close> reads, no call turns it back,
  \<open>time.sleep\<close> advances it by at least the time asked for, and \<open>os.write\<close> makes progress.
\<close>

definition live :: "('d, 'y) duty_platform_scheme \<Rightarrow> ('d \<Rightarrow> real) \<Rightarrow> bool" where
  "live E clk \<longleftrightarrow>
     (\<forall>d. fst (monotonic_p E d) = clk d \<and> clk d \<le> clk (snd (monotonic_p E d))) \<and>
     (\<forall>t d. clk d + t \<le> clk (snd (sleep_p E t d))) \<and>
     (\<forall>c d. clk d \<le> clk (snd (os_call_p E c d))) \<and>
     (\<forall>x d. clk d \<le> clk (snd (peers_p E x d))) \<and>
     (\<forall>n d. 0 < n \<longrightarrow> 0 < fst (os_write_p E n d))"

abbreviation total :: "('s, 'a) py \<Rightarrow> bool" where
  "total \<equiv> tkeeps (\<lambda>_. True)"

lemma total_platform [tkeeps_rules]:
  "total (askM q)" "total (timeM E)" "total (monotonicM E)" "total (peersM E)"
  by (simp_all add: tkeeps_def timeM_def monotonicM_def peersM_def split: prod.split)

lemma total_osM [tkeeps_rules]: "total (osM E c)" "total (sleepM E t)"
  unfolding osM_def sleepM_def by (auto intro!: tkeeps_rules)

lemma total_fds [tkeeps_rules]: "total open_fd" "total close_fd" "total close_lock_fd"
  by (auto simp: open_fd_def close_fd_def close_lock_fd_def intro!: tkeeps_rules)

lemma total_flock [tkeeps_rules]:
  assumes "live E clk"
  shows "total (flock E)"
  unfolding flock_def
proof (rule tkeeps_bindM [OF total_platform(3)], rule_tac clk = clk and q = "1/50" and deadline = "x + LOCK_TIMEOUT_S" in tkeeps_deadline, simp, goal_cases)
  case (1 start s)
  obtain l f d where p: "peers_p E (lock_file s, ledger s) (dev s) = ((l, f), d)" by (metis prod.exhaust)
  obtain r d1 where o: "os_call_p E FlockEx d = (r, d1)" by fastforce
  obtain d2 where m: "monotonic_p E d1 = (clk d1, d2)" using assms unfolding live_def by (metis prod.collapse)
  obtain b d3 where z: "sleep_p E (1/50) d2 = (b, d3)" by fastforce
  have "clk (dev s) \<le> clk d" "clk d \<le> clk d1" "clk d1 \<le> clk d2" "clk d2 + 1/50 \<le> clk d3"
    using assms p o m z unfolding live_def by (metis snd_conv)+
  then show ?case
    by (auto simp: py_defs peersM_def monotonicM_def sleepM_def p o m z split: option.split)
qed

lemma total_wait_ledger [tkeeps_rules]:
  assumes "live E clk"
  shows "total (wait_ledger E)"
  unfolding wait_ledger_def
proof (rule tkeeps_bindM [OF total_platform(3)], rule_tac clk = clk and q = "1/50" and deadline = "x + LOCK_TIMEOUT_S" in tkeeps_deadline, simp, goal_cases)
  case (1 start s)
  obtain d2 where m: "monotonic_p E (dev s) = (clk (dev s), d2)" using assms unfolding live_def by (metis prod.collapse)
  obtain b d3 where z: "sleep_p E (1/50) d2 = (b, d3)" by fastforce
  obtain l f d where p: "peers_p E (lock_file s, ledger s) d3 = ((l, f), d)" by (metis prod.exhaust)
  have "clk (dev s) \<le> clk d2" "clk d2 + 1/50 \<le> clk d3" "clk d3 \<le> clk d"
    using assms p m z unfolding live_def by (metis snd_conv)+
  then show ?case
    by (auto simp: py_defs peersM_def monotonicM_def sleepM_def p m z)
qed

lemma total_write_tmp [tkeeps_rules]:
  assumes "live E clk"
  shows "tkeeps (\<lambda>s. tmp s \<noteq> None) (write_tmp E doc)"
  unfolding write_tmp_def
proof (rule tkeeps_loopM [where f = "\<lambda>s. dumps_len_p E doc - (case tmp s of None \<Rightarrow> 0 | Some t \<Rightarrow> t_written t)"], goal_cases)
  case (1 s)
  then obtain t where t: "tmp s = Some t" by blast
  obtain r d where o: "os_call_p E WriteTmp (dev s) = (r, d)" by fastforce
  obtain n d1 where w: "os_write_p E (dumps_len_p E doc - t_written t) d = (n, d1)" by fastforce
  have "0 < n" if "t_written t < dumps_len_p E doc"
    using assms w that unfolding live_def by (metis fst_conv zero_less_diff)
  then show ?case
    by (auto simp: py_defs osM_def t o w split: option.split)
qed


text \<open>The loop of \<open>write_tmp\<close> runs on a temporary file that \<open>start_tmp\<close> has created.\<close>

lemma total_fill_tmp:
  assumes "live E clk"
  shows "tkeeps (\<lambda>s. tmp s \<noteq> None) (try_finally (thenM (write_tmp E doc) (sync_tmp E)) close_fd)"
proof -
  have "tkeeps (\<lambda>s. tmp s \<noteq> None) (sync_tmp E)" "tkeeps (\<lambda>s. tmp s \<noteq> None) close_fd"
    by (auto simp: tkeeps_def sync_tmp_def close_fd_def osM_def py_defs split: option.split)
  then show ?thesis by (intro tkeeps_rules total_write_tmp [OF assms])
qed

lemma total_replace_ledger [tkeeps_rules]:
  assumes "live E clk"
  shows "total (replace_ledger E doc)"
proof -
  let ?fill = "try_finally (thenM (write_tmp E doc) (sync_tmp E)) close_fd"
  let ?rest = "thenM (rename_tmp E) (thenM (sync_dir E) (ret ()))"
  have rest: "total ?rest"
    unfolding rename_tmp_def sync_dir_def by (intro tkeeps_rules) auto
  show ?thesis
    unfolding tkeeps_def
  proof (intro allI impI)
    fix s :: "'a acct"
    show "\<exists>r t. replace_ledger E doc s = Some (r, t) \<and> True"
    proof (cases "fst (os_call_p E OpenTmp (dev s))")
      case (Some e)
      then show ?thesis by (simp add: replace_ledger_def start_tmp_def osM_def py_defs)
    next
      case None
      then obtain t where t: "start_tmp E doc s = Some (Inr (), t)" "tmp t \<noteq> None"
        by (simp add: start_tmp_def osM_def py_defs open_fd_def)
      obtain r u where u: "?fill t = Some (r, u)" using tkeepsD [OF total_fill_tmp [OF assms] t(2)] by blast
      obtain r' v where v: "?rest u = Some (r', v)" using tkeepsD [OF rest TrueI] by blast
      have "replace_ledger E doc s = (case r of Inl e \<Rightarrow> Some (Inl e, u) | Inr _ \<Rightarrow> ?rest u)"
        unfolding replace_ledger_def seqM.simps
        by (subst thenM_def, subst bindM_def) (simp add: t(1) thenM_def [of ?fill] bindM_def [of ?fill] u)
      then show ?thesis using v by (cases r) auto
    qed
  qed
qed

lemma total_write_ledger [tkeeps_rules]: "live E clk \<Longrightarrow> total (write_ledger E es)"
  unfolding write_ledger_def unlink_tmp_def by (intro tkeeps_rules) auto

lemma total_open_lock_file [tkeeps_rules]: "total (open_lock_file E create)"
  unfolding open_lock_file_def open_existing_def create_lock_def seqM.simps by (intro tkeeps_rules)

lemma total_open_locked [tkeeps_rules]: "live E clk \<Longrightarrow> total (open_locked E create)"
  unfolding open_locked_def by (intro tkeeps_rules) auto

lemma total_read_entries [tkeeps_rules]: "total (read_entries E items)"
  by (induction items) (auto intro!: tkeeps_rules)

lemma total_rebase [tkeeps_rules]: "total (rebase E es clock)"
  unfolding rebase_def rebase_reboot_def rebase_same_boot_def Let_def
  by (auto split: json.split sum.split pyfloat.split intro!: tkeeps_rules)

lemma total_read_ledger [tkeeps_rules]: "total (read_ledger E fu)"
  unfolding read_ledger_def parse_doc_def
  by (intro tkeeps_bindM tkeeps_getM) (auto split: ledger_file.split content.split intro!: tkeeps_rules)

lemma total_unlock [tkeeps_rules]: "total (unlock E)"
  unfolding unlock_def by (intro tkeeps_rules)

lemma total_reserve: "live E clk \<Longrightarrow> total (reserve E cfg a)"
  unfolding reserve_def reserve_locked_def decide_def Let_def
  by (intro tkeeps_rules) auto

text \<open>C37. On a live platform a reservation always ends, however long another process holds the lock and
  however the writes fail.
\<close>

theorem reserve_terminates:
  assumes "live E clk"
  shows "\<exists>r s'. reserve E cfg a s = Some (r, s')"
  using tkeepsD [OF total_reserve [OF assms]] by blast

section \<open>Clock steps\<close>

lemma used_shift_now: "used (shift_entries step es) w now = used es w (now - step)"
  using used_shift [of step es w "now - step"] by simp

text \<open>C38. Reading back a ledger of the same boot after the wall clock was stepped by more than the
  tolerated skew accounts by elapsed monotonic time: the usage found at the wall time \<open>now\<close> is
  the usage of the recorded entries at the recorded wall time plus the monotonic time elapsed
  since; within the skew the entries are taken as they are. Afterwards a read of the corrected
  ledger shifts nothing.
\<close>

theorem rebase_follows_monotonic_time:
  assumes "entries \<noteq> []" and "boot = boot_id_p E"
    and "now = fst (time_p E (dev s))" and "mnow = fst (monotonic_p E (snd (time_p E (dev s))))"
  shows "\<exists>es new s'. rebase E entries (JObj (clock_json boot m w)) s = Some (Inr (es, new), s') \<and>
    new = (CLOCK_SKEW_S < \<bar>(now - w) - (mnow - m)\<bar>) \<and>
    (if new then (\<forall>win. used es win now = used entries win (w + (mnow - m))) else es = entries) \<and>
    (\<exists>t. rebase E es (JObj (clock_json boot mnow now)) s = Some (Inr (es, False), t))"
proof -
  have eq: "now - ((now - w) - (mnow - m)) = w + (mnow - m)" by simp
  have ne: "shift_entries d entries \<noteq> []" for d using assms(1) by (simp add: shift_entries_def)
  show ?thesis
    using assms(1,2) assms(3,4) [symmetric] ne
    by (auto simp: rebase_def rebase_same_boot_def clock_float_def py_defs timeM_def monotonicM_def
      Let_def used_shift_now eq CLOCK_SKEW_S_def)
qed

section \<open>Witnesses\<close>

theorem reserve_grant_within_budget_witness:
  "\<exists>s'. reserve (bench (\<lambda>_. None)) (duty_account 5 1) (1/2) fresh = Some (Inr (True, []), s') \<and>
     (\<exists>es now m w. ledger s' = File (Doc (ledger_doc ''boot'' m w (es @ [(now, 1/2)]))) \<and> positive es \<and>
        used (es @ [(now, 1/2)]) 3600 now \<le> 36)"
proof -
  obtain s' where s': "reserve (bench (\<lambda>_. None)) (duty_account 5 1) (1/2) fresh = Some (Inr (True, []), s')"
    using bench_grant by blast
  have "\<exists>es now m w. ledger s' = File (Doc (ledger_doc (boot_id_p (bench (\<lambda>_. None))) m w (es @ [(now, 1/2)]))) \<and>
    positive es \<and> used (es @ [(now, 1/2)]) (long_window (duty_account 5 1)) now
      \<le> long_limit (duty_account 5 1) / 100 * long_window (duty_account 5 1)"
    by (rule reserve_grant_within_budget [OF s']) (simp_all add: fresh_def duty_account_def)
  with s' show ?thesis by (auto simp: bench_def duty_account_def)
qed



theorem reserve_first_use_refused_witness:
  "\<exists>s'. reserve (bench (\<lambda>_. None)) (duty_account 5 1) 37 fresh = Some (Inr (False, ''long-term airtime''), s') \<and>
     ledger_entries (bench (\<lambda>_. None)) False (ledger s') = Some []"
proof -
  obtain s' where s': "reserve (bench (\<lambda>_. None)) (duty_account 5 1) 37 fresh = Some (Inr (False, ''long-term airtime''), s')"
    using bench_refuse by blast
  have "own_doc (bench (\<lambda>_. None)) [] (ledger s') \<and> ledger_entries (bench (\<lambda>_. None)) False (ledger s') = Some []"
    by (rule reserve_first_use_refused [OF s'])
      (simp_all add: bench_def fresh_def idle_peers_def READ_MAX_def)
  with s' show ?thesis by blast
qed

theorem reserve_atomic_and_balanced_witness:
  "\<exists>s'. reserve (bench (\<lambda>_. None)) (duty_account 5 1) (1/2) fresh = Some (Inr (True, []), s') \<and>
     open_fds s' = 0 \<and> \<not> lock_held s'"
proof -
  obtain s' where s': "reserve (bench (\<lambda>_. None)) (duty_account 5 1) (1/2) fresh = Some (Inr (True, []), s')"
    using bench_grant by blast
  from reserve_atomic_and_balanced [OF s'] s' show ?thesis by (auto simp: fresh_def)
qed

lemma bench_live: "live (bench fails) (\<lambda>d. d)"
  by (simp add: live_def bench_def)

lemma bench_blocked: "\<exists>r s'. reserve (bench (\<lambda>_. None)) (duty_account 5 1) (1/2) (fresh\<lparr>lock_file := True\<rparr>) = Some (r, s')"
  by (rule tkeepsD [OF total_reserve [OF bench_live], simplified])

lemma bench_usage: "\<exists>r s'. usage (bench (\<lambda>_. None)) (duty_account 5 1) fresh = Some (r, s')"
  by (simp add: usage_def duty_run fresh_def)

theorem failed_first_write_blocks_for_good_witness:
  "\<exists>s r s'. reserve (bench (\<lambda>c. if c = OpenTmp then Some (EOther 28) else None)) (duty_account 5 1) (1/2) fresh
      = Some (Inl (DutyError ''airtime state could not be written''), s) \<and>
    reserve (bench (\<lambda>_. None)) (duty_account 5 1) (1/2) s = Some (r, s') \<and> (\<exists>e. r = Inl e)"
proof -
  have idle: "idle_peers (bench (\<lambda>_. None))" by (simp add: idle_peers_def bench_def)
  have half: "0 < (1/2 :: real)" by simp
  obtain r s' where run: "reserve (bench (\<lambda>_. None)) (duty_account 5 1) (1/2) (fresh\<lparr>lock_file := True\<rparr>) = Some (r, s')"
    using bench_blocked by blast
  obtain s where s: "reserve (bench (\<lambda>c. if c = OpenTmp then Some (EOther 28) else None)) (duty_account 5 1) (1/2) fresh
      = Some (Inl (DutyError ''airtime state could not be written''), s)"
    "reserve (bench (\<lambda>_. None)) (duty_account 5 1) (1/2) s = Some (r, s') \<Longrightarrow> \<exists>e. r = Inl e"
    using failed_first_write_blocks_for_good [of "bench (\<lambda>_. None)" "1/2" "duty_account 5 1" r s'] idle half by blast
  from s(1) bench_full have "s = fresh\<lparr>lock_file := True\<rparr>" by simp
  with s run show ?thesis by blast
qed

theorem usage_read_only_witness:
  "\<exists>r s'. usage (bench (\<lambda>_. None)) (duty_account 5 1) fresh = Some (r, s') \<and> r = Inr (Fin 0, Fin 0) \<and> open_fds s' = 0"
proof -
  obtain r s' where u: "usage (bench (\<lambda>_. None)) (duty_account 5 1) fresh = Some (r, s')"
    using bench_usage by blast
  have idle: "idle_peers (bench (\<lambda>_. None))" by (simp add: idle_peers_def bench_def)
  from usage_read_only [OF u idle] u show ?thesis by (auto simp: fresh_def)
qed

theorem reserve_terminates_witness:
  "\<exists>r s'. reserve (bench (\<lambda>c. if c = FlockEx then Some EAGAIN else None)) (duty_account 5 1) 1 fresh = Some (r, s')"
  by (rule reserve_terminates [OF bench_live])

theorem rebase_follows_monotonic_time_witness:
  "\<exists>es new s'. rebase (bench (\<lambda>_. None)) [(100, 1)] (JObj (clock_json ''boot'' 999990 200)) fresh = Some (Inr (es, new), s') \<and>
     new \<and> used es 3600 1000000 = used [(100, 1)] 3600 210"
proof -
  have "\<exists>es new s'. rebase (bench (\<lambda>_. None)) [(100, 1)] (JObj (clock_json ''boot'' 999990 200)) fresh = Some (Inr (es, new), s') \<and>
    new = (CLOCK_SKEW_S < \<bar>(1000000 - 200) - (1000000 - 999990 :: real)\<bar>) \<and>
    (if new then (\<forall>win. used es win 1000000 = used [(100, 1)] win (200 + (1000000 - 999990))) else es = [(100, 1)]) \<and>
    (\<exists>t. rebase (bench (\<lambda>_. None)) es (JObj (clock_json ''boot'' 1000000 1000000)) fresh = Some (Inr (es, False), t))"
    by (rule rebase_follows_monotonic_time) (simp_all add: bench_def fresh_def)
  then show ?thesis by (auto simp: CLOCK_SKEW_S_def)
qed

end
