(* ===== verification/Interface.thy ===== *)
theory Interface
  imports Policy OnAir Duty_Properties
begin

text \<open>
  \<open>LoRaSPIInterface\<close> of \<open>loraham_rns/interface.py\<close>: construction, the two calls Reticulum makes,
  the bodies of the receive and transmit threads, and \<open>detach\<close>. The object's state extends the
  radio's by the account, the log and the interface's own fields; the methods of the account and
  of the log run on their part with the device state passed through. What one thread does
  between two points where the other can intervene is one sequential method here; how the
  threads interleave is the subject of the theories \<open>Threads\<close> and \<open>Concurrency\<close>. Log messages of \<open>RNS.log\<close> are not modelled.
\<close>

section \<open>State\<close>

text \<open>\<open>owner.inbound\<close> is Reticulum's: it may raise whatever the platform says.\<close>

record 'd rns_platform = "'d duty_platform" +
  inbound_p :: "byte list \<Rightarrow> 'd \<Rightarrow> exn option \<times> 'd"

text \<open>
  \<open>heard\<close> and \<open>delivered\<close> record what the radio received, with the reassembler's clock, and
  what was handed to Reticulum; \<open>kind\<close> is the class of the radio object.
\<close>

record 'd iface = "'d radio" +
  kind :: driver
  settings_of :: settings
  account :: "'d acct"
  rf_log :: "'d rflog"
  reasm :: "reassembler option"
  tx_queue :: "(byte list \<times> real) list"
  tx_dropped :: nat
  tx_oversize :: nat
  tx_event :: bool
  tx_active :: bool
  running :: bool
  online :: bool
  fatal :: "exn option"
  last_rx :: "(real \<times> real) option"
  rxb :: nat
  txb :: nat
  bit_rate :: int
  heard :: "(real \<times> byte list) list"
  delivered :: "byte list list"

definition MAX_DUTY_HOLD :: real where "MAX_DUTY_HOLD = 120"
definition MAX_QUEUE_PACKETS :: nat where "MAX_QUEUE_PACKETS = 64"

definition on_account :: "('d acct, 'a) py \<Rightarrow> ('d iface, 'a) py" where
  "on_account = liftM (\<lambda>s. (account s)\<lparr>dev := dev s\<rparr>) (\<lambda>a s. s\<lparr>account := a, dev := dev a\<rparr>)"

definition on_log :: "('d rflog, 'a) py \<Rightarrow> ('d iface, 'a) py" where
  "on_log = liftM (\<lambda>s. (rf_log s)\<lparr>dev := dev s\<rparr>) (\<lambda>l s. s\<lparr>rf_log := l, dev := dev l\<rparr>)"

section \<open>The radio behind the interface\<close>

definition with_kind :: "('d iface, 'a) py \<Rightarrow> ('d iface, 'a) py \<Rightarrow> ('d iface, 'a) py" where
  "with_kind m127 m126 = bindM (getM kind) (\<lambda>k. case k of SX127x \<Rightarrow> m127 | SX1262 \<Rightarrow> m126)"

definition radio_configure :: "('d, 'y) platform_scheme \<Rightarrow> modem \<Rightarrow> ('d iface, unit) py" where
  "radio_configure E c = with_kind (sx127x_configure E c) (sx126x_configure E c)"

definition radio_start_rx :: "('d, 'y) platform_scheme \<Rightarrow> ('d iface, unit) py" where
  "radio_start_rx E = with_kind (sx127x_start_rx E) (sx126x_start_rx E)"

definition radio_poll_rx :: "('d, 'y) platform_scheme \<Rightarrow> ('d iface, (byte list \<times> real \<times> real) option) py" where
  "radio_poll_rx E = with_kind (sx127x_poll_rx E) (sx126x_poll_rx E)"

definition radio_transmit :: "('d, 'y) platform_scheme \<Rightarrow> byte list \<Rightarrow> real \<Rightarrow> ('d iface, bool) py" where
  "radio_transmit E data t = with_kind (sx127x_transmit E data t) (sx126x_transmit E data t)"

section \<open>Construction\<close>

definition open_rf_log :: "('d, 'y) platform_scheme \<Rightarrow> pydict \<Rightarrow> ('d iface, unit) py" where
  "open_rf_log E c = bindM (ofE (parse_switch (dict_get c ''rf_log'' (PStr ''no'')))) (\<lambda>on.
     if \<not> on then ret ()
     else if text_value c ''rf_log_path'' = [] then raise (ValueError ''rf_log = yes needs rf_log_path'')
     else bindM (ofE (dict_item c ''rf_log_path'')) (\<lambda>v. on_log (log_open E (PStr (strip (py_str v))))))"

definition modem_airtime :: "modem \<Rightarrow> nat \<Rightarrow> exn + real" where
  "modem_airtime m n = time_on_air n (m_sf m) (m_bandwidth m) (m_cr m) (m_preamble m)"

definition make_reassembler :: "('d iface, unit) py" where
  "make_reassembler = bindM (getM settings_of) (\<lambda>st. if \<not> rnode_framing st then modM (\<lambda>s. s\<lparr>reasm := None\<rparr>)
     else bindM (ofE (modem_airtime (st_modem st) MAX_PAYLOAD)) (\<lambda>t.
       modM (\<lambda>s. s\<lparr>reasm := Some (new_reassembler (Some (max 5 (4 * t))))\<rparr>)))"

definition iface_init :: "('d, 'y) rns_platform_scheme \<Rightarrow> pydict \<Rightarrow> ('d iface, unit) py" where
  "iface_init E c = bindM (ofE (read_settings c)) (\<lambda>st.
     thenM (modM (\<lambda>s. s\<lparr>settings_of := st, online := False, tx_queue := [], tx_dropped := 0, tx_oversize := 0,
       tx_event := False, tx_active := False, running := True, fatal := None, last_rx := None, bit_rate := 0\<rparr>))
    (thenM (open_rf_log E c)
    (thenM (ofE (int_value c ''spi_speed'' 2000000))
    (thenM (let rt = dict_get c ''runtime_dir'' PNone in
       bus_init E (py_str (dict_get c ''spidev'' (PStr ''/dev/spidev0.0''))) (cs (st_profile st)) (if truthy rt then py_str rt else []))
    (case DRIVERS (chip (st_profile st)) of None \<Rightarrow> raise KeyError
     | Some k \<Rightarrow> seqM [modM (\<lambda>s. s\<lparr>kind := k\<rparr>), radio_init E (st_profile st), radio_configure E (st_modem st), radio_start_rx E,
         bindM (ofE (bitrate (m_sf (st_modem st)) (m_bandwidth (st_modem st)) (m_cr (st_modem st)))) (\<lambda>b. modM (\<lambda>s. s\<lparr>bit_rate := b\<rparr>)),
         make_reassembler, modM (\<lambda>s. s\<lparr>online := True\<rparr>)])))))"

section \<open>Calls of Reticulum\<close>

definition process_incoming :: "('d, 'y) rns_platform_scheme \<Rightarrow> byte list \<Rightarrow> ('d iface, unit) py" where
  "process_incoming E data = thenM (modM (\<lambda>s. s\<lparr>rxb := rxb s + length data, delivered := delivered s @ [data]\<rparr>))
     (bindM (askM (inbound_p E data)) (\<lambda>err. case err of None \<Rightarrow> ret () | Some e \<Rightarrow> raise e))"

definition process_outgoing :: "('d, 'y) platform_scheme \<Rightarrow> byte list \<Rightarrow> ('d iface, unit) py" where
  "process_outgoing E data = bindM (getM (\<lambda>s. s)) (\<lambda>s.
     if \<not> online s then ret ()
     else if length data > max_packet (settings_of s) then modM (\<lambda>s. s\<lparr>tx_oversize := tx_oversize s + 1\<rparr>)
     else if length (tx_queue s) \<ge> MAX_QUEUE_PACKETS then modM (\<lambda>s. s\<lparr>tx_dropped := tx_dropped s + 1\<rparr>)
     else bindM (timeM E) (\<lambda>now. modM (\<lambda>s. s\<lparr>tx_queue := tx_queue s @ [(data, now)], tx_event := True\<rparr>)))"

definition detach :: "('d, 'y) platform_scheme \<Rightarrow> ('d iface, unit) py" where
  "detach E = seqM [modM (\<lambda>s. s\<lparr>running := False, tx_event := True, online := False\<rparr>), sleepM E 0.15,
     try_except (thenM (radio_close E) (bus_close E)) (\<lambda>e. if is_Exception e then ret () else raise e),
     on_log (close_locked E)]"

section \<open>The threads\<close>

definition fail_with :: "exn \<Rightarrow> ('d iface, unit) py" where
  "fail_with e = bindM (getM running) (\<lambda>r. if \<not> r then ret ()
     else modM (\<lambda>s. s\<lparr>running := False, tx_event := True, online := False, fatal := Some e\<rparr>))"

text \<open>Lines 302 to 312: a packet was read.\<close>

definition received :: "('d, 'y) rns_platform_scheme \<Rightarrow> byte list \<Rightarrow> real \<Rightarrow> real \<Rightarrow> ('d iface, unit) py" where
  "received E data rssi snr = thenM (modM (\<lambda>s. s\<lparr>last_rx := Some (rssi, snr)\<rparr>)) (thenM (on_log (log_rx E rssi snr data))
     (bindM (getM reasm) (\<lambda>r. case r of
         None \<Rightarrow> thenM (modM (\<lambda>s. s\<lparr>heard := heard s @ [(0, data)]\<rparr>)) (process_incoming E data)
       | Some r \<Rightarrow> bindM (monotonicM E) (\<lambda>now. case feed r now data of (out, r') \<Rightarrow>
           thenM (modM (\<lambda>s. s\<lparr>reasm := Some r', heard := heard s @ [(now, data)]\<rparr>))
             (case out of None \<Rightarrow> ret () | Some packet \<Rightarrow> process_incoming E packet)))))"

definition rx_body :: "('d, 'y) rns_platform_scheme \<Rightarrow> ('d iface, unit) py" where
  "rx_body E = bindM (getM tx_active) (\<lambda>busy. if busy then sleepM E 0.005
     else bindM (wait_irq E 0.1) (\<lambda>_. bindM (getM tx_active) (\<lambda>busy. if busy then ret ()
       else bindM (radio_poll_rx E) (\<lambda>got. case got of None \<Rightarrow> ret () | Some (data, rssi, snr) \<Rightarrow> received E data rssi snr))))"

definition rx_round :: "('d, 'y) rns_platform_scheme \<Rightarrow> ('d iface, unit option) py" where
  "rx_round E = try_except (thenM (rx_body E) (ret None)) (\<lambda>e.
     if is_SpiBusError e \<or> is_RadioError e then thenM (fail_with e) (ret (Some ()))
     else if is_Exception e then bindM (getM running) (\<lambda>r. thenM (if r then sleepM E 0.5 else ret ()) (ret None))
     else raise e)"

definition rx_loop :: "('d, 'y) rns_platform_scheme \<Rightarrow> ('d iface, unit) py" where
  "rx_loop E = loopM (bindM (getM running) (\<lambda>r. if \<not> r then ret (Some ()) else rx_round E))"

definition frames_of :: "('d, 'y) platform_scheme \<Rightarrow> byte list \<Rightarrow> ('d iface, byte list list) py" where
  "frames_of E data = bindM (getM (rnode_framing \<circ> settings_of)) (\<lambda>framing. if \<not> framing then ret [data]
     else bindM (askM (random_p E)) (\<lambda>rnd. ofE (frame rnd None data)))"

definition airtime_of :: "modem \<Rightarrow> byte list list \<Rightarrow> exn + real" where
  "airtime_of m frames = bindE (mapE (\<lambda>f. modem_airtime m (length f)) frames) (\<lambda>ts. Inr (sum_list ts))"

definition reserve_airtime :: "('d, 'y) duty_platform_scheme \<Rightarrow> real \<Rightarrow> real \<Rightarrow> ('d iface, bool) py" where
  "reserve_airtime E toa queued_at = bindM (getM (st_duty \<circ> settings_of)) (\<lambda>cfg.
     loopM (bindM (on_account (reserve E cfg toa)) (\<lambda>(ok, why). if ok then ret (Some True)
       else bindM (timeM E) (\<lambda>now. if now - queued_at > MAX_DUTY_HOLD then ret (Some False)
         else thenM (sleepM E 0.25) (ret None)))))"

definition send_frame :: "('d, 'y) platform_scheme \<Rightarrow> real \<Rightarrow> byte list \<Rightarrow> ('d iface, unit) py" where
  "send_frame E toa f = bindM (radio_transmit E f (max 5 (toa * 4))) (\<lambda>ok.
     on_log (log_tx E (if ok then ''ok'' else ''unconfirmed'') f))"

definition key_up :: "('d, 'y) platform_scheme \<Rightarrow> byte list \<Rightarrow> byte list list \<Rightarrow> real \<Rightarrow> ('d iface, unit) py" where
  "key_up E data frames toa = thenM (modM (\<lambda>s. s\<lparr>tx_active := True\<rparr>))
     (try_finally (thenM (forM frames (send_frame E toa))
        (thenM (modM (\<lambda>s. s\<lparr>txb := txb s + length data\<rparr>)) (radio_start_rx E)))
      (modM (\<lambda>s. s\<lparr>tx_active := False\<rparr>)))"

definition transmit :: "('d, 'y) duty_platform_scheme \<Rightarrow> byte list \<Rightarrow> real \<Rightarrow> ('d iface, unit) py" where
  "transmit E data queued_at = bindM (frames_of E data) (\<lambda>frames.
     bindM (getM (st_modem \<circ> settings_of)) (\<lambda>m. bindM (ofE (airtime_of m frames)) (\<lambda>toa.
       bindM (reserve_airtime E toa queued_at) (\<lambda>granted. if granted then key_up E data frames toa else ret ()))))"

text \<open>One packet of the queue; \<open>Some ()\<close> ends the thread.\<close>

definition tx_item :: "('d, 'y) duty_platform_scheme \<Rightarrow> ('d iface, unit option) py" where
  "tx_item E = bindM (getM (hd \<circ> tx_queue)) (\<lambda>(data, queued_at). thenM (modM (\<lambda>s. s\<lparr>tx_queue := tl (tx_queue s)\<rparr>))
     (try_except (thenM (transmit E data queued_at) (ret None)) (\<lambda>e.
        if is_SpiBusError e \<or> is_RadioError e then thenM (fail_with e) (ret (Some ()))
        else if is_Exception e then ret None else raise e)))"

text \<open>The inner loop; \<open>True\<close> ends the thread.\<close>

definition tx_drain :: "('d, 'y) duty_platform_scheme \<Rightarrow> ('d iface, bool) py" where
  "tx_drain E = loopM (bindM (getM (\<lambda>s. tx_queue s \<noteq> [] \<and> running s)) (\<lambda>go. if \<not> go then ret (Some False)
     else bindM (tx_item E) (\<lambda>r. case r of None \<Rightarrow> ret None | Some _ \<Rightarrow> ret (Some True))))"

text \<open>\<open>Event.wait(timeout=1.0)\<close>: at once when the event is set, after the timeout otherwise.\<close>

definition wait_event :: "('d, 'y) platform_scheme \<Rightarrow> ('d iface, unit) py" where
  "wait_event E = bindM (getM tx_event) (\<lambda>is_set. if is_set then ret () else sleepM E 1)"

definition tx_loop :: "('d, 'y) duty_platform_scheme \<Rightarrow> ('d iface, unit) py" where
  "tx_loop E = loopM (bindM (getM running) (\<lambda>r. if \<not> r then ret (Some ())
     else thenM (wait_event E) (thenM (modM (\<lambda>s. s\<lparr>tx_event := False\<rparr>))
       (bindM (tx_drain E) (\<lambda>ended. ret (if ended then Some () else None))))))"

section \<open>What a method leaves alone\<close>

lemma wp_on_account:
  "wp (on_account m) Q X s = wp m (\<lambda>r a. Q r (s\<lparr>account := a, dev := dev a\<rparr>)) (\<lambda>e a. X e (s\<lparr>account := a, dev := dev a\<rparr>))
     ((account s)\<lparr>dev := dev s\<rparr>)"
  by (simp add: on_account_def wp_liftM)

lemma wp_on_log:
  "wp (on_log m) Q X s = wp m (\<lambda>r l. Q r (s\<lparr>rf_log := l, dev := dev l\<rparr>)) (\<lambda>e l. X e (s\<lparr>rf_log := l, dev := dev l\<rparr>))
     ((rf_log s)\<lparr>dev := dev s\<rparr>)"
  by (simp add: on_log_def wp_liftM)

text \<open>Logging never raises and touches nothing but the log.\<close>

lemma wp_logged:
  assumes "\<And>l d. Q () (s\<lparr>rf_log := l, dev := d\<rparr>)"
  shows "wp (on_log (log_rx E rssi snr data)) Q X s" "wp (on_log (log_tx E outcome data)) Q X s"
proof -
  have "wp (log_rx E rssi snr data) (\<lambda>_ _. True) (\<lambda>_ _. False) l" "wp (log_tx E outcome data) (\<lambda>_ _. True) (\<lambda>_ _. False) l" for l
    unfolding log_rx_def log_tx_def wp_bindM wp_getM timeM_def
    by (auto intro!: wp_mono [OF wp_log_write] split: option.split)
  then show "wp (on_log (log_rx E rssi snr data)) Q X s" "wp (on_log (log_tx E outcome data)) Q X s"
    unfolding wp_on_log using assms by (auto intro: wp_mono)
qed

text \<open>The fields that the radio's methods and the log do not touch.\<close>

definition same_iface :: "'d iface \<Rightarrow> 'd iface \<Rightarrow> bool" where
  "same_iface s x \<longleftrightarrow> kind x = kind s \<and> settings_of x = settings_of s \<and> reasm x = reasm s \<and> tx_queue x = tx_queue s \<and>
     tx_dropped x = tx_dropped s \<and> tx_oversize x = tx_oversize s \<and> running x = running s \<and> online x = online s \<and>
     fatal x = fatal s \<and> heard x = heard s \<and> delivered x = delivered s"

lemma iface_dev [simp]:
  "kind (s\<lparr>dev := d\<rparr>) = kind s" "settings_of (s\<lparr>dev := d\<rparr>) = settings_of s" "account (s\<lparr>dev := d\<rparr>) = account s"
  "rf_log (s\<lparr>dev := d\<rparr>) = rf_log s" "reasm (s\<lparr>dev := d\<rparr>) = reasm s" "tx_queue (s\<lparr>dev := d\<rparr>) = tx_queue s"
  "tx_active (s\<lparr>dev := d\<rparr>) = tx_active s" "running (s\<lparr>dev := d\<rparr>) = running s" "online (s\<lparr>dev := d\<rparr>) = online s"
  "tx_dropped (s\<lparr>dev := d\<rparr>) = tx_dropped s" "tx_oversize (s\<lparr>dev := d\<rparr>) = tx_oversize s" "tx_event (s\<lparr>dev := d\<rparr>) = tx_event s"
  "fatal (s\<lparr>dev := d\<rparr>) = fatal s" "heard (s\<lparr>dev := d\<rparr>) = heard s" "delivered (s\<lparr>dev := d\<rparr>) = delivered s"
  "rxb (s\<lparr>dev := d\<rparr>) = rxb s" "txb (s\<lparr>dev := d\<rparr>) = txb s"
  by (cases s; simp)+

lemma same_iface_refl [simp]: "same_iface s s"
  by (simp add: same_iface_def)

lemma same_iface_trans: "same_iface s x \<Longrightarrow> same_iface x y \<Longrightarrow> same_iface s y"
  by (simp add: same_iface_def)

lemma same_iface_update [simp]:
  "same_iface s (x\<lparr>dev := d\<rparr>) = same_iface s x" "same_iface s (x\<lparr>bus_trace := tr\<rparr>) = same_iface s x"
  "same_iface s (x\<lparr>account := a\<rparr>) = same_iface s x" "same_iface s (x\<lparr>rf_log := l\<rparr>) = same_iface s x"
  "same_iface s (x\<lparr>tx_active := b\<rparr>) = same_iface s x" "same_iface s (x\<lparr>txb := n\<rparr>) = same_iface s x"
  "same_iface s (x\<lparr>last_rx := r\<rparr>) = same_iface s x" "same_iface (s\<lparr>tx_active := b\<rparr>) x = same_iface s x"
  "same_iface (s\<lparr>txb := n\<rparr>) x = same_iface s x" "same_iface (s\<lparr>account := a\<rparr>) x = same_iface s x"
  "same_iface (s\<lparr>dev := d\<rparr>) x = same_iface s x"
  by (simp_all add: same_iface_def)

text \<open>From \<open>s\<close> to \<open>x\<close> the radio loaded exactly \<open>l\<close>.\<close>

definition radiated :: "'d iface \<Rightarrow> byte list list \<Rightarrow> 'd iface \<Rightarrow> bool" where
  "radiated s l x \<longleftrightarrow> same_iface s x \<and> (\<exists>ev. bus_trace x = bus_trace s @ ev \<and> loaded (kind s) (payloads ev) = l)"

text \<open>The same for an initial part of \<open>l\<close>.\<close>

definition radiated_part :: "'d iface \<Rightarrow> byte list list \<Rightarrow> 'd iface \<Rightarrow> bool" where
  "radiated_part s l x \<longleftrightarrow> (\<exists>l'. prefix l' l \<and> radiated s l' x)"

lemma radiated_refl [simp]: "radiated s [] s"
  by (simp add: radiated_def)

lemma radiated_trans: "radiated s l x \<Longrightarrow> radiated x l' y \<Longrightarrow> radiated s (l @ l') y"
  using same_iface_trans by (fastforce simp: radiated_def same_iface_def)

lemma radiated_part_trans: "radiated s l x \<Longrightarrow> radiated_part x l' y \<Longrightarrow> radiated_part s (l @ l') y"
  unfolding radiated_part_def by (metis radiated_trans same_prefix_prefix)

lemma radiated_part_append: "radiated_part s l x \<Longrightarrow> radiated_part s (l @ l') x"
  unfolding radiated_part_def by (metis prefix_prefix)

lemma radiated_partI: "radiated s l x \<Longrightarrow> radiated_part s l x"
  unfolding radiated_part_def by blast

lemma radiated_update [simp]:
  "radiated s l (x\<lparr>dev := d\<rparr>) = radiated s l x" "radiated s l (x\<lparr>account := a\<rparr>) = radiated s l x"
  "radiated s l (x\<lparr>rf_log := g\<rparr>) = radiated s l x" "radiated s l (x\<lparr>tx_active := b\<rparr>) = radiated s l x"
  "radiated s l (x\<lparr>txb := n\<rparr>) = radiated s l x" "radiated (s\<lparr>tx_active := b\<rparr>) l x = radiated s l x"
  "radiated (s\<lparr>txb := n\<rparr>) l x = radiated s l x" "radiated (s\<lparr>account := a\<rparr>) l x = radiated s l x"
  "radiated (s\<lparr>dev := d\<rparr>) l x = radiated s l x"
  by (simp_all add: radiated_def)

lemma radiated_part_update [simp]:
  "radiated_part s l (x\<lparr>dev := d\<rparr>) = radiated_part s l x" "radiated_part s l (x\<lparr>account := a\<rparr>) = radiated_part s l x"
  "radiated_part s l (x\<lparr>rf_log := g\<rparr>) = radiated_part s l x" "radiated_part s l (x\<lparr>tx_active := b\<rparr>) = radiated_part s l x"
  "radiated_part s l (x\<lparr>txb := n\<rparr>) = radiated_part s l x" "radiated_part (s\<lparr>tx_active := b\<rparr>) l x = radiated_part s l x"
  "radiated_part (s\<lparr>txb := n\<rparr>) l x = radiated_part s l x" "radiated_part (s\<lparr>account := a\<rparr>) l x = radiated_part s l x"
  "radiated_part (s\<lparr>dev := d\<rparr>) l x = radiated_part s l x"
  by (simp_all add: radiated_part_def)

lemma aired_radiated: "aired (kind s) s l x \<Longrightarrow> radiated s l x \<and> account x = account s \<and> txb x = txb s"
  by (auto simp: aired_def radiated_def)

lemma aired_part_radiated: "aired_part (kind s) s l x \<Longrightarrow> radiated_part s l x \<and> account x = account s \<and> txb x = txb s"
  unfolding aired_part_def radiated_part_def using aired_radiated by blast

lemma wp_with_kind:
  assumes "airs SX127x m127 l" "airs SX1262 m126 l"
  shows "wp (with_kind m127 m126) (\<lambda>_ x. radiated s l x \<and> account x = account s \<and> txb x = txb s)
    (\<lambda>_ x. radiated_part s l x \<and> account x = account s \<and> txb x = txb s) s"
proof -
  have "wp (case kind s of SX127x \<Rightarrow> m127 | SX1262 \<Rightarrow> m126) (\<lambda>_. aired (kind s) s l) (\<lambda>_. aired_part (kind s) s l) s"
    using airsD [OF assms(1), of s] airsD [OF assms(2), of s] by (cases "kind s") simp_all
  then show ?thesis
    unfolding with_kind_def wp_bindM wp_getM by (rule wp_mono) (auto dest: aired_radiated aired_part_radiated)
qed

lemma wp_radio:
  "wp (radio_transmit E f t) (\<lambda>_ x. radiated s [f] x \<and> account x = account s \<and> txb x = txb s)
    (\<lambda>_ x. radiated_part s [f] x \<and> account x = account s \<and> txb x = txb s) s"
  "wp (radio_start_rx E) (\<lambda>_ x. radiated s [] x \<and> account x = account s \<and> txb x = txb s)
    (\<lambda>_ x. radiated_part s [] x \<and> account x = account s \<and> txb x = txb s) s"
  "wp (radio_poll_rx E) (\<lambda>_ x. radiated s [] x \<and> account x = account s \<and> txb x = txb s)
    (\<lambda>_ x. radiated_part s [] x \<and> account x = account s \<and> txb x = txb s) s"
  unfolding radio_transmit_def radio_start_rx_def radio_poll_rx_def
  by (rule wp_with_kind airs_127_ops airs_126_ops)+

section \<open>Transmission\<close>

text \<open>The state a transmission leaves for the other thread, whatever happened.\<close>

lemma wp_send_frame:
  "wp (send_frame E toa f) (\<lambda>_ x. radiated s [f] x \<and> account x = account s \<and> txb x = txb s)
     (\<lambda>_ x. radiated_part s [f] x \<and> account x = account s) s"
  unfolding send_frame_def wp_bindM
  by (rule wp_mono [OF wp_radio(1)]) (auto intro!: wp_logged)

lemma wp_send_frames:
  "wp (forM frames (send_frame E toa)) (\<lambda>_ x. radiated s frames x \<and> account x = account s \<and> txb x = txb s)
     (\<lambda>_ x. radiated_part s frames x \<and> account x = account s) s"
proof (induction frames arbitrary: s)
  case (Cons f fs)
  have f: "wp (send_frame E toa f) (\<lambda>_ x. radiated s [f] x \<and> account x = account s \<and> txb x = txb s)
      (\<lambda>_ x. radiated_part s [f] x \<and> account x = account s) s" by (rule wp_send_frame)
  have "wp (forM fs (send_frame E toa)) (\<lambda>_ y. radiated s (f # fs) y \<and> account y = account s \<and> txb y = txb s)
      (\<lambda>_ y. radiated_part s (f # fs) y \<and> account y = account s) x"
    if "radiated s [f] x \<and> account x = account s \<and> txb x = txb s" for x
    by (rule wp_mono [OF Cons.IH]) (use that in \<open>auto dest: radiated_trans radiated_part_trans\<close>)
  moreover have "radiated_part s (f # fs) x" if "radiated_part s [f] x" for x
    using radiated_part_append [OF that, of fs] by simp
  ultimately show ?case by (simp only: forM.simps wp_thenM) (rule wp_mono [OF f], auto)
qed simp

lemma wp_key_up:
  "wp (key_up E data frames toa)
     (\<lambda>_ x. radiated s frames x \<and> account x = account s \<and> \<not> tx_active x \<and> txb x = txb s + length data)
     (\<lambda>_ x. radiated_part s frames x \<and> account x = account s \<and> \<not> tx_active x) s"
proof -
  let ?s = "s\<lparr>tx_active := True\<rparr>"
  have rx: "wp (radio_start_rx E) (\<lambda>_ y. radiated s frames y \<and> account y = account s \<and> txb y = txb s + length data)
      (\<lambda>_ y. radiated_part s frames y \<and> account y = account s) (x\<lparr>txb := txb s + length data\<rparr>)"
    if "radiated s frames x" "account x = account s" for x
    by (rule wp_mono [OF wp_radio(2)]) (use that in \<open>auto dest: radiated_trans [of s frames x] radiated_part_trans [of s frames x]\<close>)
  show ?thesis
    unfolding key_up_def wp_thenM wp_modM wp_try_finally
    by (rule wp_mono [OF wp_send_frames]) (auto intro!: wp_mono [OF rx])
qed


text \<open>
  Modem settings the radio standard allows; under them a frame takes time. The configuration
  does not enforce them.
\<close>

definition sane :: "modem \<Rightarrow> bool" where
  "sane m \<longleftrightarrow> 7 \<le> m_sf m \<and> m_sf m \<le> 12 \<and> 5 \<le> m_cr m \<and> m_cr m \<le> 8 \<and> 0 < m_bandwidth m \<and> 0 \<le> m_preamble m"

lemma modem_airtime_pos: "sane m \<Longrightarrow> modem_airtime m n = Inr t \<Longrightarrow> 0 < t"
  using time_on_air_pos(2) [of "m_bandwidth m" "m_preamble m" n "m_sf m" "m_cr m" t]
  by (simp add: sane_def modem_airtime_def)

lemma airtime_of_pos:
  assumes "sane m" "frames \<noteq> []" "airtime_of m frames = Inr toa"
  shows "0 < toa"
proof -
  obtain ts where ts: "list_all2 (\<lambda>f t. modem_airtime m (length f) = Inr t) frames ts" "toa = sum_list ts"
    using assms(3) by (auto simp: airtime_of_def bindE_Inr_iff mapE_Inr_iff)
  have "0 < t" if "t \<in> set ts" for t
  proof -
    from that obtain i where "i < length ts" "t = ts ! i" by (auto simp: in_set_conv_nth)
    with ts(1) have "modem_airtime m (length (frames ! i)) = Inr t" by (simp add: list_all2_conv_all_nth)
    then show ?thesis by (rule modem_airtime_pos [OF assms(1)])
  qed
  moreover have "ts \<noteq> []" using ts(1) assms(2) by auto
  ultimately show ?thesis using ts(2) by (cases ts) (simp_all add: add_pos_nonneg sum_list_nonneg less_imp_le)
qed

text \<open>Waiting for the account: nothing goes on air, and a grant is on disk.\<close>

lemma wp_reserve_airtime:
  assumes "0 < toa" "\<not> lock_held (account s)" "0 < long_window (st_duty (settings_of s))"
  shows "wp (reserve_airtime E toa queued_at)
     (\<lambda>ok x. same_iface s x \<and> bus_trace x = bus_trace s \<and> tx_active x = tx_active s \<and> txb x = txb s \<and>
        \<not> lock_held (account x) \<and> (ok \<longrightarrow> granted E (st_duty (settings_of s)) toa (account x)))
     (\<lambda>_ x. same_iface s x \<and> bus_trace x = bus_trace s \<and> tx_active x = tx_active s \<and> \<not> lock_held (account x)) s"
proof -
  let ?I = "\<lambda>x. same_iface s x \<and> bus_trace x = bus_trace s \<and> tx_active x = tx_active s \<and> txb x = txb s \<and> \<not> lock_held (account x)"
  have res: "wp (on_account (reserve E (st_duty (settings_of s)) toa))
      (\<lambda>r y. ?I y \<and> (fst r \<longrightarrow> granted E (st_duty (settings_of s)) toa (account y))) (\<lambda>_. ?I) x" if "?I x" for x
    unfolding wp_on_account
    by (rule wp_mono [OF wp_reserve_granted]) (use that assms in \<open>auto\<close>)
  show ?thesis
    unfolding reserve_airtime_def wp_bindM wp_getM comp_def
  proof (rule wp_loopM [where I = ?I])
    fix x assume x: "?I x"
    show "wp (bindM (on_account (reserve E (st_duty (settings_of s)) toa)) (\<lambda>(ok, why). if ok then ret (Some True)
       else bindM (timeM E) (\<lambda>now. if now - queued_at > MAX_DUTY_HOLD then ret (Some False)
         else thenM (sleepM E 0.25) (ret None))))
      (\<lambda>r t. case r of None \<Rightarrow> ?I t | Some ok \<Rightarrow> same_iface s t \<and> bus_trace t = bus_trace s \<and> tx_active t = tx_active s \<and>
         txb t = txb s \<and> \<not> lock_held (account t) \<and> (ok \<longrightarrow> granted E (st_duty (settings_of s)) toa (account t)))
      (\<lambda>_ x. same_iface s x \<and> bus_trace x = bus_trace s \<and> tx_active x = tx_active s \<and> \<not> lock_held (account x)) x"
      unfolding wp_bindM
      by (rule wp_mono [OF res [OF x]]) (auto simp: timeM_def intro!: wp_sleepM split: prod.splits)
  qed (use assms in simp)
qed


text \<open>The frames of a packet, as \<open>frames_of\<close> makes them with some random byte.\<close>

definition framed :: "settings \<Rightarrow> byte list \<Rightarrow> byte list list \<Rightarrow> bool" where
  "framed st data frames \<longleftrightarrow> (if rnode_framing st then (\<exists>rnd. frame rnd None data = Inr frames) else frames = [data])"

lemma framed_nonempty: "framed st data frames \<Longrightarrow> frames \<noteq> []"
  by (auto simp: framed_def frame_def Let_def split: if_splits)

lemma wp_frames_of:
  assumes "\<And>frames d. framed (settings_of s) data frames \<Longrightarrow> Q frames (s\<lparr>dev := d\<rparr>)" "\<And>e d. X e (s\<lparr>dev := d\<rparr>)"
  shows "wp (frames_of E data) Q X s"
proof -
  have "Q frames (s\<lparr>dev := d\<rparr>)" if "rnode_framing (settings_of s)" "frame rnd None data = Inr frames" for rnd frames d
    by (rule assms(1)) (use that in \<open>auto simp: framed_def\<close>)
  moreover have "Q [data] s" if "\<not> rnode_framing (settings_of s)"
    using assms(1) [of "[data]" "dev s"] that by (simp add: framed_def)
  ultimately show ?thesis using assms(2) by (auto simp: frames_of_def split: sum.split)
qed

text \<open>
  The outcome of a transmission: either nothing went on air, or the account holds a granted
  entry for the airtime of all the frames.
\<close>

definition charged :: "('d, 'y) duty_platform_scheme \<Rightarrow> byte list \<Rightarrow> byte list list \<Rightarrow> 'd iface \<Rightarrow> bool" where
  "charged E data frames x \<longleftrightarrow> framed (settings_of x) data frames \<and>
     (\<exists>toa. airtime_of (st_modem (settings_of x)) frames = Inr toa \<and> granted E (st_duty (settings_of x)) toa (account x))"

definition transmitted :: "('d, 'y) duty_platform_scheme \<Rightarrow> byte list \<Rightarrow> 'd iface \<Rightarrow> 'd iface \<Rightarrow> bool" where
  "transmitted E data s x \<longleftrightarrow> \<not> tx_active x \<and> \<not> lock_held (account x) \<and> (\<exists>frames. radiated s frames x \<and>
     (bus_trace x = bus_trace s \<and> txb x = txb s \<or> charged E data frames x \<and> txb x = txb s + length data))"

definition transmit_failed :: "('d, 'y) duty_platform_scheme \<Rightarrow> byte list \<Rightarrow> 'd iface \<Rightarrow> 'd iface \<Rightarrow> bool" where
  "transmit_failed E data s x \<longleftrightarrow> \<not> tx_active x \<and> \<not> lock_held (account x) \<and> (\<exists>frames. radiated_part s frames x \<and>
     (bus_trace x = bus_trace s \<or> charged E data frames x))"

lemma radiated_none: "same_iface s x \<Longrightarrow> bus_trace x = bus_trace s \<Longrightarrow> radiated s [] x"
  by (simp add: radiated_def)

lemma wp_key_up_charged:
  assumes f: "framed (settings_of s) data frames" "airtime_of (st_modem (settings_of s)) frames = Inr toa"
    and x: "same_iface s x" "bus_trace x = bus_trace s" "txb x = txb s" "\<not> lock_held (account x)"
      "granted E (st_duty (settings_of s)) toa (account x)"
  shows "wp (key_up E data frames toa) (\<lambda>_. transmitted E data s) (\<lambda>_. transmit_failed E data s) x"
proof (rule wp_mono [OF wp_key_up])
  have ch: "charged E data frames y" if "radiated x l y" "account y = account x" for l y
    using f x that by (auto simp: charged_def radiated_def same_iface_def)
  have r: "radiated s l y" if "radiated x l y" for l y using radiated_trans [OF radiated_none that] x by simp
  have rp: "radiated_part s l y" if "radiated_part x l y" for l y using radiated_part_trans [OF radiated_none that] x by simp
  have chp: "charged E data frames y" if "radiated_part x l y" "account y = account x" for l y
    using ch that by (auto simp: radiated_part_def)
  fix y
  show "transmitted E data s y"
    if "radiated x frames y \<and> account y = account x \<and> \<not> tx_active y \<and> txb y = txb x + length data"
    unfolding transmitted_def using that ch r x by (intro conjI exI [of _ frames]) auto
  show "transmit_failed E data s y" if "radiated_part x frames y \<and> account y = account x \<and> \<not> tx_active y"
    unfolding transmit_failed_def using that chp rp x by (intro conjI exI [of _ frames]) auto
qed

lemma wp_transmit:
  assumes "sane (st_modem (settings_of s))" "\<not> lock_held (account s)" "0 < long_window (st_duty (settings_of s))" "\<not> tx_active s"
  shows "wp (transmit E data queued_at) (\<lambda>_. transmitted E data s) (\<lambda>_. transmit_failed E data s) s"
proof -
  have none: "transmit_failed E data s x" "txb x = txb s \<Longrightarrow> transmitted E data s x"
    if "same_iface s x" "bus_trace x = bus_trace s" "tx_active x = tx_active s" "\<not> lock_held (account x)" for x
    using that radiated_none [of s x] radiated_partI [of s "[]" x] assms by (auto simp: transmit_failed_def transmitted_def)
  show ?thesis
    unfolding transmit_def wp_bindM wp_getM comp_def
  proof (rule wp_frames_of)
    fix frames d
    assume f: "framed (settings_of s) data frames"
    let ?s = "s\<lparr>dev := d\<rparr>"
    show "wp (ofE (airtime_of (st_modem (settings_of ?s)) frames)) (\<lambda>toa. wp (reserve_airtime E toa queued_at)
        (\<lambda>granted. wp (if granted then key_up E data frames toa else ret ()) (\<lambda>_. transmitted E data s)
           (\<lambda>_. transmit_failed E data s)) (\<lambda>_. transmit_failed E data s)) (\<lambda>_. transmit_failed E data s) ?s"
    proof (cases "airtime_of (st_modem (settings_of s)) frames")
      case (Inr toa)
      have "0 < toa" by (rule airtime_of_pos [OF assms(1) framed_nonempty [OF f] Inr])
      then have "wp (reserve_airtime E toa queued_at)
          (\<lambda>ok x. same_iface s x \<and> bus_trace x = bus_trace s \<and> tx_active x = tx_active s \<and> txb x = txb s \<and>
             \<not> lock_held (account x) \<and> (ok \<longrightarrow> granted E (st_duty (settings_of s)) toa (account x)))
          (\<lambda>_ x. same_iface s x \<and> bus_trace x = bus_trace s \<and> tx_active x = tx_active s \<and> \<not> lock_held (account x)) ?s"
        using wp_reserve_airtime [of toa ?s E queued_at] assms by simp
      then have "wp (reserve_airtime E toa queued_at) (\<lambda>granted. wp (if granted then key_up E data frames toa else ret ())
          (\<lambda>_. transmitted E data s) (\<lambda>_. transmit_failed E data s)) (\<lambda>_. transmit_failed E data s) ?s"
        by (rule wp_mono) (auto intro!: wp_key_up_charged [OF f Inr] none)
      with Inr show ?thesis by simp
    next
      case (Inl e)
      with assms show ?thesis by (auto intro: none)
    qed
  qed (use assms in \<open>auto intro: none\<close>)
qed

end
