(* ===== verification/Interface_Properties.thy ===== *)
theory Interface_Properties
  imports Interface
begin

text \<open>
  The properties of the interface: what a transmission charges and radiates, what the outbound
  queue keeps, what reception hands to Reticulum, how the threads end, and what a constructed
  interface is.
\<close>

section \<open>Transmission\<close>

definition ready :: "'d iface \<Rightarrow> bool" where
  "ready s \<longleftrightarrow> sane (st_modem (settings_of s)) \<and> (\<exists>short long. st_duty (settings_of s) = duty_account short long) \<and>
     \<not> lock_held (account s) \<and> \<not> tx_active s"

lemma wp_transmit_ready: "ready s \<Longrightarrow> wp (transmit E data queued_at) (\<lambda>_. transmitted E data s) (\<lambda>_. transmit_failed E data s) s"
  by (rule wp_transmit) (auto simp: ready_def duty_account_def)

text \<open>
  C1. Nothing is radiated that was not charged: whatever the outcome of a transmission, either no
  transfer was made to the radio at all, or the account on disk holds a granted entry for the
  airtime of every frame of the packet, made before keying up and within the hourly limit, and what
  was loaded for transmission is an initial part of these frames; and the
  transmit flag that keeps the receiver away is down again.
\<close>

theorem transmit_charged_first:
  assumes "transmit E data queued_at s = Some (r, s')" "ready s"
  shows "\<not> tx_active s' \<and> (bus_trace s' = bus_trace s \<or>
    (\<exists>frames toa ev. framed (settings_of s) data frames \<and> airtime_of (st_modem (settings_of s)) frames = Inr toa \<and>
       granted E (st_duty (settings_of s)) toa (account s') \<and>
       bus_trace s' = bus_trace s @ ev \<and> prefix (loaded (kind s) (payloads ev)) frames))"
proof -
  have "\<not> tx_active s' \<and> (\<exists>frames. radiated_part s frames s' \<and> (bus_trace s' = bus_trace s \<or> charged E data frames s'))"
  proof (cases r)
    case (Inl e)
    have "transmit_failed E data s s'" by (rule wpD(2) [OF wp_transmit_ready [OF assms(2)]]) (use assms(1) Inl in simp)
    then show ?thesis by (auto simp: transmit_failed_def)
  next
    case (Inr v)
    have "transmitted E data s s'" by (rule wpD(1) [OF wp_transmit_ready [OF assms(2)]]) (use assms(1) Inr in simp)
    then show ?thesis unfolding transmitted_def by (blast intro: radiated_partI)
  qed
  then obtain frames where f: "\<not> tx_active s'" "radiated_part s frames s'" "bus_trace s' = bus_trace s \<or> charged E data frames s'" by blast
  then obtain ev where ev: "same_iface s s'" "bus_trace s' = bus_trace s @ ev" "prefix (loaded (kind s) (payloads ev)) frames"
    by (auto simp: radiated_part_def radiated_def)
  from f(3) show ?thesis
  proof
    assume "charged E data frames s'"
    with ev f(1) show ?thesis by (auto simp: charged_def same_iface_def)
  qed (use f(1) in simp)
qed

text \<open>
  C3. A transmission that returns without dropping its packet has put exactly its frames on air,
  each once and in order. Without framing that is the packet; with framing, an idle
  reassembler at the other end that hears them gives back exactly the packet, if the second frame
  of a split one arrives in time.
\<close>

theorem transmit_reaches_peer:
  assumes "transmit E data queued_at s = Some (Inr (), s')" "ready s" "bus_trace s' \<noteq> bus_trace s" "data \<noteq> []"
    and "pending peer = None" "\<forall>a. max_age peer = Some a \<longrightarrow> t1 - t0 \<le> a"
  shows "\<exists>ev. bus_trace s' = bus_trace s @ ev \<and> (if \<not> rnode_framing (settings_of s) then loaded (kind s) (payloads ev) = [data]
    else \<exists>peer'. feed_all peer (zip [t0, t1] (loaded (kind s) (payloads ev))) =
      (replicate (length (loaded (kind s) (payloads ev)) - 1) None @ [Some data], peer') \<and> pending peer' = None)"
proof -
  from wpD(1) [OF wp_transmit_ready [OF assms(2)] assms(1)] assms(3) obtain frames where
    ch: "radiated s frames s'" "charged E data frames s'" by (auto simp: transmitted_def)
  then obtain ev where ev: "bus_trace s' = bus_trace s @ ev" "loaded (kind s) (payloads ev) = frames"
    and fr: "framed (settings_of s) data frames"
    by (auto simp: radiated_def charged_def same_iface_def)
  show ?thesis
  proof (cases "rnode_framing (settings_of s)")
    case True
    with fr obtain rnd where "frame rnd None data = Inr frames" by (auto simp: framed_def)
    from rx.packet_delivered [OF this assms(4-6)] True ev show ?thesis
      by (elim disjE exE conjE) auto
  next
    case False
    with fr ev show ?thesis by (simp add: framed_def)
  qed
qed

section \<open>One frame\<close>

text \<open>
  C40. On a platform whose clock advances the transmission of one frame ends, with either driver: one that returns, confirmed
  or not, was of at most 255 bytes, has loaded exactly this frame into the transmit buffer and
  has left TX-enable driven low; one that raises raises a radio fault.
\<close>

theorem radio_transmit_safe:
  assumes "advancing E clk tick"
  shows "\<exists>r s'. radio_transmit E data t s = Some (r, s') \<and>
    (case r of Inr ok \<Rightarrow> txen_low s s' \<and> length data \<le> MAX_PAYLOAD \<and> radiated s [data] s' | Inl e \<Rightarrow> radio_fault e)"
proof -
  have "\<exists>r s'. radio_transmit E data t s = Some (r, s') \<and>
    (case r of Inr ok \<Rightarrow> txen_low s s' \<and> length data \<le> MAX_PAYLOAD | Inl e \<Rightarrow> radio_fault e)"
    using sx127x_transmit_safe [OF assms, of data t s] sx126x_transmit_safe [OF assms, of data t s]
    by (cases "kind s") (simp_all add: radio_transmit_def with_kind_def bindM_def getM_def)
  then obtain r s' where r: "radio_transmit E data t s = Some (r, s')"
    "case r of Inr ok \<Rightarrow> txen_low s s' \<and> length data \<le> MAX_PAYLOAD | Inl e \<Rightarrow> radio_fault e" by blast
  then show ?thesis using wpD(1) [OF wp_radio(1), of E data t s] by (cases r) auto
qed

section \<open>The outbound queue\<close>

definition offered :: "'d iface \<Rightarrow> nat" where
  "offered s = length (tx_queue s) + tx_dropped s + tx_oversize s"

lemma wp_process_outgoing:
  "wp (process_outgoing E data) (\<lambda>_ x. online x = online s \<and> settings_of x = settings_of s \<and> bus_trace x = bus_trace s \<and>
     offered x = (if online s then Suc (offered s) else offered s) \<and>
     (length (tx_queue s) \<le> MAX_QUEUE_PACKETS \<longrightarrow> length (tx_queue x) \<le> MAX_QUEUE_PACKETS) \<and>
     (\<exists>new. tx_queue x = tx_queue s @ new \<and> (\<forall>(p, _) \<in> set new. p = data \<and> length p \<le> max_packet (settings_of s)))) (\<lambda>_ _. False) s"
  by (auto simp: process_outgoing_def offered_def MAX_QUEUE_PACKETS_def timeM_def)

text \<open>
  C39. Submitting any packets to a running interface never raises, never touches the radio and never
  grows the queue beyond 64 packets; every packet is either queued, or counted as dropped or
  as oversize, and only packets within the limit are queued.
\<close>

theorem outgoing_bounded_and_counted:
  fixes s :: "'d iface"
  assumes "online s" "length (tx_queue s) \<le> MAX_QUEUE_PACKETS" "\<forall>(p, _) \<in> set (tx_queue s). length p \<le> max_packet (settings_of s)"
  shows "\<exists>s'. forM packets (process_outgoing E) s = Some (Inr (), s') \<and> length (tx_queue s') \<le> MAX_QUEUE_PACKETS \<and>
    offered s' = offered s + length packets \<and> bus_trace s' = bus_trace s \<and>
    (\<forall>(p, _) \<in> set (tx_queue s'). length p \<le> max_packet (settings_of s))"
proof -
  let ?I = "\<lambda>(l :: byte list list) x. online x \<and> settings_of x = settings_of s \<and> bus_trace x = bus_trace s \<and> offered x = offered s + length l \<and>
    length (tx_queue x) \<le> MAX_QUEUE_PACKETS \<and> (\<forall>(p, _) \<in> set (tx_queue x). length p \<le> max_packet (settings_of s))"
  have w: "wp (forM packets (process_outgoing E)) (\<lambda>_. ?I packets) (\<lambda>_ _. False) s"
  proof (rule wp_forM [where I = ?I])
    fix l data and x :: "'d iface" assume x: "?I l x"
    show "wp (process_outgoing E data) (\<lambda>_. ?I (l @ [data])) (\<lambda>_ _. False) x"
      by (rule wp_mono [OF wp_process_outgoing]) (use x in \<open>auto\<close>)
  qed (use assms in simp)
  have t: "total (forM packets (process_outgoing E))"
    unfolding process_outgoing_def timeM_def by (intro tkeeps_rules) (simp add: tkeeps_def)
  obtain r s' where rs: "forM packets (process_outgoing E) s = Some (r, s')" using tkeepsD [OF t] by blast
  with wpD(2) [OF w] have "r = Inr ()" by (cases r) auto
  with rs wpD(1) [OF w] show ?thesis by blast
qed

section \<open>Reception\<close>

text \<open>
  The reception invariant: what was handed to Reticulum is what the radio received, packet by
  packet, or, with framing, what the reassembler made of it.
\<close>

definition deliveries :: "byte list option list \<Rightarrow> byte list list" where
  "deliveries outs = concat (map (\<lambda>out. case out of None \<Rightarrow> [] | Some p \<Rightarrow> [p]) outs)"

definition faithful :: "reassembler option \<Rightarrow> reassembler option \<Rightarrow> (real \<times> byte list) list \<Rightarrow> byte list list \<Rightarrow> bool" where
  "faithful start r hs ds \<longleftrightarrow> (case start of
       None \<Rightarrow> r = None \<and> ds = map snd hs
     | Some r0 \<Rightarrow> \<exists>outs r'. r = Some r' \<and> feed_all r0 hs = (outs, r') \<and> ds = deliveries outs)"

definition rx_faithful :: "reassembler option \<Rightarrow> 'd iface \<Rightarrow> bool" where
  "rx_faithful start s \<longleftrightarrow> faithful start (reasm s) (heard s) (delivered s)"

lemma faithful_whole: "faithful start None h d \<Longrightarrow> faithful start None (h @ [(t, data)]) (d @ [data])"
  by (simp add: faithful_def split: option.splits)

lemma faithful_feed:
  assumes "faithful start (Some r) h d" "feed r now data = (out, r')"
  shows "faithful start (Some r') (h @ [(now, data)]) (d @ (case out of None \<Rightarrow> [] | Some p \<Rightarrow> [p]))"
  using assms by (auto simp: faithful_def feed_all_snoc deliveries_def split: option.splits)

lemma rx_faithful_same: "same_iface s x \<Longrightarrow> rx_faithful start x = rx_faithful start s"
  by (simp add: rx_faithful_def same_iface_def)

lemma rx_faithful_fields [simp]:
  "rx_faithful start (s\<lparr>dev := d\<rparr>) = rx_faithful start s" "rx_faithful start (s\<lparr>bus_trace := tr\<rparr>) = rx_faithful start s"
  "rx_faithful start (s\<lparr>tx_queue := q\<rparr>) = rx_faithful start s" "rx_faithful start (s\<lparr>tx_active := b\<rparr>) = rx_faithful start s"
  "rx_faithful start (s\<lparr>tx_event := b\<rparr>) = rx_faithful start s" "rx_faithful start (s\<lparr>txb := n\<rparr>) = rx_faithful start s"
  "rx_faithful start (s\<lparr>rf_log := l\<rparr>) = rx_faithful start s" "rx_faithful start (s\<lparr>account := a\<rparr>) = rx_faithful start s"
  "rx_faithful start (s\<lparr>last_rx := o1\<rparr>) = rx_faithful start s" "rx_faithful start (s\<lparr>running := b\<rparr>) = rx_faithful start s"
  "rx_faithful start (s\<lparr>online := b\<rparr>) = rx_faithful start s" "rx_faithful start (s\<lparr>fatal := o2\<rparr>) = rx_faithful start s"
  "rx_faithful start (s\<lparr>tx_dropped := n\<rparr>) = rx_faithful start s" "rx_faithful start (s\<lparr>tx_oversize := n\<rparr>) = rx_faithful start s"
  by (simp_all add: rx_faithful_def)

lemma wp_process_incoming:
  "(\<And>d n. Q () (s\<lparr>rxb := n, delivered := delivered s @ [data], dev := d\<rparr>)) \<Longrightarrow>
   (\<And>e d n. X e (s\<lparr>rxb := n, delivered := delivered s @ [data], dev := d\<rparr>)) \<Longrightarrow> wp (process_incoming E data) Q X s"
  by (auto simp: process_incoming_def split: option.split)

lemma wp_received:
  assumes "rx_faithful start s"
  shows "wp (received E data rssi snr) (\<lambda>_. rx_faithful start) (\<lambda>_. rx_faithful start) s"
  unfolding received_def wp_thenM wp_bindM wp_modM wp_getM
proof (rule wp_logged)
  fix l d
  let ?s = "s\<lparr>last_rx := Some (rssi, snr), rf_log := l, dev := d\<rparr>"
  show "wp (case reasm ?s of None \<Rightarrow> thenM (modM (\<lambda>s. s\<lparr>heard := heard s @ [(0, data)]\<rparr>)) (process_incoming E data)
       | Some r \<Rightarrow> bindM (monotonicM E) (\<lambda>now. case feed r now data of (out, r') \<Rightarrow>
           thenM (modM (\<lambda>s. s\<lparr>reasm := Some r', heard := heard s @ [(now, data)]\<rparr>))
             (case out of None \<Rightarrow> ret () | Some packet \<Rightarrow> process_incoming E packet)))
     (\<lambda>_. rx_faithful start) (\<lambda>_. rx_faithful start) ?s"
  proof (cases "reasm s")
    case None
    with assms have "faithful start None (heard s @ [(0, data)]) (delivered s @ [data])"
      by (simp add: rx_faithful_def faithful_whole)
    with None show ?thesis by (auto intro!: wp_process_incoming simp: rx_faithful_def)
  next
    case (Some r)
    with assms have f: "faithful start (Some r') (heard s @ [(now, data)]) (delivered s @ (case out of None \<Rightarrow> [] | Some p \<Rightarrow> [p]))"
      if "feed r now data = (out, r')" for now out r'
      using that by (simp add: rx_faithful_def faithful_feed)
    have "wp (case feed r now data of (out, r') \<Rightarrow>
           thenM (modM (\<lambda>s. s\<lparr>reasm := Some r', heard := heard s @ [(now, data)]\<rparr>))
             (case out of None \<Rightarrow> ret () | Some packet \<Rightarrow> process_incoming E packet))
        (\<lambda>_. rx_faithful start) (\<lambda>_. rx_faithful start) (?s\<lparr>dev := d'\<rparr>)" for now d'
    proof (cases "feed r now data")
      case (Pair out r')
      from f [OF this] show ?thesis
        by (cases out) (auto simp: Pair rx_faithful_def intro!: wp_process_incoming)
    qed
    with Some show ?thesis by (simp add: monotonicM_def)
  qed
qed

text \<open>Invariants over the fields of \<open>same_iface\<close> are kept by everything that leaves those alone.\<close>

definition iface_closed :: "('d iface \<Rightarrow> bool) \<Rightarrow> bool" where
  "iface_closed I \<longleftrightarrow> (\<forall>s x. same_iface s x \<longrightarrow> I s \<longrightarrow> I x)"

lemma keeps_same:
  fixes m :: "('d iface, 'a) py"
  assumes "iface_closed I" "\<And>s. wp m (\<lambda>_. same_iface s) (\<lambda>_. same_iface s) s"
  shows "keeps I m"
  unfolding keeps_wp
proof (intro allI impI)
  fix s :: "'d iface" assume "I s"
  with assms(1) show "wp m (\<lambda>_. I) (\<lambda>_. I) s"
    by - (rule wp_mono [OF assms(2)], auto simp: iface_closed_def)
qed

lemma radiated_same: "radiated s l x \<Longrightarrow> same_iface s x" "radiated_part s l x \<Longrightarrow> same_iface s x"
  by (auto simp: radiated_def radiated_part_def)

lemma keeps_closed_radio:
  assumes "iface_closed I"
  shows "keeps I (radio_transmit E f t)" "keeps I (radio_start_rx E)" "keeps I (radio_poll_rx E)"
  by (rule keeps_same [OF assms], rule wp_mono, rule wp_radio, (auto dest: radiated_same) [2])+

lemma wp_any: "(\<And>x t. Q x t) \<Longrightarrow> (\<And>e t. X e t) \<Longrightarrow> wp m Q X s"
  by (simp add: wp_def split: option.split sum.split)

lemma keeps_closed_parts:
  assumes "iface_closed I"
  shows "keeps I (on_account m)" "keeps I (on_log n)" "keeps I (wait_irq E t)" "dev_free I"
proof -
  have step: "I x" if "I s" "same_iface s x" for s x using assms that by (auto simp: iface_closed_def)
  have I: "I (s\<lparr>account := a, dev := d\<rparr>)" "I (s\<lparr>rf_log := l, dev := d\<rparr>)" "I (s\<lparr>dev := d\<rparr>)" if "I s" for s a d l
    by (rule step [OF that], simp)+
  show "keeps I (on_account m)" unfolding keeps_wp wp_on_account by (intro allI impI wp_any I)
  show "keeps I (on_log n)" unfolding keeps_wp wp_on_log by (intro allI impI wp_any I)
  show "dev_free I" using I(3) by (simp add: dev_free_def)
  then show "keeps I (wait_irq E t)"
    unfolding wait_irq_def by (intro keeps_rules)
qed

lemma iface_closed_faithful [simp]: "iface_closed (rx_faithful start)"
  by (auto simp: iface_closed_def rx_faithful_same)

lemmas keeps_iface = keeps_closed_radio keeps_closed_parts

lemmas keeps_faithful = keeps_iface [OF iface_closed_faithful]

lemma keeps_rx_round: "keeps (rx_faithful start) (rx_round E)"
proof -
  have "keeps (rx_faithful start) (received E data rssi snr)" for data rssi snr
    by (simp add: keeps_wp wp_received)
  then have "keeps (rx_faithful start) (rx_body E)"
    unfolding rx_body_def by (intro keeps_rules keeps_faithful)
  then show ?thesis
    unfolding rx_round_def fail_with_def by (intro keeps_rules keeps_faithful; simp)
qed

lemma keeps_transmit: "keeps (rx_faithful start) (transmit E data queued_at)"
  unfolding transmit_def frames_of_def reserve_airtime_def key_up_def send_frame_def
  by (intro keeps_rules keeps_faithful; simp)

lemma keeps_tx_drain: "keeps (rx_faithful start) (tx_drain E)"
  unfolding tx_drain_def tx_item_def fail_with_def
  by (intro keeps_rules keeps_transmit; simp)


text \<open>What the two threads and Reticulum do to the interface, one call at a time.\<close>

datatype iface_op = RxRound | TxDrain | Outgoing "byte list" | Shutdown

primrec iface_step :: "('d, 'y) rns_platform_scheme \<Rightarrow> iface_op \<Rightarrow> ('d iface, unit) py" where
  "iface_step E RxRound = thenM (rx_round E) (ret ())"
| "iface_step E TxDrain = thenM (tx_drain E) (ret ())"
| "iface_step E (Outgoing data) = process_outgoing E data"
| "iface_step E Shutdown = detach E"

lemma keeps_process_outgoing: "keeps (rx_faithful start) (process_outgoing E data)"
  unfolding process_outgoing_def by (intro keeps_rules keeps_faithful; simp)

lemma keeps_shut: "(\<And>s. J s \<Longrightarrow> J (f s)) \<Longrightarrow> dev_free J \<Longrightarrow> keeps J (shut E c f)"
  unfolding shut_def by (intro keeps_rules; simp)

lemma faithful_closed [simp]:
  "rx_faithful start (s\<lparr>reset_req := b\<rparr>) = rx_faithful start s" "rx_faithful start (s\<lparr>irq_req := b\<rparr>) = rx_faithful start s"
  "rx_faithful start (s\<lparr>busy_req := b\<rparr>) = rx_faithful start s" "rx_faithful start (s\<lparr>txen_req := b\<rparr>) = rx_faithful start s"
  "rx_faithful start (s\<lparr>spi_open := b\<rparr>) = rx_faithful start s" "rx_faithful start (s\<lparr>cs_claimed := b\<rparr>) = rx_faithful start s"
  "rx_faithful start (s\<lparr>lock_fd := b\<rparr>) = rx_faithful start s"
  by (simp_all add: rx_faithful_def)

lemma keeps_detach: "keeps (rx_faithful start) (detach E)"
  unfolding detach_def seqM.simps radio_close_def release_line_def bus_close_def
  by (intro keeps_rules keeps_faithful keeps_shut; simp)

lemma keeps_iface_step: "keeps (rx_faithful start) (iface_step E op)"
  by (cases op) (auto intro!: keeps_rules keeps_rx_round keeps_tx_drain keeps_process_outgoing keeps_detach)


section \<open>How a thread ends\<close>

definition thread_state :: "bool \<times> bool \<times> exn option \<Rightarrow> 'd iface \<Rightarrow> bool" where
  "thread_state c s \<longleftrightarrow> (running s, online s, fatal s) = c"

lemma iface_closed_thread [simp]: "iface_closed (thread_state c)"
  by (auto simp: iface_closed_def thread_state_def same_iface_def)

lemma thread_state_fields [simp]:
  "thread_state c (s\<lparr>tx_queue := q\<rparr>) = thread_state c s" "thread_state c (s\<lparr>tx_active := b\<rparr>) = thread_state c s"
  "thread_state c (s\<lparr>txb := n\<rparr>) = thread_state c s" "thread_state c (s\<lparr>rxb := n\<rparr>) = thread_state c s"
  "thread_state c (s\<lparr>heard := h\<rparr>) = thread_state c s" "thread_state c (s\<lparr>delivered := dl\<rparr>) = thread_state c s"
  "thread_state c (s\<lparr>reasm := r\<rparr>) = thread_state c s" "thread_state c (s\<lparr>last_rx := lr\<rparr>) = thread_state c s"
  by (simp_all add: thread_state_def)

lemmas keeps_thread = keeps_iface [OF iface_closed_thread]

lemma keeps_thread_bodies:
  "keeps (thread_state c) (rx_body E)" "keeps (thread_state c) (transmit E data queued_at)"
  unfolding rx_body_def received_def process_incoming_def transmit_def frames_of_def reserve_airtime_def key_up_def send_frame_def
  by (intro keeps_rules keeps_thread; simp)+

text \<open>
  How one round of a thread ends. It goes on with the interface as it was; or it stops for good,
  and then the fault was of the bus or the radio, is recorded, and the interface is
  offline with the other thread woken, unless it was being shut down already; or it raises, and then
  no ordinary exception.
\<close>

definition round_end :: "'d iface \<Rightarrow> exn + unit option \<Rightarrow> 'd iface \<Rightarrow> bool" where
  "round_end s r x \<longleftrightarrow> (case r of
       Inr None \<Rightarrow> running x = running s \<and> online x = online s \<and> fatal x = fatal s
     | Inr (Some _) \<Rightarrow> \<not> running x \<and> (if running s
         then \<not> online x \<and> tx_event x \<and> (\<exists>e. fatal x = Some e \<and> (is_SpiBusError e \<or> is_RadioError e))
         else online x = online s \<and> fatal x = fatal s)
     | Inl e \<Rightarrow> \<not> is_Exception e \<and> running x = running s \<and> online x = online s \<and> fatal x = fatal s)"

lemma wp_fail_round:
  assumes "thread_state (running s, online s, fatal s) x" "is_SpiBusError e \<or> is_RadioError e"
  shows "wp (thenM (fail_with e) (ret (Some ()))) (\<lambda>r. round_end s (Inr r)) (\<lambda>e. round_end s (Inl e)) x"
  using assms by (auto simp: fail_with_def round_end_def thread_state_def)


section \<open>Construction\<close>

text \<open>Setting up bus and radio leaves the interface's own fields alone.\<close>

definition fixed_rest :: "'z \<Rightarrow> ('d, 'z) radio_scheme \<Rightarrow> bool" where
  "fixed_rest m s \<longleftrightarrow> radio.more s = m"

lemma fixed_rest_update [simp]:
  "fixed_rest m (s\<lparr>dev := d\<rparr>) = fixed_rest m s" "fixed_rest m (s\<lparr>bus_trace := tr\<rparr>) = fixed_rest m s"
  "fixed_rest m (s\<lparr>bus_path := p\<rparr>) = fixed_rest m s" "fixed_rest m (s\<lparr>cs_pin := i\<rparr>) = fixed_rest m s"
  "fixed_rest m (s\<lparr>soft_cs := b\<rparr>) = fixed_rest m s" "fixed_rest m (s\<lparr>no_cs_mode := p\<rparr>) = fixed_rest m s"
  "fixed_rest m (s\<lparr>lock_fd := b\<rparr>) = fixed_rest m s" "fixed_rest m (s\<lparr>spi_open := b\<rparr>) = fixed_rest m s"
  "fixed_rest m (s\<lparr>cs_claimed := b\<rparr>) = fixed_rest m s" "fixed_rest m (s\<lparr>prof := pr\<rparr>) = fixed_rest m s"
  "fixed_rest m (s\<lparr>reset_req := b\<rparr>) = fixed_rest m s" "fixed_rest m (s\<lparr>irq_req := b\<rparr>) = fixed_rest m s"
  "fixed_rest m (s\<lparr>busy_req := b\<rparr>) = fixed_rest m s" "fixed_rest m (s\<lparr>txen_req := b\<rparr>) = fixed_rest m s"
  "fixed_rest m (s\<lparr>radio_notes := ns\<rparr>) = fixed_rest m s" "fixed_rest m (s\<lparr>lf_bit := i\<rparr>) = fixed_rest m s"
  "fixed_rest m (s\<lparr>preamble_set := ps\<rparr>) = fixed_rest m s"
  by (simp_all add: fixed_rest_def)

lemma fixed_rest_closed [simp]: "trace_closed (fixed_rest m)" "dev_free (fixed_rest m)"
  by (simp_all add: trace_closed_def dev_free_def)

lemmas fixed_rules = keeps_closed [OF fixed_rest_closed(1)] keeps_closed_access [OF fixed_rest_closed(1)] fixed_rest_closed

lemma keeps_cases:
  "(\<And>a. keeps I (f a)) \<Longrightarrow> (\<And>b. keeps I (g b)) \<Longrightarrow> keeps I (case x of Inl a \<Rightarrow> f a | Inr b \<Rightarrow> g b)"
  "keeps I m \<Longrightarrow> keeps I n \<Longrightarrow> keeps I (case b of True \<Rightarrow> m | False \<Rightarrow> n)"
  by (simp_all split: sum.split bool.split)

lemma keeps_bus_init: "keeps (fixed_rest m) (bus_init E path pin rt)"
  unfolding bus_init_def open_lock_def open_spi_def claim_cs_def enforce_no_kernel_cs_def confirm_claim_def
    assert_no_kernel_cs_pins_def set_no_cs_mode_def happened_def Let_def seqM.simps
  by (intro keeps_rules keeps_cases fixed_rules; simp)

lemma keeps_radio_init: "keeps (fixed_rest m) (radio_init E p)"
  unfolding radio_init_def claim_lines_def request_line_def happened_def seqM.simps
  by (intro keeps_rules fixed_rules; simp)

lemma keeps_configure_127: "keeps (fixed_rest m) (sx127x_configure E c)"
  unfolding sx127x_configure_def sx127x_probe_def sx127x_setup_def seqM.simps
  by (intro keeps_rules fixed_rules; simp)

lemma keeps_fixed_cmd: "keeps (fixed_rest m) (cmd E op ps)" "keeps (fixed_rest m) (query E op n ps)" "keeps (fixed_rest m) (wait_busy E)"
proof -
  show w: "keeps (fixed_rest m) (wait_busy E)" unfolding wait_busy_def by (intro keeps_rules fixed_rules)
  show "keeps (fixed_rest m) (cmd E op ps)" "keeps (fixed_rest m) (query E op n ps)"
    unfolding cmd_def query_def by (intro keeps_rules fixed_rules w)+
qed

lemma keeps_configure_126: "keeps (fixed_rest m) (sx126x_configure E c)"
  unfolding sx126x_configure_def sx126x_setup_def set_tx_power_def sx126x_defs add_note_def Let_def
  by (intro keeps_rules fixed_rules keeps_fixed_cmd; simp)

lemma fixed_fields:
  assumes "fixed_rest (radio.more s) x"
  shows "kind x = kind s \<and> settings_of x = settings_of s \<and> running x = running s \<and> online x = online s \<and>
    tx_active x = tx_active s \<and> tx_queue x = tx_queue s \<and> fatal x = fatal s \<and> reasm x = reasm s"
  using assms by (cases s; cases x) (simp add: fixed_rest_def)

text \<open>The state while the constructor runs, and the one it leaves.\<close>

definition setting_up :: "settings \<Rightarrow> 'd iface \<Rightarrow> bool" where
  "setting_up st x \<longleftrightarrow> settings_of x = st \<and> \<not> online x \<and> running x \<and> tx_queue x = [] \<and> fatal x = None"

lemma wp_fixed:
  assumes "\<And>m. keeps (fixed_rest m) p" "setting_up st s"
    and "\<And>v x. setting_up st x \<Longrightarrow> kind x = kind s \<Longrightarrow> Q v x" "\<And>e x. setting_up st x \<Longrightarrow> X e x"
  shows "wp p Q X s"
proof -
  have "wp p (\<lambda>_. fixed_rest (radio.more s)) (\<lambda>_. fixed_rest (radio.more s)) s"
    using assms(1) [of "radio.more s"] by (simp add: keeps_wp fixed_rest_def)
  then show ?thesis
    by (rule wp_mono) (use assms(2) in \<open>auto dest!: fixed_fields intro!: assms(3,4) simp: setting_up_def\<close>)
qed

lemma iface_closed_setting_up: "iface_closed (setting_up st)"
  by (auto simp: iface_closed_def setting_up_def same_iface_def)

text \<open>Only a bandwidth of the chip's table is configured.\<close>

lemma configured_bandwidth:
  "sx127x_configure E c s = Some (Inr (), x) \<Longrightarrow> 0 < m_bandwidth c"
  "sx126x_configure E c s = Some (Inr (), x) \<Longrightarrow> 0 < m_bandwidth c"
  by (auto dest!: configure_xfers configure_126_xfers simp: BW_TABLE_def SX126X_BW_TABLE_def split: if_splits)

lemma wp_radio_configure:
  assumes "setting_up st s" "\<And>x. setting_up st x \<Longrightarrow> kind x = kind s \<Longrightarrow> 0 < m_bandwidth c \<Longrightarrow> Q () x" "\<And>e x. setting_up st x \<Longrightarrow> X e x"
  shows "wp (radio_configure E c) Q X s"
proof -
  have one: "wp m Q X s" if "\<And>f. keeps (fixed_rest f) m" "\<And>x. m s = Some (Inr (), x) \<Longrightarrow> 0 < m_bandwidth c" for m
  proof -
    have "wp m (\<lambda>_ x. setting_up st x \<and> kind x = kind s) (\<lambda>_. setting_up st) s"
      by (rule wp_fixed [OF that(1) assms(1)]) simp_all
    then have w: "wp m (\<lambda>v x. (setting_up st x \<and> kind x = kind s) \<and> m s = Some (Inr v, x)) (\<lambda>_. setting_up st) s"
      by (cases "m s") (auto simp: wp_def split: sum.splits)
    show ?thesis by (rule wp_mono [OF w]) (use that(2) assms(2,3) in auto)
  qed
  have "wp (sx127x_configure E c) Q X s" by (rule one) (rule keeps_configure_127, rule configured_bandwidth(1))
  moreover have "wp (sx126x_configure E c) Q X s" by (rule one) (rule keeps_configure_126, rule configured_bandwidth(2))
  ultimately show ?thesis
    unfolding radio_configure_def with_kind_def wp_bindM wp_getM by (cases "kind s") simp_all
qed

definition constructed :: "settings \<Rightarrow> 'd iface \<Rightarrow> bool" where
  "constructed st x \<longleftrightarrow> settings_of x = st \<and> online x \<and> running x \<and> tx_queue x = [] \<and> fatal x = None \<and>
     DRIVERS (chip (st_profile st)) = Some (kind x) \<and> 0 < m_bandwidth (st_modem st) \<and>
     (reasm x \<noteq> None \<longleftrightarrow> rnode_framing st)"

lemma wp_start_setting_up:
  assumes "setting_up st s" "\<And>v x. setting_up st x \<Longrightarrow> kind x = kind s \<Longrightarrow> Q v x" "\<And>e x. setting_up st x \<Longrightarrow> X e x"
  shows "wp (radio_start_rx E) Q X s"
  by (rule wp_mono [OF wp_radio(2)])
    (use assms(1) in \<open>auto intro!: assms(2,3) dest!: radiated_same simp: setting_up_def same_iface_def\<close>)

lemma wp_make_reassembler:
  assumes "setting_up st s" "\<And>x. setting_up st x \<Longrightarrow> kind x = kind s \<Longrightarrow> (reasm x \<noteq> None \<longleftrightarrow> rnode_framing st) \<Longrightarrow> Q () x"
    and "\<And>e x. setting_up st x \<Longrightarrow> X e x"
  shows "wp make_reassembler Q X s"
  using assms(1) by (auto simp: make_reassembler_def setting_up_def intro!: assms(2,3) split: sum.split)

lemma keeps_open_rf_log: "keeps (setting_up st) (open_rf_log E c)"
  unfolding open_rf_log_def by (intro keeps_rules keeps_closed_parts iface_closed_setting_up)

lemma wp_setup_radio:
  fixes s :: "'d iface"
  assumes "setting_up st s" "DRIVERS (chip (st_profile st)) = Some k"
  shows "wp (seqM [modM (\<lambda>s. s\<lparr>kind := k\<rparr>), radio_init E (st_profile st), radio_configure E (st_modem st), radio_start_rx E,
     bindM (ofE (bitrate (m_sf (st_modem st)) (m_bandwidth (st_modem st)) (m_cr (st_modem st)))) (\<lambda>b. modM (\<lambda>s. s\<lparr>bit_rate := b\<rparr>)),
     make_reassembler, modM (\<lambda>s. s\<lparr>online := True\<rparr>)]) (\<lambda>_. constructed st) (\<lambda>_. setting_up st) s"
  unfolding seqM.simps wp_thenM wp_modM wp_ret
proof (rule wp_fixed [where st = st, OF keeps_radio_init])
  show "setting_up st (s\<lparr>kind := k\<rparr>)" using assms(1) by (simp add: setting_up_def)
  fix v and x :: "'d iface" assume x: "setting_up st x" "kind x = kind (s\<lparr>kind := k\<rparr>)"
  show "wp (radio_configure E (st_modem st)) (\<lambda>_. wp (radio_start_rx E) (\<lambda>_. wp (bindM (ofE (bitrate (m_sf (st_modem st))
      (m_bandwidth (st_modem st)) (m_cr (st_modem st)))) (\<lambda>b. modM (\<lambda>s. s\<lparr>bit_rate := b\<rparr>)))
      (\<lambda>_. wp make_reassembler (\<lambda>_ s. constructed st (s\<lparr>online := True\<rparr>)) (\<lambda>_. setting_up st)) (\<lambda>_. setting_up st))
      (\<lambda>_. setting_up st)) (\<lambda>_. setting_up st) x"
  proof (rule wp_radio_configure [OF x(1)], rule wp_start_setting_up)
    fix y z :: "'d iface" and v assume y: "setting_up st y" "kind y = kind x" "0 < m_bandwidth (st_modem st)" "setting_up st z" "kind z = kind y"
    have "setting_up st (z\<lparr>bit_rate := b\<rparr>)" for b using y(4) by (simp add: setting_up_def)
    then show "wp (bindM (ofE (bitrate (m_sf (st_modem st)) (m_bandwidth (st_modem st)) (m_cr (st_modem st))))
        (\<lambda>b. modM (\<lambda>s. s\<lparr>bit_rate := b\<rparr>))) (\<lambda>_. wp make_reassembler (\<lambda>_ s. constructed st (s\<lparr>online := True\<rparr>))
        (\<lambda>_. setting_up st)) (\<lambda>_. setting_up st) z"
      using y x(2) assms(2)
      by (auto intro!: wp_make_reassembler [where st = st] simp: constructed_def setting_up_def split: sum.split)
  qed simp_all
qed simp

lemma wp_iface_init:
  assumes "read_settings c = Inr st"
  shows "wp (iface_init E c) (\<lambda>_. constructed st) (\<lambda>_. setting_up st) s"
proof -
  have fresh: "setting_up st (s\<lparr>settings_of := st, online := False, tx_queue := [], tx_dropped := 0, tx_oversize := 0,
       tx_event := False, tx_active := False, running := True, fatal := None, last_rx := None, bit_rate := 0\<rparr>)"
    by (simp add: setting_up_def)
  have log: "wp (open_rf_log E c) (\<lambda>_. setting_up st) (\<lambda>_. setting_up st) x" if "setting_up st x" for x
    by (rule keeps_open_rf_log [unfolded keeps_wp, rule_format, OF that])
  have rest: "wp (case DRIVERS (chip (st_profile st)) of None \<Rightarrow> raise KeyError
     | Some k \<Rightarrow> seqM [modM (\<lambda>s. s\<lparr>kind := k\<rparr>), radio_init E (st_profile st), radio_configure E (st_modem st), radio_start_rx E,
         bindM (ofE (bitrate (m_sf (st_modem st)) (m_bandwidth (st_modem st)) (m_cr (st_modem st)))) (\<lambda>b. modM (\<lambda>s. s\<lparr>bit_rate := b\<rparr>)),
         make_reassembler, modM (\<lambda>s. s\<lparr>online := True\<rparr>)]) (\<lambda>_. constructed st) (\<lambda>_. setting_up st) x" if "setting_up st x" for x
  proof (cases "DRIVERS (chip (st_profile st))")
    case (Some k)
    show ?thesis unfolding Some option.case by (rule wp_setup_radio [OF that Some])
  qed (simp add: that)
  show ?thesis
    unfolding iface_init_def assms Let_def wp_bindM wp_thenM wp_modM wp_ofE sum.case
    by (rule wp_mono [OF log [OF fresh]], simp only: wp_ofE split: sum.split, intro conjI allI impI TrueI,
        rule wp_fixed [OF keeps_bus_init], assumption, erule rest, assumption+)
qed

text \<open>
  C30. An interface is online only when everything was checked and set up: a configuration section
  that is refused has touched nothing, neither file nor bus nor radio; a construction that fails later
  leaves the interface offline; and one that succeeds runs lawful settings on the driver of its
  board's chip, with a bandwidth of the chip's table, an empty queue and the reassembler exactly
  when framing is on.
\<close>

theorem iface_init_checked:
  assumes "iface_init E c s = Some (r, s')"
  shows "case read_settings c of
      Inl e \<Rightarrow> r = Inl e \<and> s' = s
    | Inr st \<Rightarrow> lawful st \<and> (if r = Inr () then constructed st s' else \<not> online s' \<and> settings_of s' = st)"
proof (cases "read_settings c")
  case (Inl e)
  with assms show ?thesis by (simp add: iface_init_def py_defs)
next
  case (Inr st)
  then show ?thesis
    using assms read_settings_lawful [OF Inr] wp_iface_init [OF Inr, of E s]
    by (cases r) (auto simp: wp_def setting_up_def)
qed

section \<open>A preamble the policy does not bound\<close>

lemma bench_negative_preamble:
  "\<exists>s'. sx127x_configure (bench_bus (\<lambda>_. Some [0, 0x12])) ((st_modem bench_settings)\<lparr>m_preamble := - 1\<rparr>) (bench_radio bench_profile) = Some (Inr (), s') \<and>
     register (payloads (bus_trace s')) REG_PREAMBLE_MSB = Some 255 \<and> register (payloads (bus_trace s')) (REG_PREAMBLE_MSB + 1) = Some 255"
  by (simp add: sx127x_configure_def sx127x_setup_def sx127x_mode_def sx127x_write_def sx127x_read_def sx127x_probe_def
    EXPECTED_VERSION_def BW_TABLE_def ldro_def symbol_time_small bench_settings_def register_def write_of_def sx127x_regs radio_run)

text \<open>
  The preamble is not part of what the configuration checks: a section with a preamble of -1 is
  accepted, the chip is programmed with 65535 preamble symbols, and the airtime charged for a packet
  is less than a thousandth of what those take.
\<close>

theorem negative_preamble_undercharged:
  "\<exists>st t t' s'. read_settings (bench_section(''preamble'' \<mapsto> PInt (- 1))) = Inr st \<and>
     sx127x_configure (bench_bus (\<lambda>_. Some [0, 0x12])) (st_modem st) (bench_radio bench_profile) = Some (Inr (), s') \<and>
     register (payloads (bus_trace s')) REG_PREAMBLE_MSB = Some 255 \<and> register (payloads (bus_trace s')) (REG_PREAMBLE_MSB + 1) = Some 255 \<and>
     modem_airtime (st_modem st) 20 = Inr t \<and> modem_airtime ((st_modem st)\<lparr>m_preamble := 65535\<rparr>) 20 = Inr t' \<and> 1000 * t < t'"
proof -
  let ?st = "bench_settings\<lparr>st_modem := (st_modem bench_settings)\<lparr>m_preamble := - 1\<rparr>\<rparr>"
  have "modem_airtime ((st_modem bench_settings)\<lparr>m_preamble := - 1\<rparr>) 20 = Inr (165 / 4 * 256 / 125000)"
    "modem_airtime ((st_modem bench_settings)\<lparr>m_preamble := 65535\<rparr>) 20 = Inr (262309 / 4 * 256 / 125000)"
    by (simp_all add: modem_airtime_def time_on_air_def symbol_time_small float_of_int_small bench_settings_def)
  then have air: "modem_airtime (st_modem ?st) 20 = Inr (165 / 4 * 256 / 125000)"
    "modem_airtime ((st_modem ?st)\<lparr>m_preamble := 65535\<rparr>) 20 = Inr (262309 / 4 * 256 / 125000)" by simp_all
  from bench_negative_preamble obtain s' where
    "sx127x_configure (bench_bus (\<lambda>_. Some [0, 0x12])) (st_modem ?st) (bench_radio bench_profile) = Some (Inr (), s')"
    "register (payloads (bus_trace s')) REG_PREAMBLE_MSB = Some 255" "register (payloads (bus_trace s')) (REG_PREAMBLE_MSB + 1) = Some 255"
    by auto
  with bench_section_read(2) air show ?thesis
    by (intro exI [of _ ?st] exI [of _ "165 / 4 * 256 / 125000"] exI [of _ "262309 / 4 * 256 / 125000"] exI [of _ s'] conjI) simp_all
qed

section \<open>Witnesses\<close>

text \<open>A platform with Reticulum behind the interface; \<open>reply\<close> answers transfers, \<open>edge\<close> the IRQ wait.\<close>

definition rns_bench :: "(int list \<Rightarrow> byte list option) \<Rightarrow> bool option \<Rightarrow> real rns_platform" where
  "rns_bench reply edge = \<lparr>os_call_p = \<lambda>c d. (None, d), os_write_p = \<lambda>n d. (n, d), time_p = \<lambda>d. (d, d),
     monotonic_p = \<lambda>d. (d, d), sleep_p = \<lambda>t d. (False, d + t), random_p = \<lambda>d. (0, d), boot_id_p = ''boot'',
     lock_dir_p = \<lambda>_. Some \<lparr>is_dir = True, owned_by_us = True, shared_writable = False\<rparr>,
     cs_gpios_p = \<lambda>_. None, cs_gpios_size_p = \<lambda>_ _. Some 0, spi_open_p = \<lambda>_ _ d. (True, d),
     no_cs_p = \<lambda>d. (Inr True, d), spi_xfer2_p = \<lambda>bs d. (reply bs, d), line_set_p = \<lambda>p v d. (True, d),
     line_get_p = \<lambda>p d. (Some False, d), line_request_p = \<lambda>p d. (True, d), edge_wait_p = \<lambda>t d. (edge, d + t),
     peers_p = \<lambda>x d. (x, d), dumps_len_p = \<lambda>_. 100, inbound_p = \<lambda>data d. (None, d)\<rparr>"

definition air_platform :: "real rns_platform" where
  "air_platform = rns_bench (\<lambda>_. Some [0xFF, 0xFF]) (Some False)"

definition closed_log :: "real rflog" where
  "closed_log = \<lparr>dev = 0, rf_path = None, files = (\<lambda>_. None), max_bytes = MAX_BYTES, raw = [], off = 0\<rparr>"

definition bench_iface :: "settings \<Rightarrow> real iface" where
  "bench_iface st = \<lparr>dev = 1000000, bus_path = ''/dev/spidev0.0'', cs_pin = 7, soft_cs = True,
    no_cs_mode = ''gpio-claim'', lock_fd = True, spi_open = True, cs_claimed = True, bus_trace = [],
    prof = bench_profile, reset_req = True, irq_req = True, busy_req = False, txen_req = False,
    radio_notes = [], lf_bit = 0, preamble_set = None, kind = SX127x, settings_of = st, account = fresh, rf_log = closed_log,
    reasm = None, tx_queue = [], tx_dropped = 0, tx_oversize = 0, tx_event = False, tx_active = False, running = True,
    online = True, fatal = None, last_rx = None, rxb = 0, txb = 0, bit_rate = 0, heard = [], delivered = []\<rparr>"

lemma bench_airtime: "airtime_of (st_modem bench_settings) [[1, 2, 3]] = Inr (968 / 15625)"
  by (simp add: airtime_of_def modem_airtime_def time_on_air_def symbol_time_small float_of_int_small bench_settings_def)

lemma air_grant:
  "\<exists>a. reserve air_platform (duty_account 50 10) (968 / 15625) fresh = Some (Inr (True, []), a) \<and> dev a = 1000000"
  by (simp add: duty_run air_platform_def rns_bench_def fresh_def duty_account_def verdict_def prune_def Let_def)


lemma bench_iface_fields [simp]:
  "settings_of (bench_iface st) = st" "account (bench_iface st) = fresh" "dev (bench_iface st) = 1000000"
  "bus_trace (bench_iface st) = []" "tx_active (bench_iface st) = False" "kind (bench_iface st) = SX127x"
  "heard (bench_iface st) = []" "delivered (bench_iface st) = []" "reasm (bench_iface st) = None"
  "tx_queue (bench_iface st) = []" "online (bench_iface st)"
  by (simp_all add: bench_iface_def)

theorem radio_transmit_safe_witness:
  "\<exists>r s'. radio_transmit (bench_bus (\<lambda>_. Some [0, 0])) [1, 2, 3] 2 (bench_iface bench_settings) = Some (r, s') \<and>
    (case r of Inr ok \<Rightarrow> txen_low (bench_iface bench_settings) s' \<and> length [1, 2, 3 :: byte] \<le> MAX_PAYLOAD \<and>
       radiated (bench_iface bench_settings) [[1, 2, 3]] s'
     | Inl e \<Rightarrow> radio_fault e)"
  by (rule radio_transmit_safe [OF bench_bus_advancing])

lemma ready_bench: "ready (bench_iface bench_settings)"
  by (simp add: ready_def sane_def bench_settings_def) (auto simp: fresh_def)

lemma fresh_dev: "fresh\<lparr>dev := 1000000\<rparr> = fresh"
  by (simp add: fresh_def)

lemma bench_key_up:
  "\<exists>s'. key_up air_platform [1, 2, 3] [[1, 2, 3]] t ((bench_iface bench_settings)\<lparr>account := a, dev := 1000000\<rparr>) = Some (Inr (), s') \<and>
     bus_trace s' \<noteq> []"
  by (simp add: key_up_def send_frame_def radio_transmit_def radio_start_rx_def with_kind_def sx127x_transmit_def sx127x_start_rx_def
    sx127x_mode_def sx127x_write_def sx127x_read_def sx127x_await_def bench_iface_def air_platform_def rns_bench_def MAX_PAYLOAD_def
    on_log_def log_tx_def closed_log_def bus_run byte_at_def set_txen_def IRQ_TX_DONE_def bench_profile_def less_max_iff_disj)


lemma bench_transmit:
  "\<exists>s'. transmit air_platform [1, 2, 3] 1000000 (bench_iface bench_settings) = Some (Inr (), s') \<and> bus_trace s' \<noteq> []"
proof -
  obtain a where a: "reserve air_platform (duty_account 50 10) (968 / 15625) fresh = Some (Inr (True, []), a)" "dev a = 1000000"
    using air_grant by blast
  have f: "rnode_framing bench_settings = False" "st_duty bench_settings = duty_account 50 10"
    by (simp_all add: bench_settings_def)
  have r: "reserve_airtime air_platform (968 / 15625) 1000000 (bench_iface bench_settings)
      = Some (Inr True, (bench_iface bench_settings)\<lparr>account := a, dev := 1000000\<rparr>)"
    by (simp only: reserve_airtime_def bindM_def getM_def option.case prod.case sum.case comp_def bench_iface_fields f)
      (simp add: loopM.simps on_account_def a fresh_dev py_defs)
  show ?thesis
    using bench_key_up [of "968 / 15625" a]
    by (simp only: transmit_def frames_of_def bindM_def getM_def ret_def ofE_def option.case prod.case sum.case comp_def bench_iface_fields f
      bench_airtime r if_True if_False not_False_eq_True)
qed

theorem transmit_charged_first_witness:
  "\<exists>s'. transmit air_platform [1, 2, 3] 1000000 (bench_iface bench_settings) = Some (Inr (), s') \<and> bus_trace s' \<noteq> [] \<and>
     granted air_platform (duty_account 50 10) (968 / 15625) (account s')"
proof -
  obtain s' where s': "transmit air_platform [1, 2, 3] 1000000 (bench_iface bench_settings) = Some (Inr (), s')" "bus_trace s' \<noteq> []"
    using bench_transmit by blast
  from transmit_charged_first [OF s'(1) ready_bench] s'(2) obtain frames toa where
    "framed bench_settings [1, 2, 3] frames" "airtime_of (st_modem bench_settings) frames = Inr toa"
    "granted air_platform (st_duty bench_settings) toa (account s')" by auto
  moreover from this(1) have "frames = [[1, 2, 3]]" by (simp add: framed_def bench_settings_def)
  ultimately have "Inr toa = (Inr (968 / 15625) :: exn + real)" "granted air_platform (st_duty bench_settings) toa (account s')"
    using bench_airtime by metis+
  then have "granted air_platform (duty_account 50 10) (968 / 15625) (account s')"
    by (simp only: sum.inject) (simp add: bench_settings_def)
  with s' show ?thesis by blast
qed

theorem transmit_reaches_peer_witness:
  "\<exists>s'. transmit air_platform [1, 2, 3] 1000000 (bench_iface bench_settings) = Some (Inr (), s') \<and>
     loaded SX127x (payloads (bus_trace s')) = [[1, 2, 3]]"
proof -
  obtain s' where s': "transmit air_platform [1, 2, 3] 1000000 (bench_iface bench_settings) = Some (Inr (), s')" "bus_trace s' \<noteq> []"
    using bench_transmit by blast
  have "pending (new_reassembler None) = None" by (simp add: pending_def new_reassembler_def)
  moreover have "\<not> rnode_framing bench_settings" by (simp add: bench_settings_def)
  ultimately show ?thesis
    using transmit_reaches_peer [OF s'(1) ready_bench, of "new_reassembler None" 0 0] s' by (auto simp: new_reassembler_def)
qed

theorem outgoing_bounded_and_counted_witness:
  "\<exists>s'. forM (replicate 70 [1, 2, 3]) (process_outgoing air_platform) (bench_iface bench_settings) = Some (Inr (), s') \<and>
     length (tx_queue s') \<le> 64 \<and> 6 \<le> tx_dropped s' + tx_oversize s'"
proof -
  have "online (bench_iface bench_settings)" "length (tx_queue (bench_iface bench_settings)) \<le> MAX_QUEUE_PACKETS"
    "\<forall>(p, _) \<in> set (tx_queue (bench_iface bench_settings)). length p \<le> max_packet (settings_of (bench_iface bench_settings))"
    "offered (bench_iface bench_settings) = 0"
    by (simp_all add: offered_def bench_iface_def)
  with outgoing_bounded_and_counted [of "bench_iface bench_settings" "replicate 70 [1, 2, 3]" air_platform]
  show ?thesis by (fastforce simp: MAX_QUEUE_PACKETS_def offered_def)
qed


definition heard_reply :: "int list \<Rightarrow> byte list option" where
  "heard_reply p = Some (if hd p = 0x12 then [0, 0x40] else if hd p = 0x13 then [0, 2] else if hd p = 0 then [0, 7, 9] else [0, 0])"

lemma bench_rx: "\<exists>s'. forM [RxRound, Outgoing [1], RxRound] (iface_step (rns_bench heard_reply (Some True))) (bench_iface bench_settings)
    = Some (Inr (), s') \<and> map snd (heard s') = [[7, 9], [7, 9]]"
  by (simp add: rx_round_def rx_body_def wait_irq_def radio_poll_rx_def with_kind_def sx127x_poll_rx_def sx127x_packet_def
    sx127x_read_def sx127x_write_def received_def process_incoming_def process_outgoing_def on_log_def log_rx_def closed_log_def
    rns_bench_def heard_reply_def bench_iface_def byte_at_def sx127x_regs snr_of_def bench_settings_def MAX_QUEUE_PACKETS_def bus_run Let_def)



lemma bench_irq_wait: "wait_irq (rns_bench heard_reply None) t s = Some (Inl (RadioError ''IRQ line failed''), s\<lparr>dev := dev s + t\<rparr>)"
  by (simp add: wait_irq_def rns_bench_def py_defs)

lemma bench_irq_fault: "\<exists>s'. rx_round (rns_bench heard_reply None) (bench_iface bench_settings) = Some (Inr (Some ()), s')"
proof -
  have "rx_body (rns_bench heard_reply None) (bench_iface bench_settings)
      = Some (Inl (RadioError ''IRQ line failed''), (bench_iface bench_settings)\<lparr>dev := 1000000 + 0.1\<rparr>)"
    by (simp add: rx_body_def bindM_def getM_def bench_irq_wait)
  then show ?thesis by (simp add: rx_round_def fail_with_def py_defs)
qed


lemma bench_spidev: "parse_spidev ''/dev/spidev0.0'' = Inr (0, 0)"
  by code_simp

definition full_section :: pydict where
  "full_section = bench_section(''runtime_dir'' \<mapsto> PStr ''/run/loraham'')"

lemma full_section_read: "read_settings full_section = Inr bench_settings"
  by (simp add: read_settings_def read_limits_def check_limit_def read_account_def read_state_dir_def read_preamble_def full_section_def
    dict_item_def dict_get_def int_value_def text_value_def resolve_value_def bench_section_def bench_channel bench_numbers
    bench_limits bench_words BAND_POLICY_def resolve_def table_defs bench_settings_def MAX_PAYLOAD_def Let_def)

lemma bench_init: "\<exists>s'. iface_init (rns_bench (\<lambda>_. Some [0, 0x12]) None) full_section (bench_iface bench_settings) = Some (Inr (), s')"
  unfolding iface_init_def full_section_read
  by (simp add: open_rf_log_def full_section_def bench_section_def dict_get_def bench_words int_value_def bus_init_def open_lock_def bench_spidev
    controller_cs_pins_def open_spi_def claim_cs_def enforce_no_kernel_cs_def set_no_cs_mode_def radio_init_def claim_lines_def
    request_line_def radio_configure_def with_kind_def sx127x_configure_def sx127x_setup_def sx127x_mode_def sx127x_write_def
    sx127x_read_def sx127x_probe_def EXPECTED_VERSION_def BW_TABLE_def ldro_def symbol_time_small radio_start_rx_def sx127x_start_rx_def bitrate_def
    make_reassembler_def bench_settings_def bench_iface_def rns_bench_def table_defs hard_reset_def byte_at_def bus_run Let_def)

theorem iface_init_checked_witness:
  "\<exists>s'. iface_init (rns_bench (\<lambda>_. Some [0, 0x12]) None) full_section (bench_iface bench_settings) = Some (Inr (), s') \<and>
     lawful bench_settings \<and> constructed bench_settings s'"
proof -
  obtain s' where s': "iface_init (rns_bench (\<lambda>_. Some [0, 0x12]) None) full_section (bench_iface bench_settings) = Some (Inr (), s')"
    using bench_init by blast
  from iface_init_checked [OF s'] s' show ?thesis by (simp add: full_section_read)
qed


end
