(* ===== verification/Concurrency.thy ===== *)
theory Concurrency
  imports Threads Interface_Properties
begin

text \<open>
  The two worker threads of \<open>LoRaSPIInterface\<close> at work on one object: every program point of the theory \<open>Threads\<close> with
  the code that runs there, on the state of the theory \<open>Interface\<close>, and a schedule that says which thread moves next, when Reticulum
  submits a packet and when the interface is told to stop. It is shown that this machine only takes the
  steps of \<open>Threads\<close>, and that in every interleaving what goes on air was charged.
\<close>

section \<open>The machine\<close>

text \<open>
  \<open>holder\<close> is the owner of \<open>_radio_lock\<close>; \<open>got\<close>, \<open>packet\<close>, \<open>to_send\<close> and \<open>toa_of\<close> are the locals of the two loops, \<open>rx_exn\<close> and \<open>tx_exn\<close> the
  exceptions being handled. \<open>grants\<close> records what each granted reservation was for and the account at that moment.
\<close>

type_synonym 'd grant = "byte list \<times> byte list list \<times> real \<times> 'd acct"

record 'd machine =
  obj :: "'d iface"
  rxp :: rx_pc
  txp :: tx_pc
  holder :: "thread option"
  got :: "(byte list \<times> real \<times> real) option"
  rx_exn :: exn
  packet :: "byte list \<times> real"
  to_send :: "byte list list"
  toa_of :: real
  tx_exn :: exn
  grants :: "'d grant list"

definition boot :: "'d iface \<Rightarrow> 'd machine" where
  "boot x = \<lparr>obj = x, rxp = RxTop, txp = TxTop, holder = None, got = None, rx_exn = OtherError, packet = ([], 0), to_send = [],
     toa_of = 0, tx_exn = OtherError, grants = []\<rparr>"

text \<open>Code at a point: where it goes on when the code returns, and when it raises.\<close>

definition exec :: "('d iface, 'a) py \<Rightarrow> ('a \<Rightarrow> 'd machine \<Rightarrow> 'd machine) \<Rightarrow> (exn \<Rightarrow> 'd machine \<Rightarrow> 'd machine) \<Rightarrow>
    'd machine \<Rightarrow> 'd machine option" where
  "exec body f g m = (case body (obj m) of
       None \<Rightarrow> None
     | Some (Inr v, x) \<Rightarrow> Some (f v (m\<lparr>obj := x\<rparr>))
     | Some (Inl e, x) \<Rightarrow> Some (g e (m\<lparr>obj := x\<rparr>)))"

subsection \<open>The receive thread\<close>

definition handle :: "('d, 'y) rns_platform_scheme \<Rightarrow> (byte list \<times> real \<times> real) option \<Rightarrow> ('d iface, unit) py" where
  "handle E r = (case r of None \<Rightarrow> ret () | Some (data, rssi, snr) \<Rightarrow> received E data rssi snr)"

definition rx_except :: "('d, 'y) platform_scheme \<Rightarrow> exn \<Rightarrow> ('d iface, unit option) py" where
  "rx_except E e = (if is_SpiBusError e \<or> is_RadioError e then thenM (fail_with e) (ret (Some ()))
     else if is_Exception e then bindM (getM running) (\<lambda>r. thenM (if r then sleepM E 0.5 else ret ()) (ret None))
     else raise e)"

definition rx_raise :: "exn \<Rightarrow> 'd machine \<Rightarrow> 'd machine" where
  "rx_raise e m = m\<lparr>rxp := RxFault, rx_exn := e\<rparr>"

definition rx_move :: "('d, 'y) rns_platform_scheme \<Rightarrow> 'd machine \<Rightarrow> 'd machine option" where
  "rx_move E m = (case rxp m of
       RxTop \<Rightarrow> Some (m\<lparr>rxp := if running (obj m) then RxTest else RxDone\<rparr>)
     | RxTest \<Rightarrow> Some (m\<lparr>rxp := if tx_active (obj m) then RxSleep else RxWait\<rparr>)
     | RxSleep \<Rightarrow> exec (sleepM E 0.005) (\<lambda>_ m. m\<lparr>rxp := RxTop\<rparr>) rx_raise m
     | RxWait \<Rightarrow> exec (wait_irq E 0.1) (\<lambda>_ m. m\<lparr>rxp := RxLock\<rparr>) rx_raise m
     | RxLock \<Rightarrow> if holder m = None then Some (m\<lparr>rxp := RxHeld, holder := Some Rx\<rparr>) else None
     | RxHeld \<Rightarrow> Some (if tx_active (obj m) then m\<lparr>rxp := RxTop, holder := None\<rparr> else m\<lparr>rxp := RxPoll\<rparr>)
     | RxPoll \<Rightarrow> exec (radio_poll_rx E) (\<lambda>r m. m\<lparr>rxp := RxHandle, got := r, holder := None\<rparr>) (\<lambda>e m. rx_raise e (m\<lparr>holder := None\<rparr>)) m
     | RxHandle \<Rightarrow> exec (handle E (got m)) (\<lambda>_ m. m\<lparr>rxp := RxTop\<rparr>) rx_raise m
     | RxFault \<Rightarrow> exec (rx_except E (rx_exn m)) (\<lambda>r m. m\<lparr>rxp := if r = None then RxTop else RxDone\<rparr>) (\<lambda>_ m. m\<lparr>rxp := RxDone\<rparr>) m
     | RxDone \<Rightarrow> None)"

subsection \<open>The transmit thread\<close>

text \<open>The next packet with its frames and their airtime; one round of the reservation loop.\<close>

definition take_packet :: "('d, 'y) platform_scheme \<Rightarrow> ('d iface, (byte list \<times> real) \<times> byte list list \<times> real) py" where
  "take_packet E = bindM (getM (hd \<circ> tx_queue)) (\<lambda>pkt. thenM (modM (\<lambda>s. s\<lparr>tx_queue := tl (tx_queue s)\<rparr>))
     (bindM (frames_of E (fst pkt)) (\<lambda>frames. bindM (getM (st_modem \<circ> settings_of)) (\<lambda>c. bindM (ofE (airtime_of c frames)) (\<lambda>toa.
       ret (pkt, frames, toa))))))"

definition reserve_round :: "('d, 'y) duty_platform_scheme \<Rightarrow> duty_cfg \<Rightarrow> real \<Rightarrow> real \<Rightarrow> ('d iface, bool option) py" where
  "reserve_round E cfg toa queued_at = bindM (on_account (reserve E cfg toa)) (\<lambda>(ok, why). if ok then ret (Some True)
     else bindM (timeM E) (\<lambda>now. if now - queued_at > MAX_DUTY_HOLD then ret (Some False)
       else thenM (sleepM E 0.25) (ret None)))"

definition tx_except :: "exn \<Rightarrow> ('d iface, unit option) py" where
  "tx_except e = (if is_SpiBusError e \<or> is_RadioError e then thenM (fail_with e) (ret (Some ()))
     else if is_Exception e then ret None else raise e)"

definition tx_raise :: "exn \<Rightarrow> 'd machine \<Rightarrow> 'd machine" where
  "tx_raise e m = m\<lparr>txp := TxFault, tx_exn := e\<rparr>"

definition tx_reserved :: "nat \<Rightarrow> bool option \<Rightarrow> 'd machine \<Rightarrow> 'd machine" where
  "tx_reserved n r m = (case r of
       None \<Rightarrow> m
     | Some False \<Rightarrow> m\<lparr>txp := TxQueue\<rparr>
     | Some True \<Rightarrow> m\<lparr>txp := TxLock n, grants := grants m @ [(fst (packet m), to_send m, toa_of m, account (obj m))]\<rparr>)"

definition tx_move :: "('d, 'y) rns_platform_scheme \<Rightarrow> 'd machine \<Rightarrow> 'd machine option" where
  "tx_move E m = (case txp m of
       TxTop \<Rightarrow> if \<not> running (obj m) then Some (m\<lparr>txp := TxDone\<rparr>)
         else exec (thenM (wait_event E) (modM (\<lambda>s. s\<lparr>tx_event := False\<rparr>))) (\<lambda>_ m. m\<lparr>txp := TxQueue\<rparr>) (\<lambda>_ m. m\<lparr>txp := TxDone\<rparr>) m
     | TxQueue \<Rightarrow> if tx_queue (obj m) = [] \<or> \<not> running (obj m) then Some (m\<lparr>txp := TxTop\<rparr>)
         else exec (take_packet E) (\<lambda>(pkt, frames, toa) m. m\<lparr>txp := TxReserve (length frames), packet := pkt, to_send := frames, toa_of := toa\<rparr>)
           tx_raise m
     | TxReserve n \<Rightarrow> exec (bindM (getM (st_duty \<circ> settings_of)) (\<lambda>cfg. reserve_round E cfg (toa_of m) (snd (packet m))))
         (tx_reserved n) tx_raise m
     | TxLock n \<Rightarrow> if holder m = None then Some (m\<lparr>txp := TxHeld n, holder := Some Tx\<rparr>) else None
     | TxHeld n \<Rightarrow> Some (m\<lparr>txp := TxSet n, obj := (obj m)\<lparr>tx_active := True\<rparr>\<rparr>)
     | TxSet n \<Rightarrow> Some (m\<lparr>txp := TxSend n, holder := None\<rparr>)
     | TxSend n \<Rightarrow> (case n of
           0 \<Rightarrow> Some (m\<lparr>txp := TxLockRx, obj := (obj m)\<lparr>txb := txb (obj m) + length (fst (packet m))\<rparr>\<rparr>)
         | Suc k \<Rightarrow> exec (send_frame E (toa_of m) (hd (to_send m))) (\<lambda>_ m. m\<lparr>txp := TxSend k, to_send := tl (to_send m)\<rparr>)
             (\<lambda>e m. m\<lparr>txp := TxClear True, tx_exn := e\<rparr>) m)
     | TxLockRx \<Rightarrow> if holder m = None then Some (m\<lparr>txp := TxStartRx, holder := Some Tx\<rparr>) else None
     | TxStartRx \<Rightarrow> exec (radio_start_rx E) (\<lambda>_ m. m\<lparr>txp := TxClear False, holder := None\<rparr>)
         (\<lambda>e m. m\<lparr>txp := TxClear True, tx_exn := e, holder := None\<rparr>) m
     | TxClear raised \<Rightarrow> Some (m\<lparr>txp := if raised then TxFault else TxQueue, obj := (obj m)\<lparr>tx_active := False\<rparr>\<rparr>)
     | TxFault \<Rightarrow> exec (tx_except (tx_exn m)) (\<lambda>r m. m\<lparr>txp := if r = None then TxQueue else TxDone\<rparr>) (\<lambda>_ m. m\<lparr>txp := TxDone\<rparr>) m
     | TxDone \<Rightarrow> None)"

subsection \<open>Schedules\<close>

text \<open>\<open>Halt\<close> is the first line of \<open>detach\<close>; the teardown after it is in \<open>Interface\<close>.\<close>

datatype action = Move thread | Submit "byte list" | Halt

definition act :: "('d, 'y) rns_platform_scheme \<Rightarrow> action \<Rightarrow> 'd machine \<Rightarrow> 'd machine option" where
  "act E a m = (case a of
       Move Rx \<Rightarrow> rx_move E m
     | Move Tx \<Rightarrow> tx_move E m
     | Submit data \<Rightarrow> exec (process_outgoing E data) (\<lambda>_ m. m) (\<lambda>_ m. m) m
     | Halt \<Rightarrow> Some (m\<lparr>obj := (obj m)\<lparr>running := False, tx_event := True, online := False\<rparr>\<rparr>))"

fun play :: "('d, 'y) rns_platform_scheme \<Rightarrow> action list \<Rightarrow> 'd machine \<Rightarrow> 'd machine option" where
  "play E [] m = Some m"
| "play E (a # as) m = Option.bind (act E a m) (play E as)"

text \<open>The pieces are those of the threads in \<open>Interface\<close>.\<close>

lemma thread_pieces:
  "rx_round E = try_except (thenM (rx_body E) (ret None)) (rx_except E)"
  "reserve_airtime E toa q = bindM (getM (st_duty \<circ> settings_of)) (\<lambda>cfg. loopM (reserve_round E cfg toa q))"
  "tx_item E = bindM (getM (hd \<circ> tx_queue)) (\<lambda>(data, q). thenM (modM (\<lambda>s. s\<lparr>tx_queue := tl (tx_queue s)\<rparr>))
     (try_except (thenM (transmit E data q) (ret None)) tx_except))"
  by (simp_all add: rx_round_def rx_except_def [abs_def] reserve_airtime_def reserve_round_def tx_item_def tx_except_def [abs_def])

section \<open>The machine takes the steps of \<open>Threads\<close>\<close>

definition threads_of :: "'d machine \<Rightarrow> threads" where
  "threads_of m = \<lparr>rx_at = rxp m, tx_at = txp m, lock = holder m, active = tx_active (obj m), going = running (obj m)\<rparr>"

text \<open>What the other thread and the schedule see of the object.\<close>

definition flags :: "bool \<times> bool \<Rightarrow> 'd iface \<Rightarrow> bool" where
  "flags c x \<longleftrightarrow> (tx_active x, running x) = c"

lemma flags_updates [simp]:
  "flags c (x\<lparr>dev := d\<rparr>) = flags c x" "flags c (x\<lparr>bus_trace := tr\<rparr>) = flags c x" "flags c (x\<lparr>account := a\<rparr>) = flags c x"
  "flags c (x\<lparr>rf_log := l\<rparr>) = flags c x" "flags c (x\<lparr>tx_queue := q\<rparr>) = flags c x" "flags c (x\<lparr>tx_event := b\<rparr>) = flags c x"
  "flags c (x\<lparr>txb := n\<rparr>) = flags c x" "flags c (x\<lparr>rxb := n\<rparr>) = flags c x" "flags c (x\<lparr>heard := h\<rparr>) = flags c x"
  "flags c (x\<lparr>delivered := dl\<rparr>) = flags c x" "flags c (x\<lparr>reasm := r\<rparr>) = flags c x" "flags c (x\<lparr>last_rx := lr\<rparr>) = flags c x"
  "flags c (x\<lparr>tx_dropped := n\<rparr>) = flags c x" "flags c (x\<lparr>tx_oversize := n\<rparr>) = flags c x"
  by (simp_all add: flags_def)

lemma flags_free: "dev_free (flags c)"
  by (simp add: dev_free_def)

lemma keeps_flags_kind:
  assumes "airs SX127x m l" "airs SX1262 n l"
  shows "keeps (flags c) (with_kind m n)"
proof -
  have "wp (case kind x of SX127x \<Rightarrow> m | SX1262 \<Rightarrow> n) (\<lambda>_. flags c) (\<lambda>_. flags c) x" if "flags c x" for x
  proof -
    have "wp (case kind x of SX127x \<Rightarrow> m | SX1262 \<Rightarrow> n) (\<lambda>_. aired (kind x) x l) (\<lambda>_. aired_part (kind x) x l) x"
      using airsD [OF assms(1), of x] airsD [OF assms(2), of x] by (cases "kind x") simp_all
    then show ?thesis by (rule wp_mono) (use that in \<open>auto simp: aired_def aired_part_def\<close>)
  qed
  then show ?thesis unfolding keeps_wp with_kind_def wp_bindM wp_getM by blast
qed

lemma keeps_flags_radio:
  "keeps (flags c) (radio_poll_rx E)" "keeps (flags c) (radio_start_rx E)" "keeps (flags c) (radio_transmit E f t)"
  unfolding radio_poll_rx_def radio_start_rx_def radio_transmit_def
  by (rule keeps_flags_kind, rule airs_127_ops, rule airs_126_ops)+

lemma keeps_flags_parts: "keeps (flags c) (on_account m)" "keeps (flags c) (on_log n)"
  by (auto simp: keeps_wp wp_on_account wp_on_log intro!: wp_any)

lemma keeps_flags_pieces:
  "keeps (flags c) (wait_irq E t)" "keeps (flags c) (handle E r)" "keeps (flags c) (process_outgoing E data)"
  "keeps (flags c) (thenM (wait_event E) (modM (\<lambda>s. s\<lparr>tx_event := False\<rparr>)))" "keeps (flags c) (take_packet E)"
  "keeps (flags c) (reserve_round E cfg toa q)" "keeps (flags c) (send_frame E toa f)" "keeps (flags c) (sleepM E t)"
  unfolding wait_irq_def handle_def received_def process_incoming_def process_outgoing_def wait_event_def take_packet_def frames_of_def
    reserve_round_def send_frame_def
  by (intro keeps_rules keeps_flags_radio keeps_flags_parts flags_free; simp)+

lemma execE:
  assumes "exec body f g m = Some m'" "\<And>c. keeps (flags c) body"
  obtains v x where "body (obj m) = Some (Inr v, x)" "m' = f v (m\<lparr>obj := x\<rparr>)" "tx_active x = tx_active (obj m)" "running x = running (obj m)"
  | e x where "body (obj m) = Some (Inl e, x)" "m' = g e (m\<lparr>obj := x\<rparr>)" "tx_active x = tx_active (obj m)" "running x = running (obj m)"
proof -
  have same: "tx_active x = tx_active (obj m) \<and> running x = running (obj m)" if "body (obj m) = Some (r, x)" for r x
    using keepsD [OF assms(2) _ that, of "(tx_active (obj m), running (obj m))"] by (simp add: flags_def)
  from assms(1) obtain r x where b: "body (obj m) = Some (r, x)" by (auto simp: exec_def split: option.splits)
  with assms(1) same [OF b] that show ?thesis by (cases r) (auto simp: exec_def)
qed

text \<open>The handlers end a thread only with the flag \<open>_run\<close> down, or without a trace.\<close>

lemma excepts:
  assumes "rx_except E e s = Some (r, x) \<or> tx_except e s = Some (r, x)"
  shows "tx_active x = tx_active s \<and> (case r of Inr (Some _) \<Rightarrow> \<not> running x | _ \<Rightarrow> running x = running s)"
  using assms
  by (auto simp: rx_except_def tx_except_def fail_with_def sleepM_def py_defs split: if_splits)

text \<open>The steps with their state written out.\<close>

lemmas written_steps = step.intros [of "\<lparr>rx_at = p, tx_at = q, lock = l, active = a, going = g\<rparr>" for p q l a g, simplified]

lemma packet_step: "n = Suc 0 \<or> n = 2 \<Longrightarrow> step \<lparr>rx_at = p, tx_at = TxQueue, lock = l, active = a, going = True\<rparr>
    \<lparr>rx_at = p, tx_at = TxReserve n, lock = l, active = a, going = True\<rparr>"
  using step.tx_take [of "\<lparr>rx_at = p, tx_at = TxQueue, lock = l, active = a, going = True\<rparr>" n] by auto

lemma rx_move_step:
  assumes "rx_move E m = Some m'"
  shows "step (threads_of m) (threads_of m')"
proof (cases "rxp m")
  case RxSleep
  with assms have "exec (sleepM E 0.005) (\<lambda>_ m. m\<lparr>rxp := RxTop\<rparr>) rx_raise m = Some m'" by (simp add: rx_move_def)
  then show ?thesis
    by (rule execE [OF _ keeps_flags_pieces(8)]) (auto simp: RxSleep threads_of_def rx_raise_def intro: written_steps)
next
  case RxWait
  with assms have "exec (wait_irq E 0.1) (\<lambda>_ m. m\<lparr>rxp := RxLock\<rparr>) rx_raise m = Some m'" by (simp add: rx_move_def)
  then show ?thesis
    by (rule execE [OF _ keeps_flags_pieces(1)]) (auto simp: RxWait threads_of_def rx_raise_def intro: written_steps)
next
  case RxPoll
  with assms have "exec (radio_poll_rx E) (\<lambda>r m. m\<lparr>rxp := RxHandle, got := r, holder := None\<rparr>)
      (\<lambda>e m. rx_raise e (m\<lparr>holder := None\<rparr>)) m = Some m'" by (simp add: rx_move_def)
  then show ?thesis
    by (rule execE [OF _ keeps_flags_radio(1)]) (auto simp: RxPoll threads_of_def rx_raise_def intro: written_steps)
next
  case RxHandle
  with assms have "exec (handle E (got m)) (\<lambda>_ m. m\<lparr>rxp := RxTop\<rparr>) rx_raise m = Some m'" by (simp add: rx_move_def)
  then show ?thesis
    by (rule execE [OF _ keeps_flags_pieces(2)]) (auto simp: RxHandle threads_of_def rx_raise_def intro: written_steps)
next
  case RxFault
  with assms obtain r x where r: "rx_except E (rx_exn m) (obj m) = Some (r, x)"
    "m' = (case r of Inr v \<Rightarrow> m\<lparr>obj := x, rxp := if v = None then RxTop else RxDone\<rparr> | Inl e \<Rightarrow> m\<lparr>obj := x, rxp := RxDone\<rparr>)"
    by (auto simp: rx_move_def exec_def split: option.splits sum.splits)
  with excepts [of E "rx_exn m" "obj m" r x] show ?thesis
    by (auto simp: RxFault threads_of_def split: sum.splits option.splits intro: written_steps)
qed (use assms in \<open>auto simp: rx_move_def threads_of_def split: if_splits intro: written_steps\<close>)

text \<open>A packet is taken with one or two frames and their airtime.\<close>

lemma wp_take_packet:
  "wp (take_packet E) (\<lambda>(pkt, frames, toa) x. framed (settings_of s) (fst pkt) frames \<and>
       airtime_of (st_modem (settings_of s)) frames = Inr toa \<and> (\<exists>q d. x = s\<lparr>tx_queue := q, dev := d\<rparr>))
     (\<lambda>_ x. \<exists>q d. x = s\<lparr>tx_queue := q, dev := d\<rparr>) s"
  unfolding take_packet_def wp_bindM wp_thenM wp_getM wp_modM
  by (rule wp_frames_of) (auto split: sum.split)

lemma framed_length: "framed st data frames \<Longrightarrow> length frames = 1 \<or> length frames = 2"
  by (auto simp: framed_def dest: frame_cases split: if_splits)

lemma tx_move_step:
  assumes "tx_move E m = Some m'"
  shows "threads_of m' = threads_of m \<or> step (threads_of m) (threads_of m')"
proof (cases "txp m")
  case TxTop
  show ?thesis
  proof (cases "running (obj m)")
    case True
    with assms TxTop have "exec (thenM (wait_event E) (modM (\<lambda>s. s\<lparr>tx_event := False\<rparr>))) (\<lambda>_ m. m\<lparr>txp := TxQueue\<rparr>) (\<lambda>_ m. m\<lparr>txp := TxDone\<rparr>) m = Some m'"
      by (simp add: tx_move_def)
    then show ?thesis
      by (rule execE [OF _ keeps_flags_pieces(4)]) (use True in \<open>auto simp: TxTop threads_of_def intro: written_steps\<close>)
  qed (use assms TxTop in \<open>auto simp: tx_move_def threads_of_def intro: written_steps\<close>)
next
  case TxQueue
  show ?thesis
  proof (cases "tx_queue (obj m) = [] \<or> \<not> running (obj m)")
    case False
    with assms TxQueue have ex: "exec (take_packet E) (\<lambda>(pkt, frames, toa) m. m\<lparr>txp := TxReserve (length frames), packet := pkt, to_send := frames, toa_of := toa\<rparr>)
        tx_raise m = Some m'" by (simp add: tx_move_def)
    have fr: "length frames = 1 \<or> length frames = 2" if "take_packet E (obj m) = Some (Inr (pkt, frames, toa), x)" for pkt frames toa x
      using wpD(1) [OF wp_take_packet that] framed_length by fastforce
    from ex show ?thesis
      by (rule execE [OF _ keeps_flags_pieces(5)]) (use False in \<open>auto simp: TxQueue threads_of_def tx_raise_def dest!: fr intro: written_steps packet_step\<close>)
  qed (use assms TxQueue in \<open>auto simp: tx_move_def threads_of_def intro: written_steps\<close>)
next
  case (TxReserve n)
  with assms have ex: "exec (bindM (getM (st_duty \<circ> settings_of)) (\<lambda>cfg. reserve_round E cfg (toa_of m) (snd (packet m)))) (tx_reserved n) tx_raise m = Some m'"
    by (simp add: tx_move_def)
  have k: "keeps (flags c) (bindM (getM (st_duty \<circ> settings_of)) (\<lambda>cfg. reserve_round E cfg (toa_of m) (snd (packet m))))" for c
    by (intro keeps_rules keeps_flags_pieces)
  from ex show ?thesis
    by (rule execE [OF _ k])
      (auto simp: TxReserve threads_of_def tx_raise_def tx_reserved_def split: option.split bool.split intro: written_steps)
next
  case (TxSend n)
  show ?thesis
  proof (cases n)
    case (Suc k)
    with assms TxSend have "exec (send_frame E (toa_of m) (hd (to_send m))) (\<lambda>_ m. m\<lparr>txp := TxSend k, to_send := tl (to_send m)\<rparr>)
        (\<lambda>e m. m\<lparr>txp := TxClear True, tx_exn := e\<rparr>) m = Some m'" by (simp add: tx_move_def)
    then show ?thesis
      by (rule execE [OF _ keeps_flags_pieces(7)]) (auto simp: TxSend Suc threads_of_def intro: written_steps)
  qed (use assms TxSend in \<open>auto simp: tx_move_def threads_of_def intro: written_steps\<close>)
next
  case TxStartRx
  with assms have "exec (radio_start_rx E) (\<lambda>_ m. m\<lparr>txp := TxClear False, holder := None\<rparr>)
      (\<lambda>e m. m\<lparr>txp := TxClear True, tx_exn := e, holder := None\<rparr>) m = Some m'" by (simp add: tx_move_def)
  then show ?thesis
    by (rule execE [OF _ keeps_flags_radio(2)]) (auto simp: TxStartRx threads_of_def intro: written_steps)
next
  case TxFault
  with assms obtain r x where r: "tx_except (tx_exn m) (obj m) = Some (r, x)"
    "m' = (case r of Inr v \<Rightarrow> m\<lparr>obj := x, txp := if v = None then TxQueue else TxDone\<rparr> | Inl e \<Rightarrow> m\<lparr>obj := x, txp := TxDone\<rparr>)"
    by (auto simp: tx_move_def exec_def split: option.splits sum.splits)
  with excepts [of E "tx_exn m" "obj m" r x] show ?thesis
    by (auto simp: TxFault threads_of_def split: sum.splits option.splits intro: written_steps)
qed (use assms in \<open>auto simp: tx_move_def threads_of_def split: if_splits intro: written_steps\<close>)

lemma act_step:
  assumes "act E a m = Some m'"
  shows "threads_of m' = threads_of m \<or> step (threads_of m) (threads_of m')"
proof (cases a)
  case (Move th)
  with assms show ?thesis using rx_move_step [of E m m'] tx_move_step [of E m m'] by (cases th) (auto simp: act_def)
next
  case (Submit data)
  with assms have "exec (process_outgoing E data) (\<lambda>_ m. m) (\<lambda>_ m. m) m = Some m'" by (simp add: act_def)
  then show ?thesis by (rule execE [OF _ keeps_flags_pieces(3)]) (auto simp: threads_of_def)
qed (use assms in \<open>auto simp: act_def threads_of_def intro: written_steps\<close>)

lemma machine_reachable: "play E acts m = Some m' \<Longrightarrow> reachable (threads_of m) \<Longrightarrow> reachable (threads_of m')"
proof (induction acts arbitrary: m)
  case (Cons a as)
  then obtain n where n: "act E a m = Some n" "play E as n = Some m'" by (auto simp: bind_eq_Some_conv)
  with act_step [OF n(1)] Cons show ?case by (metis next_step)
qed simp

end
