(* ===== verification/Concurrency_Properties.thy ===== *)
theory Concurrency_Properties
  imports Concurrency
begin

text \<open>
  What holds in every interleaving of the two threads: polls meet no transmission, and what goes on air was charged; and
  the rounds of the theory \<open>Interface\<close> are the schedules of the machine in which one thread moves alone.
\<close>

section \<open>Polls\<close>

text \<open>
  C10. Every interleaving of the code of the two threads, of submitted packets and of a stop is a run of \<open>Threads\<close>;
  so whenever \<open>poll_rx\<close> runs, the radio lock is the receive thread's, the flag \<open>_tx_active\<close> is down, and the transmit thread is at no point
  between setting and clearing it.
\<close>

theorem machine_polls_alone:
  assumes "play E acts (boot x) = Some m" "\<not> tx_active x" "running x"
  shows "reachable (threads_of m) \<and> (rxp m = RxPoll \<longrightarrow> \<not> tx_on_air (txp m) \<and> \<not> tx_active (obj m) \<and> holder m = Some Rx)"
proof -
  have "threads_of (boot x) = started" using assms(2,3) by (simp add: threads_of_def boot_def started_def)
  then have r: "reachable (threads_of m)" using machine_reachable [OF assms(1)] start by simp
  with poll_excludes_transmission [OF r] show ?thesis by (simp add: threads_of_def)
qed

section \<open>What goes on air was charged\<close>

text \<open>Since \<open>x0\<close> the radio was loaded with \<open>l\<close>.\<close>

definition on_air :: "'d iface \<Rightarrow> byte list list \<Rightarrow> 'd iface \<Rightarrow> bool" where
  "on_air x0 l x \<longleftrightarrow> kind x = kind x0 \<and> settings_of x = settings_of x0 \<and>
     (\<exists>ev. bus_trace x = bus_trace x0 @ ev \<and> loaded (kind x0) (payloads ev) = l)"

lemma on_air_radiated: "on_air x0 l x \<Longrightarrow> radiated x l' y \<Longrightarrow> on_air x0 (l @ l') y"
  by (fastforce simp: on_air_def radiated_def same_iface_def)

lemma on_air_part: "on_air x0 l x \<Longrightarrow> radiated_part x l' y \<Longrightarrow> \<exists>p. prefix p l' \<and> on_air x0 (l @ p) y"
  unfolding radiated_part_def using on_air_radiated by blast

text \<open>A grant that was charged.\<close>

definition charged_grant :: "('d, 'y) duty_platform_scheme \<Rightarrow> settings \<Rightarrow> 'd grant \<Rightarrow> bool" where
  "charged_grant E st g \<longleftrightarrow> (case g of (data, frames, toa, acc) \<Rightarrow> framed st data frames \<and>
     airtime_of (st_modem st) frames = Inr toa \<and> granted E (st_duty st) toa acc)"

text \<open>Pieces that neither touch the bus nor the lock of the account.\<close>

definition calm :: "'d iface \<Rightarrow> byte list list \<Rightarrow> 'd iface \<Rightarrow> bool" where
  "calm x0 l x \<longleftrightarrow> on_air x0 l x \<and> \<not> lock_held (account x)"

lemma calm_updates [simp]:
  "calm x0 l (x\<lparr>dev := d\<rparr>) = calm x0 l x" "calm x0 l (x\<lparr>rf_log := g\<rparr>) = calm x0 l x" "calm x0 l (x\<lparr>tx_queue := q\<rparr>) = calm x0 l x"
  "calm x0 l (x\<lparr>tx_event := b\<rparr>) = calm x0 l x" "calm x0 l (x\<lparr>txb := n\<rparr>) = calm x0 l x" "calm x0 l (x\<lparr>rxb := n\<rparr>) = calm x0 l x"
  "calm x0 l (x\<lparr>heard := h\<rparr>) = calm x0 l x" "calm x0 l (x\<lparr>delivered := dl\<rparr>) = calm x0 l x" "calm x0 l (x\<lparr>reasm := r\<rparr>) = calm x0 l x"
  "calm x0 l (x\<lparr>last_rx := lr\<rparr>) = calm x0 l x" "calm x0 l (x\<lparr>tx_dropped := n\<rparr>) = calm x0 l x" "calm x0 l (x\<lparr>tx_oversize := n\<rparr>) = calm x0 l x"
  "calm x0 l (x\<lparr>running := b\<rparr>) = calm x0 l x" "calm x0 l (x\<lparr>online := b\<rparr>) = calm x0 l x" "calm x0 l (x\<lparr>fatal := e\<rparr>) = calm x0 l x"
  "calm x0 l (x\<lparr>tx_active := b\<rparr>) = calm x0 l x"
  by (simp_all add: calm_def on_air_def)

lemma calm_free: "dev_free (calm x0 l)"
  by (simp add: dev_free_def)

lemma keeps_calm:
  "keeps (calm x0 l) (wait_irq E t)" "keeps (calm x0 l) (handle E r)" "keeps (calm x0 l) (process_outgoing E data)"
  "keeps (calm x0 l) (thenM (wait_event E) (modM (\<lambda>s. s\<lparr>tx_event := False\<rparr>)))" "keeps (calm x0 l) (take_packet E)"
  "keeps (calm x0 l) (sleepM E t)" "keeps (calm x0 l) (rx_except E e)" "keeps (calm x0 l) (tx_except e)"
proof -
  have log: "keeps (calm x0 l) (on_log n)" for n :: "('a rflog, unit) py" by (auto simp: keeps_wp wp_on_log intro!: wp_any)
  show "keeps (calm x0 l) (wait_irq E t)" "keeps (calm x0 l) (handle E r)" "keeps (calm x0 l) (process_outgoing E data)"
    "keeps (calm x0 l) (thenM (wait_event E) (modM (\<lambda>s. s\<lparr>tx_event := False\<rparr>)))" "keeps (calm x0 l) (take_packet E)"
    "keeps (calm x0 l) (sleepM E t)" "keeps (calm x0 l) (rx_except E e)" "keeps (calm x0 l) (tx_except e)"
    unfolding wait_irq_def handle_def received_def process_incoming_def process_outgoing_def wait_event_def take_packet_def frames_of_def
      rx_except_def tx_except_def fail_with_def
    by (intro keeps_rules log calm_free; simp)+
qed

lemma keeps_calm_radio: "keeps (calm x0 l) (radio_poll_rx E)" "keeps (calm x0 l) (radio_start_rx E)"
proof -
  have silent: "calm x0 l y" if "calm x0 l x" "radiated x [] y \<or> radiated_part x [] y" "account y = account x" for x y
    using that on_air_radiated [of x0 l x "[]" y] on_air_part [of x0 l x "[]" y] by (auto simp: calm_def)
  show "keeps (calm x0 l) (radio_poll_rx E)" "keeps (calm x0 l) (radio_start_rx E)"
    unfolding keeps_wp by (intro allI impI, rule wp_mono, rule wp_radio, (auto dest: silent) [2])+
qed

lemma wp_reserve_round:
  assumes "0 < toa" "calm x0 l x" "0 < long_window (st_duty (settings_of x0))"
  shows "wp (bindM (getM (st_duty \<circ> settings_of)) (\<lambda>cfg. reserve_round E cfg toa q))
     (\<lambda>r y. calm x0 l y \<and> (r = Some True \<longrightarrow> granted E (st_duty (settings_of x0)) toa (account y))) (\<lambda>_. calm x0 l) x"
proof -
  have st: "settings_of x = settings_of x0" using assms(2) by (simp add: calm_def on_air_def)
  have c: "calm x0 l (x\<lparr>account := a, dev := d\<rparr>)" if "\<not> lock_held a" for a d
    using assms(2) that by (simp add: calm_def on_air_def)
  have "\<not> lock_held ((account x)\<lparr>dev := dev x\<rparr>)" using assms(2) by (simp add: calm_def)
  then have res: "wp (on_account (reserve E (st_duty (settings_of x0)) toa))
      (\<lambda>r y. calm x0 l y \<and> (fst r \<longrightarrow> granted E (st_duty (settings_of x0)) toa (account y))) (\<lambda>_. calm x0 l) x"
    unfolding wp_on_account by (intro wp_mono [OF wp_reserve_granted]) (use assms c in auto)
  show ?thesis
    unfolding reserve_round_def wp_bindM wp_getM comp_def st
    by (rule wp_mono [OF res]) (auto simp: timeM_def intro!: wp_sleepM split: prod.splits)
qed

lemma wp_send_calm:
  assumes "calm x0 l x"
  shows "wp (send_frame E toa f) (\<lambda>_. calm x0 (l @ [f])) (\<lambda>_ y. \<exists>p. prefix p [f] \<and> calm x0 (l @ p) y) x"
  by (rule wp_mono [OF wp_send_frame])
    (use assms on_air_radiated on_air_part in \<open>fastforce simp: calm_def\<close>)+

text \<open>The points at which granted frames are still to be sent.\<close>

fun in_flight :: "tx_pc \<Rightarrow> nat option" where
  "in_flight (TxLock n) = Some n"
| "in_flight (TxHeld n) = Some n"
| "in_flight (TxSet n) = Some n"
| "in_flight (TxSend n) = Some n"
| "in_flight _ = None"

text \<open>
  The invariant: what was loaded is, grant by grant, an initial part of the frames granted, and what is still to be sent of the
  last grant are the frames that are missing.
\<close>

definition frames_granted :: "'d grant \<Rightarrow> byte list list" where
  "frames_granted g = fst (snd g)"

definition charged_so_far :: "('d, 'y) duty_platform_scheme \<Rightarrow> 'd iface \<Rightarrow> 'd machine \<Rightarrow> bool" where
  "charged_so_far E x0 m \<longleftrightarrow> (\<forall>g \<in> set (grants m). charged_grant E (settings_of x0) g) \<and>
     (\<exists>ls. calm x0 (concat ls) (obj m) \<and> list_all2 prefix ls (map frames_granted (grants m)) \<and>
       (\<forall>n. in_flight (txp m) = Some n \<longrightarrow> length (to_send m) = n \<and> ls \<noteq> [] \<and> last ls @ to_send m = frames_granted (last (grants m)))) \<and>
     (\<forall>n. txp m = TxReserve n \<longrightarrow> length (to_send m) = n \<and> framed (settings_of x0) (fst (packet m)) (to_send m) \<and>
        airtime_of (st_modem (settings_of x0)) (to_send m) = Inr (toa_of m))"

text \<open>Code that keeps what was loaded and leaves the transmit thread where it is, or at a point without obligations.\<close>

definition idle_at :: "'d machine \<Rightarrow> 'd machine \<Rightarrow> bool" where
  "idle_at m n \<longleftrightarrow> grants n = grants m \<and>
     ((txp n = txp m \<or> in_flight (txp n) = in_flight (txp m) \<and> (\<forall>k. txp n \<noteq> TxReserve k)) \<and> to_send n = to_send m \<and> packet n = packet m \<and> toa_of n = toa_of m \<or>
     in_flight (txp n) = None \<and> (\<forall>k. txp n \<noteq> TxReserve k))"

lemma charged_idle:
  assumes "charged_so_far E x0 m" "idle_at m n" "\<And>l. calm x0 l (obj m) \<Longrightarrow> calm x0 l (obj n)"
  shows "charged_so_far E x0 n"
proof -
  from assms(1) obtain ls where ls: "calm x0 (concat ls) (obj m)" "list_all2 prefix ls (map frames_granted (grants m))"
    "\<forall>n. in_flight (txp m) = Some n \<longrightarrow> length (to_send m) = n \<and> ls \<noteq> [] \<and> last ls @ to_send m = frames_granted (last (grants m))"
    by (auto simp: charged_so_far_def)
  have g: "grants n = grants m" using assms(2) by (simp add: idle_at_def)
  have "\<forall>k. in_flight (txp n) = Some k \<longrightarrow> length (to_send n) = k \<and> ls \<noteq> [] \<and> last ls @ to_send n = frames_granted (last (grants n))"
    using assms(2) ls(3) g by (auto simp: idle_at_def)
  moreover have "\<forall>k. txp n = TxReserve k \<longrightarrow> length (to_send n) = k \<and> framed (settings_of x0) (fst (packet n)) (to_send n) \<and>
      airtime_of (st_modem (settings_of x0)) (to_send n) = Inr (toa_of n)"
    using assms(1,2) by (auto simp: idle_at_def charged_so_far_def)
  moreover have "\<forall>g \<in> set (grants n). charged_grant E (settings_of x0) g" using assms(1) g by (simp add: charged_so_far_def)
  ultimately show ?thesis unfolding charged_so_far_def using ls(1,2) assms(3) g by (intro conjI exI [of _ ls]) simp_all
qed

lemma exec_calm:
  assumes "exec body f g m = Some m'" "charged_so_far E x0 m" "\<And>l. keeps (calm x0 l) body"
    "\<And>v x. idle_at m (f v (m\<lparr>obj := x\<rparr>)) \<and> obj (f v (m\<lparr>obj := x\<rparr>)) = x" "\<And>e x. idle_at m (g e (m\<lparr>obj := x\<rparr>)) \<and> obj (g e (m\<lparr>obj := x\<rparr>)) = x"
  shows "charged_so_far E x0 m'"
proof -
  from assms(1) obtain r x where b: "body (obj m) = Some (r, x)" "m' = (case r of Inr v \<Rightarrow> f v (m\<lparr>obj := x\<rparr>) | Inl e \<Rightarrow> g e (m\<lparr>obj := x\<rparr>))"
    by (auto simp: exec_def split: option.splits sum.splits)
  then have "idle_at m m' \<and> obj m' = x" using assms(4,5) by (cases r) auto
  then show ?thesis using charged_idle [OF assms(2), of m'] keepsD [OF assms(3) _ b(1)] by auto
qed

lemma rx_move_charged:
  assumes "rx_move E m = Some m'" "charged_so_far E x0 m"
  shows "charged_so_far E x0 m'"
proof -
  have silent: "charged_so_far E x0 (m\<lparr>rxp := p, holder := h\<rparr>)" "charged_so_far E x0 (m\<lparr>rxp := p\<rparr>)" for p h
    by (rule charged_idle [OF assms(2)]; simp add: idle_at_def)+
  note ex = exec_calm [OF _ assms(2)]
  show ?thesis
  proof (cases "rxp m")
    case RxSleep
    with assms(1) show ?thesis by (intro ex [of "sleepM E 0.005"] keeps_calm) (auto simp: rx_move_def rx_raise_def idle_at_def)
  next
    case RxWait
    with assms(1) show ?thesis by (intro ex [of "wait_irq E 0.1"] keeps_calm) (auto simp: rx_move_def rx_raise_def idle_at_def)
  next
    case RxPoll
    with assms(1) show ?thesis by (intro ex [of "radio_poll_rx E"] keeps_calm_radio) (auto simp: rx_move_def rx_raise_def idle_at_def)
  next
    case RxHandle
    with assms(1) show ?thesis by (intro ex [of "handle E (got m)"] keeps_calm) (auto simp: rx_move_def rx_raise_def idle_at_def)
  next
    case RxFault
    with assms(1) show ?thesis by (intro ex [of "rx_except E (rx_exn m)"] keeps_calm) (auto simp: rx_move_def idle_at_def)
  qed (use assms(1) silent in \<open>auto simp: rx_move_def split: if_splits\<close>)
qed

text \<open>A grant, and a frame that was sent or failed.\<close>

lemma charged_granted:
  assumes "charged_so_far E x0 m" "txp m = TxReserve n" "\<And>l. calm x0 l (obj m) \<Longrightarrow> calm x0 l x"
    "granted E (st_duty (settings_of x0)) (toa_of m) (account x)"
  shows "charged_so_far E x0 (tx_reserved n (Some True) (m\<lparr>obj := x\<rparr>))"
proof -
  from assms(1) obtain ls where ls: "calm x0 (concat ls) (obj m)" "list_all2 prefix ls (map frames_granted (grants m))"
    by (auto simp: charged_so_far_def)
  have g: "charged_grant E (settings_of x0) (fst (packet m), to_send m, toa_of m, account x)" "length (to_send m) = n"
    using assms(1,2,4) by (auto simp: charged_so_far_def charged_grant_def)
  show ?thesis
    unfolding charged_so_far_def tx_reserved_def
    using g assms(1) ls assms(3)
    by (intro conjI exI [of _ "ls @ [[]]"]) (auto simp: charged_so_far_def frames_granted_def list_all2_appendI)
qed

lemma charged_frame:
  assumes "charged_so_far E x0 m" "txp m = TxSend (Suc k)"
    and "\<And>l. calm x0 l (obj m) \<Longrightarrow> \<exists>p. prefix p [hd (to_send m)] \<and> calm x0 (l @ p) (obj n) \<and> (txp n = TxSend k \<longrightarrow> p = [hd (to_send m)])"
    and "grants n = grants m" "txp n = TxSend k \<and> to_send n = tl (to_send m) \<or> txp n = TxClear True"
  shows "charged_so_far E x0 n"
proof -
  from assms(1,2) obtain ls where ls: "calm x0 (concat ls) (obj m)" "list_all2 prefix ls (map frames_granted (grants m))"
    "length (to_send m) = Suc k" "ls \<noteq> []" "last ls @ to_send m = frames_granted (last (grants m))" by (auto simp: charged_so_far_def)
  from assms(3) [OF ls(1)] obtain p where p: "prefix p [hd (to_send m)]" "calm x0 (concat ls @ p) (obj n)"
    "txp n = TxSend k \<longrightarrow> p = [hd (to_send m)]" by blast
  let ?ls = "butlast ls @ [last ls @ p]"
  have split: "to_send m = hd (to_send m) # tl (to_send m)" using ls(3) by (cases "to_send m") auto
  have gs: "grants m \<noteq> []" using ls(2,4) by auto
  have c: "concat ?ls = concat ls @ p" using ls(4) by (metis append_assoc append_butlast_last_id concat.simps concat_append append_Nil2)
  have "prefix (last ls @ p) (frames_granted (last (grants m)))"
    unfolding ls(5) [symmetric] using p(1) split by (metis append_Cons append_Nil prefix_prefix same_prefix_prefix)
  moreover have "list_all2 prefix (butlast ls) (map frames_granted (butlast (grants m)))"
    using ls(2) list_all2_lengthD [OF ls(2)] by (simp add: butlast_conv_take list_all2_takeI take_map [symmetric])
  ultimately have "list_all2 prefix ?ls (map frames_granted (butlast (grants m) @ [last (grants m)]))"
    by (simp add: list_all2_appendI)
  then have a: "list_all2 prefix ?ls (map frames_granted (grants n))" using gs assms(4) by simp
  have now: "length (to_send n) = k \<and> last ?ls @ to_send n = frames_granted (last (grants n))" if at: "txp n = TxSend k"
  proof -
    have t: "to_send n = tl (to_send m)" "p = [hd (to_send m)]" using at assms(5) p(3) by auto
    have "last ?ls @ to_send n = last ls @ to_send m" using split unfolding t by simp
    then show ?thesis using ls(3,5) assms(4) t(1) by simp
  qed
  have calm: "calm x0 (concat ?ls) (obj n)" unfolding c by (rule p(2))
  have here: "\<forall>j. in_flight (txp n) = Some j \<longrightarrow> length (to_send n) = j \<and> ?ls \<noteq> [] \<and> last ?ls @ to_send n = frames_granted (last (grants n))"
    using assms(5) now by auto
  have gr: "\<forall>g \<in> set (grants n). charged_grant E (settings_of x0) g" using assms(1,4) by (simp add: charged_so_far_def)
  have no: "\<forall>j. txp n \<noteq> TxReserve j" using assms(5) by auto
  show ?thesis unfolding charged_so_far_def using a calm here gr no by (intro conjI exI [of _ ?ls]) blast+
qed

lemma charged_taken:
  fixes E :: "('d, 'y) rns_platform_scheme" and m :: "'d machine"
  assumes "charged_so_far E x0 m" "take_packet E (obj m) = Some (Inr (pkt, frames, toa), x)"
  shows "charged_so_far E x0 (m\<lparr>obj := x, txp := TxReserve (length frames), packet := pkt, to_send := frames, toa_of := toa\<rparr>)"
proof -
  from assms(1) obtain ls where ls: "calm x0 (concat ls) (obj m)" "list_all2 prefix ls (map frames_granted (grants m))"
    by (auto simp: charged_so_far_def)
  have st: "settings_of (obj m) = settings_of x0" using ls(1) by (simp add: calm_def on_air_def)
  have "framed (settings_of x0) (fst pkt) frames \<and> airtime_of (st_modem (settings_of x0)) frames = Inr toa"
    using wpD(1) [OF wp_take_packet assms(2)] st by simp
  moreover have "calm x0 (concat ls) x" using keepsD [OF keeps_calm(5) ls(1) assms(2)] .
  ultimately show ?thesis using assms(1) ls(2) by (auto simp: charged_so_far_def)
qed

lemma charged_reserving:
  assumes "charged_so_far E x0 m" "txp m = TxReserve n" "sane (st_modem (settings_of x0))" "0 < long_window (st_duty (settings_of x0))"
    "exec (bindM (getM (st_duty \<circ> settings_of)) (\<lambda>cfg. reserve_round E cfg (toa_of m) (snd (packet m)))) (tx_reserved n) tx_raise m = Some m'"
  shows "charged_so_far E x0 m'"
proof -
  let ?code = "bindM (getM (st_duty \<circ> settings_of)) (\<lambda>cfg. reserve_round E cfg (toa_of m) (snd (packet m)))"
  have "framed (settings_of x0) (fst (packet m)) (to_send m)" "airtime_of (st_modem (settings_of x0)) (to_send m) = Inr (toa_of m)"
    using assms(1,2) by (auto simp: charged_so_far_def)
  then have pos: "0 < toa_of m" using airtime_of_pos [OF assms(3) framed_nonempty] by blast
  note wp = wp_reserve_round [OF pos _ assms(4), where E = E and q = "snd (packet m)"]
  from assms(5) obtain r x where b: "?code (obj m) = Some (r, x)"
    "m' = (case r of Inr v \<Rightarrow> tx_reserved n v (m\<lparr>obj := x\<rparr>) | Inl e \<Rightarrow> tx_raise e (m\<lparr>obj := x\<rparr>))"
    by (auto simp: exec_def split: option.splits sum.splits)
  have c: "calm x0 l x" if "calm x0 l (obj m)" for l
    using wpD [OF wp [OF that]] b(1) by (cases r) auto
  have g: "granted E (st_duty (settings_of x0)) (toa_of m) (account x)" if "r = Inr (Some True)"
  proof -
    from assms(1) obtain ls where "calm x0 (concat ls) (obj m)" by (auto simp: charged_so_far_def)
    from wpD(1) [OF wp [OF this]] b(1) that show ?thesis by auto
  qed
  have idle: "charged_so_far E x0 k" if "idle_at m k" "obj k = x" for k
    by (rule charged_idle [OF assms(1) that(1)]) (simp add: that(2) c)
  show ?thesis
  proof (cases "r = Inr (Some True)")
    case True
    with b(2) charged_granted [OF assms(1,2) c g] show ?thesis by simp
  next
    case False
    with b(2) show ?thesis
      by (intro idle) (auto simp: idle_at_def tx_reserved_def tx_raise_def split: sum.split option.split bool.split)
  qed
qed

lemma tx_move_charged:
  assumes "tx_move E m = Some m'" "charged_so_far E x0 m" "sane (st_modem (settings_of x0))" "0 < long_window (st_duty (settings_of x0))"
  shows "charged_so_far E x0 m'"
proof -
  note ex = exec_calm [OF _ assms(2)]
  have idle: "charged_so_far E x0 n" if "idle_at m n" "obj n = obj m \<or> obj n = (obj m)\<lparr>tx_active := b\<rparr> \<or> obj n = (obj m)\<lparr>txb := k\<rparr>" for n b k
    by (rule charged_idle [OF assms(2) that(1)]) (use that(2) in auto)
  show ?thesis
  proof (cases "txp m")
    case TxTop
    show ?thesis
    proof (cases "running (obj m)")
      case True
      with assms(1) TxTop show ?thesis
        by (intro ex [of "thenM (wait_event E) (modM (\<lambda>s. s\<lparr>tx_event := False\<rparr>))"] keeps_calm) (auto simp: tx_move_def idle_at_def)
    qed (use assms(1) TxTop in \<open>auto simp: tx_move_def idle_at_def intro!: idle\<close>)
  next
    case TxQueue
    show ?thesis
    proof (cases "tx_queue (obj m) = [] \<or> \<not> running (obj m)")
      case False
      with assms(1) TxQueue obtain r x where b: "take_packet E (obj m) = Some (r, x)"
        "m' = (case r of Inr (pkt, frames, toa) \<Rightarrow> m\<lparr>obj := x, txp := TxReserve (length frames), packet := pkt, to_send := frames, toa_of := toa\<rparr>
          | Inl e \<Rightarrow> tx_raise e (m\<lparr>obj := x\<rparr>))"
        by (auto simp: tx_move_def exec_def split: option.splits sum.splits)
      show ?thesis
      proof (cases r)
        case (Inl e)
        with b have "idle_at m m'" "obj m' = x" by (simp_all add: idle_at_def tx_raise_def)
        then show ?thesis using charged_idle [OF assms(2)] keepsD [OF keeps_calm(5) _ b(1)] by blast
      qed (use b charged_taken [OF assms(2)] in \<open>auto split: prod.splits\<close>)
    qed (use assms(1) TxQueue in \<open>auto simp: tx_move_def idle_at_def intro!: idle\<close>)
  next
    case (TxReserve n)
    with assms(1) charged_reserving [OF assms(2) _ assms(3,4), of n m'] show ?thesis by (simp add: tx_move_def)
  next
    case (TxSend n)
    show ?thesis
    proof (cases n)
      case (Suc k)
      let ?f = "hd (to_send m)"
      from assms(1) TxSend Suc obtain r x where b: "send_frame E (toa_of m) ?f (obj m) = Some (r, x)"
        "m' = (case r of Inr v \<Rightarrow> m\<lparr>obj := x, txp := TxSend k, to_send := tl (to_send m)\<rparr> | Inl e \<Rightarrow> m\<lparr>obj := x, txp := TxClear True, tx_exn := e\<rparr>)"
        by (auto simp: tx_move_def exec_def split: option.splits sum.splits)
      show ?thesis
      proof (rule charged_frame [OF assms(2)])
        show "txp m = TxSend (Suc k)" using TxSend Suc by simp
        show "grants m' = grants m" "txp m' = TxSend k \<and> to_send m' = tl (to_send m) \<or> txp m' = TxClear True"
          using b(2) by (cases r; simp)+
        fix l assume "calm x0 l (obj m)"
        from wpD [OF wp_send_calm [OF this, of E "toa_of m" ?f]] b
        show "\<exists>p. prefix p [?f] \<and> calm x0 (l @ p) (obj m') \<and> (txp m' = TxSend k \<longrightarrow> p = [?f])"
          by (cases r) fastforce+
      qed
    qed (use assms(1) TxSend in \<open>auto simp: tx_move_def idle_at_def intro!: idle\<close>)
  next
    case TxStartRx
    with assms(1) show ?thesis by (intro ex [of "radio_start_rx E"] keeps_calm_radio) (auto simp: tx_move_def idle_at_def)
  next
    case TxFault
    with assms(1) show ?thesis by (intro ex [of "tx_except (tx_exn m)"] keeps_calm) (auto simp: tx_move_def idle_at_def split: if_splits)
  qed (use assms(1) in \<open>auto simp: tx_move_def idle_at_def split: if_splits intro!: idle\<close>)
qed

lemma play_charged:
  assumes "play E acts m = Some m'" "charged_so_far E x0 m" "sane (st_modem (settings_of x0))" "0 < long_window (st_duty (settings_of x0))"
  shows "charged_so_far E x0 m'"
  using assms(1,2)
proof (induction acts arbitrary: m)
  case (Cons a as)
  then obtain n where n: "act E a m = Some n" "play E as n = Some m'" by (auto simp: bind_eq_Some_conv)
  have "charged_so_far E x0 n"
  proof (cases a)
    case (Move th)
    with n(1) rx_move_charged [OF _ Cons.prems(2)] tx_move_charged [OF _ Cons.prems(2) assms(3,4)] show ?thesis
      by (cases th) (auto simp: act_def)
  next
    case (Submit data)
    with n(1) show ?thesis
      by (intro exec_calm [OF _ Cons.prems(2) keeps_calm(3), of E data "\<lambda>_ m. m" "\<lambda>_ m. m"]) (auto simp: act_def idle_at_def)
  next
    case Halt
    with n(1) show ?thesis by (intro charged_idle [OF Cons.prems(2)]) (auto simp: act_def idle_at_def)
  qed
  from Cons.IH [OF n(2) this] show ?case .
qed simp

text \<open>
  C9. However the two threads, Reticulum's submissions and a stop interleave, whatever fails: the packets loaded for transmission
  since the start are, in order, an initial part of the frames of each granted reservation, and each of these was for exactly the
  frames of one packet and their airtime, and was on disk and within the hourly limit when it was granted.
\<close>

theorem interleaved_transmissions_charged:
  assumes "play E acts (boot x) = Some m" "ready x"
  shows "(\<forall>g \<in> set (grants m). charged_grant E (settings_of x) g) \<and>
    (\<exists>ls ev. bus_trace (obj m) = bus_trace x @ ev \<and> loaded (kind x) (payloads ev) = concat ls \<and>
      list_all2 prefix ls (map frames_granted (grants m)))"
proof -
  have "charged_so_far E x (boot x)"
    using assms(2) by (simp add: charged_so_far_def boot_def calm_def on_air_def ready_def)
  moreover have "0 < long_window (st_duty (settings_of x))" using assms(2) by (auto simp: ready_def duty_account_def)
  ultimately have "charged_so_far E x m" using play_charged [OF assms(1)] assms(2) by (simp add: ready_def)
  then show ?thesis by (auto simp: charged_so_far_def calm_def on_air_def)
qed

section \<open>Rounds are schedules\<close>

text \<open>One thread moves alone.\<close>

definition solo :: "('d, 'y) rns_platform_scheme \<Rightarrow> thread \<Rightarrow> 'd machine \<Rightarrow> 'd machine \<Rightarrow> bool" where
  "solo E th m n \<longleftrightarrow> (\<exists>k. play E (replicate k (Move th)) m = Some n)"

lemma play_append: "play E (as @ bs) m = Option.bind (play E as m) (play E bs)"
  by (induction as arbitrary: m) (simp_all split: bind_split)

lemma solo_refl [simp]: "solo E th m m"
  unfolding solo_def by (rule exI [of _ 0]) simp

lemma solo_move:
  assumes "solo E th m n" "act E (Move th) n = Some p"
  shows "solo E th m p"
proof -
  from assms(1) obtain k where "play E (replicate k (Move th)) m = Some n" by (auto simp: solo_def)
  with assms(2) have "play E (replicate k (Move th) @ [Move th]) m = Some p" by (simp add: play_append)
  then show ?thesis unfolding solo_def replicate_append_same [symmetric] by (intro exI [of _ "Suc k"]) (simp add: replicate_append_same)
qed

lemma solo_exec:
  assumes "solo E th m n" "act E (Move th) n = exec body f g n"
  shows "wp body (\<lambda>v y. solo E th m (f v (n\<lparr>obj := y\<rparr>))) (\<lambda>e y. solo E th m (g e (n\<lparr>obj := y\<rparr>))) (obj n)"
  using assms(2) by (auto simp: wp_def exec_def intro!: solo_move [OF assms(1)] split: option.split sum.split)

text \<open>The receive thread came from \<open>m\<close> to the point \<open>p\<close> with the object \<open>y\<close>.\<close>

definition rx_came :: "('d, 'y) rns_platform_scheme \<Rightarrow> 'd machine \<Rightarrow> rx_pc \<Rightarrow> exn option \<Rightarrow> 'd iface \<Rightarrow> bool" where
  "rx_came E m p e y \<longleftrightarrow> (\<exists>n. solo E Rx m n \<and> obj n = y \<and> rxp n = p \<and> holder n = None \<and> txp n = txp m \<and> (\<forall>x. e = Some x \<longrightarrow> rx_exn n = x))"

lemma rx_cameI: "solo E Rx m n \<Longrightarrow> rxp n = p \<Longrightarrow> holder n = None \<Longrightarrow> txp n = txp m \<Longrightarrow> (\<And>x. e = Some x \<Longrightarrow> rx_exn n = x) \<Longrightarrow> rx_came E m p e (obj n)"
  by (auto simp: rx_came_def)

lemma rx_body_pieces:
  "rx_body E = bindM (getM tx_active) (\<lambda>busy. if busy then sleepM E 0.005
     else bindM (wait_irq E 0.1) (\<lambda>_. bindM (getM tx_active) (\<lambda>busy. if busy then ret () else bindM (radio_poll_rx E) (handle E))))"
proof -
  have "handle E = (\<lambda>got. case got of None \<Rightarrow> ret () | Some (data, rssi, snr) \<Rightarrow> received E data rssi snr)"
    by (rule ext) (simp add: handle_def)
  then show ?thesis by (simp only: rx_body_def)
qed

lemma wp_rx_body_solo:
  assumes "rxp m = RxTop" "holder m = None" "running (obj m)"
  shows "wp (rx_body E) (\<lambda>_. rx_came E m RxTop None) (\<lambda>e. rx_came E m RxFault (Some e)) (obj m)"
proof -
  have m1: "solo E Rx m (m\<lparr>rxp := RxTest\<rparr>)"
    by (rule solo_move [OF solo_refl]) (use assms in \<open>simp add: act_def rx_move_def\<close>)
  show ?thesis
  proof (cases "tx_active (obj m)")
    case True
    let ?n = "m\<lparr>rxp := RxSleep\<rparr>"
    have n: "solo E Rx m ?n" by (rule solo_move [OF m1]) (simp add: act_def rx_move_def True)
    have "wp (sleepM E 0.005) (\<lambda>_. rx_came E m RxTop None) (\<lambda>e. rx_came E m RxFault (Some e)) (obj ?n)"
      by (rule wp_mono [OF solo_exec [OF n, of "sleepM E 0.005" "\<lambda>_ m. m\<lparr>rxp := RxTop\<rparr>" rx_raise]])
        (use assms in \<open>auto simp: act_def rx_move_def rx_raise_def dest: rx_cameI\<close>)
    with True show ?thesis by (simp add: rx_body_def)
  next
    case False
    let ?n = "m\<lparr>rxp := RxWait\<rparr>"
    have n: "solo E Rx m ?n" by (rule solo_move [OF m1]) (simp add: act_def rx_move_def False)
    have handled: "wp (handle E r) (\<lambda>_. rx_came E m RxTop None) (\<lambda>e. rx_came E m RxFault (Some e)) y"
      if "solo E Rx m (m\<lparr>obj := y, rxp := RxHandle, got := r, holder := None\<rparr>)" for r y
      using solo_exec [OF that, of "handle E r" "\<lambda>_ m. m\<lparr>rxp := RxTop\<rparr>" rx_raise] assms(2)
      by (auto simp: act_def rx_move_def rx_raise_def elim!: wp_mono dest: rx_cameI)
    have polled: "wp (radio_poll_rx E) (\<lambda>r. wp (handle E r) (\<lambda>_. rx_came E m RxTop None) (\<lambda>e. rx_came E m RxFault (Some e)))
        (\<lambda>e. rx_came E m RxFault (Some e)) y" if "solo E Rx m (m\<lparr>obj := y, rxp := RxPoll, holder := Some Rx\<rparr>)" for y
      using solo_exec [OF that, of "radio_poll_rx E" "\<lambda>r m. m\<lparr>rxp := RxHandle, got := r, holder := None\<rparr>" "\<lambda>e m. rx_raise e (m\<lparr>holder := None\<rparr>)"] assms(2)
      by (auto simp: act_def rx_move_def rx_raise_def elim!: wp_mono intro!: handled dest: rx_cameI)
    have waited: "wp (bindM (getM tx_active) (\<lambda>busy. if busy then ret () else bindM (radio_poll_rx E) (handle E)))
        (\<lambda>_. rx_came E m RxTop None) (\<lambda>e. rx_came E m RxFault (Some e)) y" if "solo E Rx m (m\<lparr>obj := y, rxp := RxLock\<rparr>)" for y
    proof -
      have h: "solo E Rx m (m\<lparr>obj := y, rxp := RxHeld, holder := Some Rx\<rparr>)"
        by (rule solo_move [OF that]) (simp add: act_def rx_move_def assms(2))
      show ?thesis
      proof (cases "tx_active y")
        case True
        have "solo E Rx m (m\<lparr>obj := y, rxp := RxTop, holder := None\<rparr>)"
          by (rule solo_move [OF h]) (simp add: act_def rx_move_def True)
        from rx_cameI [OF this, of RxTop None] True show ?thesis by simp
      next
        case False
        have "solo E Rx m (m\<lparr>obj := y, rxp := RxPoll, holder := Some Rx\<rparr>)"
          by (rule solo_move [OF h]) (simp add: act_def rx_move_def False)
        from polled [OF this] False show ?thesis by simp
      qed
    qed
    have "wp (wait_irq E 0.1) (\<lambda>_. wp (bindM (getM tx_active) (\<lambda>busy. if busy then ret () else bindM (radio_poll_rx E) (handle E)))
        (\<lambda>_. rx_came E m RxTop None) (\<lambda>e. rx_came E m RxFault (Some e))) (\<lambda>e. rx_came E m RxFault (Some e)) (obj ?n)"
      by (rule wp_mono [OF solo_exec [OF n, of "wait_irq E 0.1" "\<lambda>_ m. m\<lparr>rxp := RxLock\<rparr>" rx_raise]])
        (use assms in \<open>auto simp del: wp_bindM simp: act_def rx_move_def rx_raise_def intro!: waited dest: rx_cameI\<close>)
    then show ?thesis using False by (simp add: rx_body_pieces)
  qed
qed

lemma solo_rx:
  assumes "rxp m = RxTop" "holder m = None" "running (obj m)"
  shows "wp (rx_round E) (\<lambda>r. rx_came E m (if r = None then RxTop else RxDone) None) (\<lambda>_. rx_came E m RxDone None) (obj m)"
proof -
  have handler: "wp (rx_except E e) (\<lambda>r. rx_came E m (if r = None then RxTop else RxDone) None) (\<lambda>_. rx_came E m RxDone None) y"
    if "rx_came E m RxFault (Some e) y" for e y
  proof -
    from that obtain n where n: "solo E Rx m n" "obj n = y" "rxp n = RxFault" "holder n = None" "txp n = txp m" "rx_exn n = e"
      by (auto simp: rx_came_def)
    have "act E (Move Rx) n = exec (rx_except E e) (\<lambda>r m. m\<lparr>rxp := if r = None then RxTop else RxDone\<rparr>) (\<lambda>_ m. m\<lparr>rxp := RxDone\<rparr>) n"
      by (simp add: act_def rx_move_def n(3,6))
    from solo_exec [OF n(1) this] show ?thesis
      unfolding n(2) by (rule wp_mono) (use n in \<open>auto dest: rx_cameI split: if_splits\<close>)
  qed
  show ?thesis
    unfolding thread_pieces(1) wp_try_except wp_thenM wp_ret
    by (rule wp_mono [OF wp_rx_body_solo [OF assms]]) (auto intro: handler)
qed

text \<open>The same for the transmit thread; \<open>R\<close> says more about the machine at the point.\<close>

definition tx_came :: "('d, 'y) rns_platform_scheme \<Rightarrow> 'd machine \<Rightarrow> tx_pc \<Rightarrow> thread option \<Rightarrow> ('d machine \<Rightarrow> bool) \<Rightarrow> 'd iface \<Rightarrow> bool" where
  "tx_came E m p h R y \<longleftrightarrow> (\<exists>n. solo E Tx m n \<and> obj n = y \<and> txp n = p \<and> holder n = h \<and> rxp n = rxp m \<and> R n)"

lemma tx_came_any: "tx_came E m p h R y \<Longrightarrow> tx_came E m p h (\<lambda>_. True) y"
  by (auto simp: tx_came_def)

lemma tx_came_move:
  assumes "tx_came E m p h R y"
    "\<And>n. obj n = y \<Longrightarrow> txp n = p \<Longrightarrow> holder n = h \<Longrightarrow> R n \<Longrightarrow>
      \<exists>n'. tx_move E n = Some n' \<and> obj n' = y' \<and> txp n' = p' \<and> holder n' = h' \<and> rxp n' = rxp n \<and> R' n'"
  shows "tx_came E m p' h' R' y'"
proof -
  from assms(1) obtain n where n: "solo E Tx m n" "obj n = y" "txp n = p" "holder n = h" "rxp n = rxp m" "R n" by (auto simp: tx_came_def)
  from assms(2) [OF n(2-4,6)] obtain n' where n': "tx_move E n = Some n'" "obj n' = y'" "txp n' = p'" "holder n' = h'" "rxp n' = rxp n" "R' n'"
    by blast
  with solo_move [OF n(1), of n'] n(5) show ?thesis by (auto simp: tx_came_def act_def)
qed

lemma tx_came_exec:
  assumes "tx_came E m p h R y"
    "\<And>n. obj n = y \<Longrightarrow> txp n = p \<Longrightarrow> holder n = h \<Longrightarrow> R n \<Longrightarrow> \<exists>f g. tx_move E n = exec body f g n \<and>
      (\<forall>v x. let n' = f v (n\<lparr>obj := x\<rparr>) in Q v x \<longrightarrow> obj n' = x \<and> txp n' = p' v \<and> holder n' = h' \<and> rxp n' = rxp n \<and> R' v n') \<and>
      (\<forall>e x. let n' = g e (n\<lparr>obj := x\<rparr>) in obj n' = x \<and> txp n' = q \<and> holder n' = h' \<and> rxp n' = rxp n \<and> X e n')"
    "wp body Q (\<lambda>_ _. True) y"
  shows "wp body (\<lambda>v x. Q v x \<and> tx_came E m (p' v) h' (R' v) x) (\<lambda>e. tx_came E m q h' (X e)) y"
proof -
  from assms(1) obtain n where n: "solo E Tx m n" "obj n = y" "txp n = p" "holder n = h" "rxp n = rxp m" "R n" by (auto simp: tx_came_def)
  from assms(2) [OF n(2-4,6)] obtain f g where fg: "tx_move E n = exec body f g n"
    "\<And>v x. Q v x \<Longrightarrow> obj (f v (n\<lparr>obj := x\<rparr>)) = x \<and> txp (f v (n\<lparr>obj := x\<rparr>)) = p' v \<and> holder (f v (n\<lparr>obj := x\<rparr>)) = h' \<and>
      rxp (f v (n\<lparr>obj := x\<rparr>)) = rxp n \<and> R' v (f v (n\<lparr>obj := x\<rparr>))"
    "\<And>e x. obj (g e (n\<lparr>obj := x\<rparr>)) = x \<and> txp (g e (n\<lparr>obj := x\<rparr>)) = q \<and> holder (g e (n\<lparr>obj := x\<rparr>)) = h' \<and> rxp (g e (n\<lparr>obj := x\<rparr>)) = rxp n \<and> X e (g e (n\<lparr>obj := x\<rparr>))"
    by (auto simp: Let_def)
  have "act E (Move Tx) n = exec body f g n" by (simp add: act_def fg(1))
  from solo_exec [OF n(1) this] have w: "wp body (\<lambda>v x. solo E Tx m (f v (n\<lparr>obj := x\<rparr>))) (\<lambda>e x. solo E Tx m (g e (n\<lparr>obj := x\<rparr>))) y"
    by (simp add: n(2))
  show ?thesis
  proof (rule wpI)
    fix v x assume b: "body y = Some (Inr v, x)"
    from wpD(1) [OF assms(3) b] have q: "Q v x" .
    with fg(2) [OF q] wpD(1) [OF w b] n(5) show "Q v x \<and> tx_came E m (p' v) h' (R' v) x" unfolding tx_came_def by auto
  next
    fix e x assume b: "body y = Some (Inl e, x)"
    with fg(3) [of e x] wpD(2) [OF w b] n(5) show "tx_came E m q h' (X e) x" unfolding tx_came_def by auto
  qed
qed

abbreviation holds_packet :: "byte list \<times> real \<Rightarrow> byte list list \<Rightarrow> real \<Rightarrow> 'd machine \<Rightarrow> bool" where
  "holds_packet pkt frames toa n \<equiv> packet n = pkt \<and> to_send n = frames \<and> toa_of n = toa"

lemma wp_frames_solo:
  "tx_came E m (TxSend (length fs)) None (holds_packet pkt fs toa) y \<Longrightarrow>
   wp (forM fs (send_frame E toa)) (\<lambda>_. tx_came E m (TxSend 0) None (holds_packet pkt [] toa))
     (\<lambda>e. tx_came E m (TxClear True) None (\<lambda>n. tx_exn n = e)) y"
proof (induction fs arbitrary: y)
  case (Cons f fs)
  have "wp (send_frame E toa f) (\<lambda>v x. True \<and> tx_came E m (TxSend (length fs)) None (holds_packet pkt fs toa) x)
      (\<lambda>e. tx_came E m (TxClear True) None (\<lambda>n. tx_exn n = e)) y"
    by (rule tx_came_exec [OF Cons.prems], intro exI conjI) (auto simp: tx_move_def intro: wp_any)
  then show ?case unfolding forM.simps wp_thenM by (rule wp_mono) (auto intro: Cons.IH)
qed simp

lemma wp_key_up_solo:
  assumes "tx_came E m (TxLock (length frames)) None (holds_packet pkt frames toa) y"
  shows "wp (key_up E (fst pkt) frames toa) (\<lambda>_. tx_came E m TxQueue None (\<lambda>_. True)) (\<lambda>e. tx_came E m TxFault None (\<lambda>n. tx_exn n = e)) y"
proof -
  have l1: "tx_came E m (TxHeld (length frames)) (Some Tx) (holds_packet pkt frames toa) y"
    by (rule tx_came_move [OF assms]) (simp add: tx_move_def)
  have l2: "tx_came E m (TxSet (length frames)) (Some Tx) (holds_packet pkt frames toa) (y\<lparr>tx_active := True\<rparr>)"
    by (rule tx_came_move [OF l1]) (simp add: tx_move_def)
  have l3: "tx_came E m (TxSend (length frames)) None (holds_packet pkt frames toa) (y\<lparr>tx_active := True\<rparr>)"
    by (rule tx_came_move [OF l2]) (simp add: tx_move_def)
  have clear: "tx_came E m TxFault None (\<lambda>n. tx_exn n = e) (z\<lparr>tx_active := False\<rparr>)"
    if "tx_came E m (TxClear True) None (\<lambda>n. tx_exn n = e) z" for e z
    by (rule tx_came_move [OF that]) (simp add: tx_move_def)
  have fin: "tx_came E m TxQueue None (\<lambda>_. True) (z\<lparr>tx_active := False\<rparr>)" if "tx_came E m (TxClear False) None (\<lambda>_. True) z" for z
    by (rule tx_came_move [OF that]) (simp add: tx_move_def)
  have rx: "wp (radio_start_rx E) (\<lambda>_. tx_came E m (TxClear False) None (\<lambda>_. True)) (\<lambda>e. tx_came E m (TxClear True) None (\<lambda>n. tx_exn n = e))
      (z\<lparr>txb := txb z + length (fst pkt)\<rparr>)" if "tx_came E m (TxSend 0) None (holds_packet pkt [] toa) z" for z
  proof -
    have s1: "tx_came E m TxLockRx None (\<lambda>_. True) (z\<lparr>txb := txb z + length (fst pkt)\<rparr>)"
      by (rule tx_came_move [OF that]) (simp add: tx_move_def)
    have s2: "tx_came E m TxStartRx (Some Tx) (\<lambda>_. True) (z\<lparr>txb := txb z + length (fst pkt)\<rparr>)"
      by (rule tx_came_move [OF s1]) (simp add: tx_move_def)
    have "wp (radio_start_rx E) (\<lambda>v x. True \<and> tx_came E m (TxClear False) None (\<lambda>_. True) x)
        (\<lambda>e. tx_came E m (TxClear True) None (\<lambda>n. tx_exn n = e)) (z\<lparr>txb := txb z + length (fst pkt)\<rparr>)"
      by (rule tx_came_exec [OF s2], intro exI conjI) (auto simp: tx_move_def intro: wp_any)
    then show ?thesis by simp
  qed
  show ?thesis
    unfolding key_up_def wp_thenM wp_modM wp_try_finally
    by (rule wp_mono [OF wp_frames_solo [OF l3]]) (auto intro!: wp_mono [OF rx] fin clear)
qed

lemma keeps_settings_reserve: "keeps (\<lambda>x. settings_of x = st) (reserve_round E cfg toa q)"
proof -
  have "dev_free (\<lambda>x :: 'a iface. settings_of x = st)" by (simp add: dev_free_def)
  then show ?thesis
    unfolding reserve_round_def by (intro keeps_rules) (auto simp: keeps_wp wp_on_account intro!: wp_any)
qed

lemma wp_reserve_solo:
  assumes "tx_came E m (TxReserve n) None (holds_packet pkt frames toa) y"
  shows "wp (reserve_airtime E toa (snd pkt)) (\<lambda>granted. tx_came E m (if granted then TxLock n else TxQueue) None (holds_packet pkt frames toa))
     (\<lambda>e. tx_came E m TxFault None (\<lambda>n. tx_exn n = e)) y"
proof -
  let ?cfg = "st_duty (settings_of y)"
  let ?I = "\<lambda>z. tx_came E m (TxReserve n) None (holds_packet pkt frames toa) z \<and> settings_of z = settings_of y"
  have round: "wp (reserve_round E ?cfg toa (snd pkt)) (\<lambda>r x. case r of None \<Rightarrow> ?I x
        | Some g \<Rightarrow> tx_came E m (if g then TxLock n else TxQueue) None (holds_packet pkt frames toa) x)
      (\<lambda>e. tx_came E m TxFault None (\<lambda>n. tx_exn n = e)) z" if z: "?I z" for z
  proof -
    let ?code = "bindM (getM (st_duty \<circ> settings_of)) (\<lambda>cfg. reserve_round E cfg toa (snd pkt))"
    have k: "wp ?code (\<lambda>_ x. settings_of x = settings_of y) (\<lambda>_ _. True) z"
      using keeps_settings_reserve [of "settings_of y" E ?cfg toa "snd pkt"] z by (auto simp: keeps_wp elim!: wp_mono)
    have "wp ?code (\<lambda>r x. settings_of x = settings_of y \<and> tx_came E m (case r of None \<Rightarrow> TxReserve n | Some g \<Rightarrow> if g then TxLock n else TxQueue)
        None (holds_packet pkt frames toa) x) (\<lambda>e. tx_came E m TxFault None (\<lambda>n. tx_exn n = e)) z"
      by (rule tx_came_exec [OF conjunct1 [OF z] _ k], intro exI conjI)
        (auto simp: tx_move_def tx_reserved_def tx_raise_def split: option.split bool.split)
    then show ?thesis using z by (auto elim!: wp_mono split: option.split)
  qed
  show ?thesis
    unfolding thread_pieces(2) wp_bindM wp_getM comp_def
    by (rule wp_loopM [where I = ?I]) (use assms round in \<open>auto\<close>)
qed

text \<open>Taking the packet inside or outside the \<open>try\<close> makes no difference: \<open>popleft\<close> does not fail.\<close>

lemma tx_item_pieces:
  "tx_item E = try_except (thenM (bindM (take_packet E) (\<lambda>(pkt, frames, toa). bindM (reserve_airtime E toa (snd pkt)) (\<lambda>granted.
     if granted then key_up E (fst pkt) frames toa else ret ()))) (ret None)) tx_except"
proof (rule ext)
  fix s :: "'a iface"
  obtain data q where h: "hd (tx_queue s) = (data, q)" by (cases "hd (tx_queue s)")
  show "tx_item E s = try_except (thenM (bindM (take_packet E) (\<lambda>(pkt, frames, toa). bindM (reserve_airtime E toa (snd pkt)) (\<lambda>granted.
     if granted then key_up E (fst pkt) frames toa else ret ()))) (ret None)) tx_except s"
    unfolding tx_item_def transmit_def take_packet_def tx_except_def [abs_def]
    by (simp add: bindM_def thenM_def try_except_def getM_def modM_def ret_def h split: option.split sum.split)
qed

lemma solo_tx:
  assumes "txp m = TxQueue" "holder m = None" "running (obj m)" "tx_queue (obj m) \<noteq> []"
  shows "wp (tx_item E) (\<lambda>r. tx_came E m (if r = None then TxQueue else TxDone) None (\<lambda>_. True))
     (\<lambda>_. tx_came E m TxDone None (\<lambda>_. True)) (obj m)"
proof -
  have here: "tx_came E m TxQueue None (\<lambda>_. True) (obj m)"
    unfolding tx_came_def by (rule exI [of _ m]) (use assms in simp)
  have "wp (take_packet E) (\<lambda>v x. True \<and> tx_came E m (TxReserve (length (fst (snd v)))) None (holds_packet (fst v) (fst (snd v)) (snd (snd v))) x)
      (\<lambda>e. tx_came E m TxFault None (\<lambda>n. tx_exn n = e)) (obj m)"
    by (rule tx_came_exec [OF here], intro exI conjI)
      (use assms in \<open>auto simp: tx_move_def tx_raise_def intro: wp_any\<close>)
  then have take: "wp (take_packet E) (\<lambda>(pkt, frames, toa). tx_came E m (TxReserve (length frames)) None (holds_packet pkt frames toa))
      (\<lambda>e. tx_came E m TxFault None (\<lambda>n. tx_exn n = e)) (obj m)" by (rule wp_mono) (auto split: prod.split)
  have sent: "wp (bindM (reserve_airtime E toa (snd pkt)) (\<lambda>g. if g then key_up E (fst pkt) frames toa else ret ()))
      (\<lambda>_. tx_came E m TxQueue None (\<lambda>_. True)) (\<lambda>e. tx_came E m TxFault None (\<lambda>n. tx_exn n = e)) y"
    if "tx_came E m (TxReserve (length frames)) None (holds_packet pkt frames toa) y" for pkt frames toa y
    unfolding wp_bindM
    by (rule wp_mono [OF wp_reserve_solo [OF that]])
      (auto intro: wp_key_up_solo tx_came_any split: if_splits)
  have handler: "wp (tx_except e) (\<lambda>r. tx_came E m (if r = None then TxQueue else TxDone) None (\<lambda>_. True))
      (\<lambda>_. tx_came E m TxDone None (\<lambda>_. True)) y" if "tx_came E m TxFault None (\<lambda>n. tx_exn n = e) y" for e y
  proof -
    have "wp (tx_except e) (\<lambda>r x. True \<and> tx_came E m (if r = None then TxQueue else TxDone) None (\<lambda>_. True) x)
      (\<lambda>_. tx_came E m TxDone None (\<lambda>_. True)) y"
      by (rule tx_came_exec [OF that], intro exI conjI) (auto simp: tx_move_def intro: wp_any)
    then show ?thesis by simp
  qed
  have sent_on: "wp (reserve_airtime E toa q) (\<lambda>g. wp (if g then key_up E data frames toa else ret ()) (\<lambda>_. tx_came E m TxQueue None (\<lambda>_. True))
        (\<lambda>e. wp (tx_except e) (\<lambda>r. tx_came E m (if r = None then TxQueue else TxDone) None (\<lambda>_. True)) (\<lambda>_. tx_came E m TxDone None (\<lambda>_. True))))
      (\<lambda>e. wp (tx_except e) (\<lambda>r. tx_came E m (if r = None then TxQueue else TxDone) None (\<lambda>_. True)) (\<lambda>_. tx_came E m TxDone None (\<lambda>_. True))) y"
    if "tx_came E m (TxReserve (length frames)) None (holds_packet (data, q) frames toa) y" for data q frames toa y
    by (rule wp_mono [OF sent [OF that, unfolded wp_bindM fst_conv snd_conv]]) (auto intro: handler elim!: wp_mono)
  show ?thesis
    unfolding tx_item_pieces wp_try_except wp_thenM wp_bindM wp_ret
    by (rule wp_mono [OF take]) (auto intro!: handler sent_on split: prod.splits)
qed


section \<open>Witnesses\<close>

lemma boot_fields [simp]:
  "obj (boot x) = x" "rxp (boot x) = RxTop" "txp (boot x) = TxTop" "holder (boot x) = None" "grants (boot x) = []"
  by (simp_all add: boot_def)

lemma bench_runs [simp]: "running (bench_iface st)"
  by (simp add: bench_iface_def)

lemma bench_to_poll:
  "\<exists>m. play (rns_bench heard_reply (Some True)) (replicate 5 (Move Rx)) (boot (bench_iface bench_settings)) = Some m \<and> rxp m = RxPoll"
  by (simp add: eval_nat_numeral act_def rx_move_def exec_def wait_irq_def rns_bench_def py_defs)

theorem machine_polls_alone_witness:
  "\<exists>m. play (rns_bench heard_reply (Some True)) (replicate 5 (Move Rx)) (boot (bench_iface bench_settings)) = Some m \<and> rxp m = RxPoll \<and>
     \<not> tx_active (obj m) \<and> holder m = Some Rx"
  using bench_to_poll machine_polls_alone [of "rns_bench heard_reply (Some True)" "replicate 5 (Move Rx)" "bench_iface bench_settings"]
  by fastforce


lemma bench_queued:
  "\<exists>m. play air_platform [Submit [1, 2, 3], Move Rx, Move Tx] (boot (bench_iface bench_settings)) = Some m \<and>
     obj m = (bench_iface bench_settings)\<lparr>tx_queue := [([1, 2, 3], 1000000)]\<rparr> \<and> txp m = TxQueue \<and> holder m = None"
  by (simp add: act_def rx_move_def tx_move_def exec_def process_outgoing_def wait_event_def air_platform_def rns_bench_def py_defs
    timeM_def MAX_QUEUE_PACKETS_def bench_settings_def) (simp add: bench_iface_def bench_settings_def)

lemma bench_tx_item:
  "\<exists>x. tx_item air_platform ((bench_iface bench_settings)\<lparr>tx_queue := [([1, 2, 3], 1000000)]\<rparr>) = Some (Inr None, x) \<and> bus_trace x \<noteq> []"
proof -
  obtain x where x: "transmit air_platform [1, 2, 3] 1000000 (bench_iface bench_settings) = Some (Inr (), x)" "bus_trace x \<noteq> []"
    using bench_transmit by blast
  have e: "(bench_iface bench_settings)\<lparr>tx_queue := []\<rparr> = bench_iface bench_settings" by (simp add: bench_iface_def)
  have "transmit air_platform [1, 2, 3] 1000000 ((bench_iface bench_settings)\<lparr>tx_queue := []\<rparr>) = Some (Inr (), x)"
    unfolding e by (rule x(1))
  with x(2) show ?thesis by (simp add: tx_item_def bindM_def thenM_def try_except_def getM_def modM_def ret_def)
qed

text \<open>A packet is submitted, the receive thread looks at the flag, then the transmit thread sends it.\<close>

theorem interleaved_transmissions_charged_witness:
  "\<exists>k m. play air_platform ([Submit [1, 2, 3], Move Rx, Move Tx] @ replicate k (Move Tx)) (boot (bench_iface bench_settings)) = Some m \<and>
     bus_trace (obj m) \<noteq> [] \<and> (\<forall>g \<in> set (grants m). charged_grant air_platform bench_settings g) \<and>
     (\<exists>ls. loaded SX127x (payloads (bus_trace (obj m))) = concat ls \<and> list_all2 prefix ls (map frames_granted (grants m)))"
proof -
  obtain m where m: "play air_platform [Submit [1, 2, 3], Move Rx, Move Tx] (boot (bench_iface bench_settings)) = Some m"
    "obj m = (bench_iface bench_settings)\<lparr>tx_queue := [([1, 2, 3], 1000000)]\<rparr>" "txp m = TxQueue" "holder m = None" using bench_queued by blast
  obtain x where x: "tx_item air_platform (obj m) = Some (Inr None, x)" "bus_trace x \<noteq> []" using bench_tx_item m(2) by auto
  have "tx_came air_platform m TxQueue None (\<lambda>_. True) x"
    using wpD(1) [OF solo_tx [OF m(3,4)] x(1)] m(2) by simp
  then obtain k n where n: "play air_platform (replicate k (Move Tx)) m = Some n" "obj n = x" by (auto simp: tx_came_def solo_def)
  then have p: "play air_platform ([Submit [1, 2, 3], Move Rx, Move Tx] @ replicate k (Move Tx)) (boot (bench_iface bench_settings)) = Some n"
    unfolding play_append m(1) by simp
  from interleaved_transmissions_charged [OF p ready_bench] have
    "\<forall>g \<in> set (grants n). charged_grant air_platform bench_settings g"
    "\<exists>ls. loaded SX127x (payloads (bus_trace (obj n))) = concat ls \<and> list_all2 prefix ls (map frames_granted (grants n))" by simp_all
  with p n(2) x(2) show ?thesis by blast
qed

end
