(* ===== verification/Location.thy ===== *)
theory Location
  imports Ledger
begin

text \<open>
  The Sideband telemetry plugin \<open>plugins/lhpc_location.py\<close>: its configuration file, the NMEA and gpsd
  readers, the fixed position, and what it writes into Sideband's location sensor. The socket, the
  serial device, \<open>termios\<close>, the JSON decoder of a line and Sideband's \<open>synthesize\<close> are parameters.
  Text is over code points 0 to 255, so the replacement character of an undecodable byte is
  outside the model.
\<close>

section \<open>Configuration\<close>

type_synonym conf = "string \<rightharpoonup> string"

definition DEFAULTS :: conf where
  "DEFAULTS = map_of [(''location_source'', ''gpsd''), (''gpsd_host'', ''127.0.0.1''), (''gpsd_port'', ''2947''),
     (''nmea_device'', ''/dev/ttyACM0''), (''nmea_baud'', ''9600''), (''fixed_lat'', ''''), (''fixed_lon'', ''''),
     (''fixed_alt'', ''''), (''max_age'', ''30'')]"

definition conf_line :: "string \<Rightarrow> conf \<Rightarrow> conf" where
  "conf_line raw c = (let line = strip raw in
     if line = [] \<or> startswith line ''#'' \<or> CHR ''='' \<notin> set line then c
     else case partition_at (CHR ''='') line of (key, val) \<Rightarrow> c(strip key \<mapsto> strip val))"

definition load_conf :: "string \<Rightarrow> (string \<Rightarrow> text_file) \<Rightarrow> exn + conf" where
  "load_conf path files = (if path = [] then Inr DEFAULTS else (case files path of
       None \<Rightarrow> Inr DEFAULTS
     | Some (ls, err) \<Rightarrow> (case err of
           None \<Rightarrow> Inr (fold conf_line ls DEFAULTS)
         | Some e \<Rightarrow> if is_OSError e then Inr (fold conf_line ls DEFAULTS) else Inl e)))"

definition conf_item :: "conf \<Rightarrow> string \<Rightarrow> exn + string" where
  "conf_item c k = (case c k of None \<Rightarrow> Inl KeyError | Some v \<Rightarrow> Inr v)"

section \<open>Numbers and positions\<close>

text \<open>\<open>_f\<close> of a text, and of a JSON value: an integer beyond the floats raises.\<close>

definition f_str :: "string \<Rightarrow> pyfloat option" where
  "f_str s = py_float_str s"

definition f_json :: "json \<Rightarrow> exn + pyfloat option" where
  "f_json v = (case json_float v of Inr x \<Rightarrow> Inr (Some x)
     | Inl e \<Rightarrow> if e = TypeError \<or> is_ValueError e then Inr None else Inl e)"

text \<open>\<open>_f(s) or d\<close>: neither None nor zero.\<close>

definition float_or :: "string \<Rightarrow> real \<Rightarrow> pyfloat" where
  "float_or s d = (case f_str s of None \<Rightarrow> Fin d | Some x \<Rightarrow> if x = Fin 0 then Fin d else x)"

definition valid_position :: "pyfloat option \<Rightarrow> pyfloat option \<Rightarrow> bool" where
  "valid_position lat lon = (case (lat, lon) of
       (Some a, Some b) \<Rightarrow> isfinite a \<and> isfinite b \<and> Fin (- 90) \<le> a \<and> a \<le> Fin 90 \<and> Fin (- 180) \<le> b \<and> b \<le> Fin 180
     | _ \<Rightarrow> False)"

text \<open>\<open>x * k\<close> of a float.\<close>

definition scaled :: "real \<Rightarrow> pyfloat \<Rightarrow> pyfloat" where
  "scaled k x = (case x of Fin r \<Rightarrow> fl (r * k) | _ \<Rightarrow> x)"

definition nmea_checksum_ok :: "string \<Rightarrow> bool" where
  "nmea_checksum_ok raw = (let line = strip raw in
     if \<not> startswith line ''$'' \<or> CHR ''*'' \<notin> set line then False
     else case rpartition_at (CHR ''*'') (drop 1 line) of (body, rest) \<Rightarrow>
       let given = take 2 (strip rest) in
       if length given \<noteq> 2 then False
       else let check = fold (\<lambda>ch c. c XOR int (code ch)) body 0
            in (case py_int_str given 16 of None \<Rightarrow> False | Some v \<Rightarrow> check = v))"

text \<open>\<open>ddmm.mmmm\<close> to degrees; \<open>int(raw / 100)\<close> raises on the infinities and on NaN.\<close>

definition dm_to_deg :: "string \<Rightarrow> string \<Rightarrow> exn + pyfloat option" where
  "dm_to_deg value hemi = (case f_str value of None \<Rightarrow> Inr None | Some raw \<Rightarrow> (case raw of
       Fin r \<Rightarrow> (let degrees = Py_Text.truncate (r / 100); deg = of_int degrees + (r - of_int degrees * 100) / 60
                in Inr (Some (Fin (if hemi \<in> {''S'', ''W''} then - deg else deg))))
     | NaN \<Rightarrow> Inl (ValueError ''int'')
     | _ \<Rightarrow> Inl OverflowError))"

section \<open>Sources\<close>

record gps_fix =
  f_lat :: pyfloat
  f_lon :: pyfloat
  f_alt :: "pyfloat option"
  f_speed :: "pyfloat option"
  f_bearing :: "pyfloat option"
  f_accuracy :: "pyfloat option"
  f_at :: real

text \<open>The settings of a serial line, with Linux's values of the constants used.\<close>

record attrs =
  iflag :: int
  oflag :: int
  cflag :: int
  lflag :: int
  ispeed :: int
  ospeed :: int
  cc :: "int list"

record 'd loc_platform = "'d platform" +
  stop_p :: "'d \<Rightarrow> bool \<times> 'd"
  connect_p :: "string \<Rightarrow> int \<Rightarrow> 'd \<Rightarrow> exn option \<times> 'd"
  sendall_p :: "'d \<Rightarrow> exn option \<times> 'd"
  recv_p :: "'d \<Rightarrow> (exn + byte list) \<times> 'd"
  json_loads_p :: "byte list \<Rightarrow> exn + json"
  open_dev_p :: "string \<Rightarrow> 'd \<Rightarrow> exn option \<times> 'd"
  readline_p :: "'d \<Rightarrow> (exn + string) \<times> 'd"
  tcgetattr_p :: "'d \<Rightarrow> attrs option \<times> 'd"
  tcsetattr_p :: "attrs \<Rightarrow> 'd \<Rightarrow> exn option \<times> 'd"

text \<open>
  The object state of a source: \<open>s_buf\<close> is the local buffer of the gpsd reader and
  \<open>conn_open\<close> says whether the socket or device is open.
\<close>

record 'd source = "'d world" +
  s_conf :: conf
  s_fix :: "gps_fix option"
  s_run :: bool
  s_buf :: "byte list"
  conn_open :: bool

text \<open>\<open>self._run\<close>, which \<open>stop\<close> may have cleared from the plugin's thread since the last look.\<close>

definition runM :: "('d, 'y) loc_platform_scheme \<Rightarrow> (('d, 'z) source_scheme, bool) py" where
  "runM E = bindM (askM (stop_p E)) (\<lambda>stopped.
     thenM (if stopped then modM (\<lambda>s. s\<lparr>s_run := False\<rparr>) else ret ()) (getM s_run))"

definition set_fix :: "('d, 'y) platform_scheme \<Rightarrow> pyfloat \<Rightarrow> pyfloat \<Rightarrow> pyfloat option \<Rightarrow> pyfloat option \<Rightarrow> pyfloat option \<Rightarrow>
    pyfloat option \<Rightarrow> (('d, 'z) source_scheme, unit) py" where
  "set_fix E lat lon alt speed bearing accuracy = bindM (timeM E) (\<lambda>now. modM (\<lambda>s. s\<lparr>s_fix := Some \<lparr>f_lat = lat, f_lon = lon,
     f_alt = alt, f_speed = speed, f_bearing = bearing, f_accuracy = accuracy, f_at = now\<rparr>\<rparr>))"

text \<open>\<open>with\<close> the open socket or device.\<close>

definition with_conn :: "(('d, 'z) source_scheme, 'a) py \<Rightarrow> (('d, 'z) source_scheme, 'a) py" where
  "with_conn m = thenM (modM (\<lambda>s. s\<lparr>conn_open := True\<rparr>)) (try_finally m (modM (\<lambda>s. s\<lparr>conn_open := False\<rparr>)))"

subsection \<open>gpsd\<close>

definition jfield :: "(string \<times> json) list \<Rightarrow> string \<Rightarrow> json" where
  "jfield kvs k = (case jget kvs k of None \<Rightarrow> JNull | Some v \<Rightarrow> v)"

definition gpsd_tpv :: "('d, 'y) platform_scheme \<Rightarrow> (string \<times> json) list \<Rightarrow> (('d, 'z) source_scheme, unit) py" where
  "gpsd_tpv E kvs = bindM (ofE (f_json (jfield kvs ''lat''))) (\<lambda>lat. bindM (ofE (f_json (jfield kvs ''lon''))) (\<lambda>lon.
     if \<not> valid_position lat lon then ret ()
     else bindM (ofE (f_json (jfield kvs ''speed''))) (\<lambda>spd. bindM (ofE (f_json (jfield kvs ''alt''))) (\<lambda>alt.
       bindM (ofE (f_json (jfield kvs ''track''))) (\<lambda>track. bindM (ofE (f_json (jfield kvs ''eph''))) (\<lambda>eph.
         set_fix E (the lat) (the lon) alt (map_option (scaled 3.6) spd) track eph))))))"

text \<open>A document that is no object has no \<open>get\<close>: \<open>AttributeError\<close>.\<close>

definition gpsd_message :: "('d, 'y) platform_scheme \<Rightarrow> json \<Rightarrow> (('d, 'z) source_scheme, unit) py" where
  "gpsd_message E msg = (case msg of
       JObj kvs \<Rightarrow> if jget kvs ''class'' \<noteq> Some (JStr ''TPV'') then ret () else gpsd_tpv E kvs
     | _ \<Rightarrow> raise OtherError)"

definition gpsd_line :: "('d, 'y) loc_platform_scheme \<Rightarrow> byte list \<Rightarrow> (('d, 'z) source_scheme, unit) py" where
  "gpsd_line E line = (case json_loads_p E line of
       Inr msg \<Rightarrow> gpsd_message E msg
     | Inl e \<Rightarrow> if is_ValueError e then ret () else raise e)"

lemma drop_line_shorter: "(x :: 'a) \<in> set buf \<Longrightarrow> length (drop 1 (dropWhile (\<lambda>b. b \<noteq> x) buf)) < length buf"
  by (induction buf) (auto simp: less_Suc_eq_le)

function gpsd_drain :: "('d, 'y) loc_platform_scheme \<Rightarrow> byte list \<Rightarrow> (('d, 'z) source_scheme, byte list) py" where
  "gpsd_drain E buf = (if 10 \<in> set buf
     then thenM (gpsd_line E (takeWhile (\<lambda>b. b \<noteq> 10) buf)) (gpsd_drain E (drop 1 (dropWhile (\<lambda>b. b \<noteq> 10) buf)))
     else ret buf)"
  by pat_completeness auto
termination
  by (relation "measure (length \<circ> snd)") (use drop_line_shorter in auto)

declare gpsd_drain.simps [simp del]

definition gpsd_round :: "('d, 'y) loc_platform_scheme \<Rightarrow> (('d, 'z) source_scheme, unit option) py" where
  "gpsd_round E = bindM (runM E) (\<lambda>r. if \<not> r then ret (Some ()) else bindM (askE (recv_p E)) (\<lambda>chunk.
     if chunk = [] then ret (Some ()) else bindM (getM s_buf) (\<lambda>buf. bindM (gpsd_drain E (buf @ chunk)) (\<lambda>rest.
       thenM (modM (\<lambda>s. s\<lparr>s_buf := rest\<rparr>)) (ret None)))))"

definition gpsd_port :: "conf \<Rightarrow> exn + int" where
  "gpsd_port c = bindE (conf_item c ''gpsd_port'') (\<lambda>v. case float_or v 2947 of
       Fin r \<Rightarrow> Inr (Py_Text.truncate r) | NaN \<Rightarrow> Inl (ValueError ''int'') | _ \<Rightarrow> Inl OverflowError)"

definition gpsd_read_once :: "('d, 'y) loc_platform_scheme \<Rightarrow> (('d, 'z) source_scheme, unit) py" where
  "gpsd_read_once E = bindM (getM s_conf) (\<lambda>c. bindM (ofE (conf_item c ''gpsd_host'')) (\<lambda>host. bindM (ofE (gpsd_port c)) (\<lambda>port.
     thenM (callM (connect_p E host port)) (with_conn (thenM (callM (sendall_p E))
       (thenM (modM (\<lambda>s. s\<lparr>s_buf := []\<rparr>)) (loopM (gpsd_round E))))))))"

subsection \<open>NMEA\<close>

definition last3 :: "string \<Rightarrow> string" where
  "last3 s = drop (length s - 3) s"

definition nmea_gga :: "('d, 'y) platform_scheme \<Rightarrow> string list \<Rightarrow> (('d, 'z) source_scheme, unit) py" where
  "nmea_gga E parts = (if parts ! 6 \<in> {'''', ''0''} then ret ()
     else bindM (ofE (dm_to_deg (parts ! 2) (parts ! 3))) (\<lambda>lat. bindM (ofE (dm_to_deg (parts ! 4) (parts ! 5))) (\<lambda>lon.
       if valid_position lat lon then set_fix E (the lat) (the lon) (f_str (parts ! 9)) None None None else ret ())))"

definition nmea_rmc :: "('d, 'y) platform_scheme \<Rightarrow> string list \<Rightarrow> (('d, 'z) source_scheme, unit) py" where
  "nmea_rmc E parts =
     bindM (ofE (dm_to_deg (parts ! 3) (parts ! 4))) (\<lambda>lat. bindM (ofE (dm_to_deg (parts ! 5) (parts ! 6))) (\<lambda>lon.
       if valid_position lat lon
       then set_fix E (the lat) (the lon) None (map_option (scaled 1.852) (f_str (parts ! 7))) (f_str (parts ! 8)) None
       else ret ()))"

definition nmea_parts :: "('d, 'y) platform_scheme \<Rightarrow> string list \<Rightarrow> (('d, 'z) source_scheme, unit) py" where
  "nmea_parts E parts = (if last3 (parts ! 0) = ''GGA'' \<and> length parts > 9 then nmea_gga E parts
     else if length parts > 8 \<and> parts ! 2 = ''A'' then nmea_rmc E parts else ret ())"

definition nmea_sentence :: "('d, 'y) platform_scheme \<Rightarrow> string \<Rightarrow> (('d, 'z) source_scheme, unit) py" where
  "nmea_sentence E line = (if \<not> nmea_checksum_ok line then ret ()
     else let parts = split_at (CHR '','') (strip line) in
       if parts = [] \<or> last3 (parts ! 0) \<notin> {''GGA'', ''RMC''} then ret ()
       else try_except (nmea_parts E parts) (\<lambda>e. if e = IndexError \<or> is_ValueError e then ret () else raise e))"

definition nmea_round :: "('d, 'y) loc_platform_scheme \<Rightarrow> (('d, 'z) source_scheme, unit option) py" where
  "nmea_round E = bindM (runM E) (\<lambda>r. if \<not> r then ret (Some ()) else bindM (askE (readline_p E)) (\<lambda>line.
     thenM (if line = [] then sleepM E 0.5 else nmea_sentence E line) (ret None)))"

text \<open>The attributes \<open>B<baud>\<close> of \<open>termios\<close>.\<close>

definition BAUD_RATES :: "(int \<times> int) list" where
  "BAUD_RATES = zip [0, 50, 75, 110, 134, 150, 200, 300, 600, 1200, 1800, 2400, 4800, 9600, 19200, 38400] [0..15]
     @ zip [57600, 115200, 230400, 460800, 500000, 576000, 921600, 1000000, 1152000, 1500000, 2000000, 2500000, 3000000,
            3500000, 4000000] [4097..4111]"

text \<open>
  Input: \<open>IXON\<close> 0x400, \<open>IXOFF\<close> 0x1000, \<open>IXANY\<close> 0x800, \<open>INLCR\<close> 0x40, \<open>IGNCR\<close> 0x80, \<open>ISTRIP\<close> 0x20,
  \<open>BRKINT\<close> 0x2; output: \<open>OPOST\<close> 0x1; local: \<open>ECHO\<close> 0x8, \<open>ECHOE\<close> 0x10, \<open>ECHONL\<close> 0x40, \<open>ICANON\<close> 0x2,
  \<open>ISIG\<close> 0x1, \<open>IEXTEN\<close> 0x8000; control: \<open>CSIZE\<close> and \<open>CS8\<close> 0x30, \<open>PARENB\<close> 0x100, \<open>CSTOPB\<close> 0x40,
  \<open>CRTSCTS\<close> 0x80000000, \<open>CREAD\<close> 0x80, \<open>CLOCAL\<close> 0x800; \<open>VMIN\<close> is index 6 and \<open>VTIME\<close> index 5.
\<close>

definition raw_mode :: "int \<Rightarrow> attrs \<Rightarrow> attrs" where
  "raw_mode speed a = a\<lparr>
     iflag := iflag a AND NOT (0x400 OR 0x1000 OR 0x800 OR 0x40 OR 0x80 OR 0x20 OR 0x2),
     oflag := oflag a AND NOT 0x1,
     lflag := lflag a AND NOT (0x8 OR 0x10 OR 0x40 OR 0x2 OR 0x1 OR 0x8000),
     cflag := (cflag a AND NOT (0x30 OR 0x100 OR 0x40 OR 0x80000000)) OR (0x30 OR 0x80 OR 0x800),
     cc := (cc a)[6 := 0, 5 := 10], ispeed := speed, ospeed := speed\<rparr>"

definition configure_port :: "('d, 'y) loc_platform_scheme \<Rightarrow> string \<Rightarrow> (('d, 'z) source_scheme, unit) py" where
  "configure_port E baud = (case py_int_str baud 10 of None \<Rightarrow> raise (ValueError ''int'')
     | Some b \<Rightarrow> (case map_of BAUD_RATES b of None \<Rightarrow> raise (ValueError ''unsupported nmea_baud'')
       | Some speed \<Rightarrow> bindM (askM (tcgetattr_p E)) (\<lambda>a. case a of None \<Rightarrow> ret ()
           | Some a \<Rightarrow> callM (tcsetattr_p E (raw_mode speed a)))))"

definition nmea_read_once :: "('d, 'y) loc_platform_scheme \<Rightarrow> (('d, 'z) source_scheme, unit) py" where
  "nmea_read_once E = bindM (getM s_conf) (\<lambda>c. bindM (ofE (conf_item c ''nmea_device'')) (\<lambda>path.
     thenM (callM (open_dev_p E path)) (with_conn (bindM (ofE (conf_item c ''nmea_baud'')) (\<lambda>baud.
       thenM (configure_port E baud) (loopM (nmea_round E)))))))"

subsection \<open>The three kinds of source\<close>

datatype source_kind = GpsdSource | NmeaSource | FixedSource

definition make_source :: "conf \<Rightarrow> source_kind option" where
  "make_source c = (let v = (case c ''location_source'' of None \<Rightarrow> '''' | Some v \<Rightarrow> v);
       kind = lower (strip (if v = [] then ''off'' else v))
     in if kind = ''gpsd'' then Some GpsdSource else if kind = ''nmea'' then Some NmeaSource
        else if kind = ''fixed'' then Some FixedSource else None)"

definition read_once :: "('d, 'y) loc_platform_scheme \<Rightarrow> source_kind \<Rightarrow> (('d, 'z) source_scheme, unit) py" where
  "read_once E k = (case k of GpsdSource \<Rightarrow> gpsd_read_once E | NmeaSource \<Rightarrow> nmea_read_once E | FixedSource \<Rightarrow> sleepM E 1)"

definition source_loop :: "('d, 'y) loc_platform_scheme \<Rightarrow> source_kind \<Rightarrow> (('d, 'z) source_scheme, unit) py" where
  "source_loop E k = loopM (bindM (runM E) (\<lambda>r. if \<not> r then ret (Some ())
     else thenM (try_except (read_once E k) (\<lambda>e. if is_Exception e then sleepM E 2 else raise e)) (ret None)))"

definition source_init :: "('d, 'y) platform_scheme \<Rightarrow> source_kind \<Rightarrow> conf \<Rightarrow> (('d, 'z) source_scheme, unit) py" where
  "source_init E k c = (case k of
       FixedSource \<Rightarrow> bindM (ofE (bindE (conf_item c ''fixed_lat'') (\<lambda>a. bindE (conf_item c ''fixed_lon'') (\<lambda>b. Inr (f_str a, f_str b)))))
         (\<lambda>(lat, lon). thenM (if valid_position lat lon
            then bindM (ofE (conf_item c ''fixed_alt'')) (\<lambda>h. set_fix E (the lat) (the lon) (f_str h) None None None)
            else modM (\<lambda>s. s\<lparr>s_fix := None\<rparr>))
          (modM (\<lambda>s. s\<lparr>s_conf := c, s_run := False\<rparr>)))
     | _ \<Rightarrow> modM (\<lambda>s. s\<lparr>s_conf := c, s_fix := None, s_run := True\<rparr>))"

definition current_fixed :: "('d, 'y) platform_scheme \<Rightarrow> (('d, 'z) source_scheme, gps_fix option) py" where
  "current_fixed E = bindM (getM s_fix) (\<lambda>f. case f of None \<Rightarrow> ret None
     | Some f \<Rightarrow> bindM (timeM E) (\<lambda>now. thenM (modM (\<lambda>s. s\<lparr>s_fix := Some (f\<lparr>f_at := now\<rparr>)\<rparr>)) (ret (Some (f\<lparr>f_at := now\<rparr>)))))"

definition current_moving :: "('d, 'y) platform_scheme \<Rightarrow> (('d, 'z) source_scheme, gps_fix option) py" where
  "current_moving E = bindM (getM s_fix) (\<lambda>f. bindM (getM s_conf) (\<lambda>c. bindM (ofE (conf_item c ''max_age'')) (\<lambda>age.
     case f of None \<Rightarrow> ret None
     | Some f \<Rightarrow> bindM (timeM E) (\<lambda>now. ret (if float_or age 30 < Fin (now - f_at f) then None else Some f)))))"

definition source_current :: "('d, 'y) platform_scheme \<Rightarrow> source_kind \<Rightarrow> (('d, 'z) source_scheme, gps_fix option) py" where
  "source_current E k = (case k of FixedSource \<Rightarrow> current_fixed E | _ \<Rightarrow> current_moving E)"

lemmas source_current_defs = source_current_def current_fixed_def current_moving_def

definition stop_moving :: "(('d, 'z) source_scheme, unit) py" where
  "stop_moving = modM (\<lambda>s. s\<lparr>s_run := False\<rparr>)"

definition source_stop :: "source_kind \<Rightarrow> (('d, 'z) source_scheme, unit) py" where
  "source_stop k = (case k of FixedSource \<Rightarrow> ret () | _ \<Rightarrow> stop_moving)"

lemmas source_stop_defs = source_stop_def stop_moving_def

section \<open>The plugin\<close>

text \<open>
  A sensor of Sideband's telemeter; \<open>update_time\<close> is what its \<open>set_update_time\<close> stores, which
  versions of Sideband without that method do not have.
\<close>

record sensor =
  latitude :: "pyfloat option"
  longitude :: "pyfloat option"
  altitude :: "pyfloat option"
  sn_speed :: "pyfloat option"
  sn_bearing :: "pyfloat option"
  sn_accuracy :: "pyfloat option"
  stale_time :: "pyfloat option"
  has_set_update_time :: bool
  update_time :: "real option"
  last_update :: "real option"

text \<open>\<open>src\<close> is the plugin's source, \<open>sensors\<close> the telemeter's dictionary.\<close>

record 'd plugin = "'d source" +
  src :: "source_kind option"
  sensors :: "string \<rightharpoonup> sensor"

definition plugin_start :: "('d, 'y) platform_scheme \<Rightarrow> string \<Rightarrow> (string \<Rightarrow> text_file) \<Rightarrow> ('d plugin, unit) py" where
  "plugin_start E path files = bindM (ofE (load_conf path files)) (\<lambda>c. thenM (modM (\<lambda>s. s\<lparr>s_conf := c\<rparr>))
     (case make_source c of None \<Rightarrow> modM (\<lambda>s. s\<lparr>src := None\<rparr>)
      | Some k \<Rightarrow> thenM (source_init E k c) (modM (\<lambda>s. s\<lparr>src := Some k\<rparr>))))"

definition plugin_stop :: "('d plugin, unit) py" where
  "plugin_stop = bindM (getM src) (\<lambda>k. case k of None \<Rightarrow> ret () | Some k \<Rightarrow> source_stop k)"

definition fill_sensor :: "gps_fix \<Rightarrow> pyfloat \<Rightarrow> sensor \<Rightarrow> sensor" where
  "fill_sensor f age sn = (let sn = sn\<lparr>latitude := Some (f_lat f), longitude := Some (f_lon f), altitude := f_alt f,
       sn_speed := f_speed f, sn_bearing := f_bearing f, sn_accuracy := f_accuracy f, stale_time := Some age\<rparr>
     in if has_set_update_time sn then sn\<lparr>update_time := Some (f_at f)\<rparr> else sn\<lparr>last_update := Some (f_at f)\<rparr>)"

text \<open>\<open>synthesize\<close> is the telemeter's method; \<open>None\<close> stands for a call without a telemeter.\<close>

definition update_telemetry :: "('d, 'y) platform_scheme \<Rightarrow> ((string \<rightharpoonup> sensor) \<Rightarrow> (string \<rightharpoonup> sensor)) option \<Rightarrow> ('d plugin, unit) py" where
  "update_telemetry E telemeter = bindM (getM src) (\<lambda>k. case (telemeter, k) of
       (Some synthesize, Some k) \<Rightarrow> bindM (source_current E k) (\<lambda>f. case f of
         None \<Rightarrow> modM (\<lambda>s. s\<lparr>sensors := (sensors s)(''location'' := None)\<rparr>)
       | Some f \<Rightarrow> thenM (modM (\<lambda>s. s\<lparr>sensors := synthesize (sensors s)\<rparr>))
           (bindM (getM (\<lambda>s. sensors s ''location'')) (\<lambda>sn. case sn of None \<Rightarrow> ret ()
             | Some sn \<Rightarrow> bindM (getM s_conf) (\<lambda>c. bindM (ofE (conf_item c ''max_age'')) (\<lambda>age.
                 modM (\<lambda>s. s\<lparr>sensors := (sensors s)(''location'' \<mapsto> fill_sensor f (float_or age 30) sn)\<rparr>))))))
     | _ \<Rightarrow> ret ())"

end
