(* ===== verification/Location_Properties.thy ===== *)
theory Location_Properties
  imports Location
begin

text \<open>
  What holds of the location plugin: corrupted NMEA sentences are ignored, a sentence is decoded
  to its coordinates, the gpsd reader does not depend on how the stream is cut into chunks, only a
  current position on the planet is published, and no fault of a source ends its reader.
\<close>

section \<open>Checksums\<close>

definition xor_codes :: "string \<Rightarrow> int" where
  "xor_codes body = fold (\<lambda>ch c. c XOR int (code ch)) body 0"

lemma fold_xor: "fold (\<lambda>ch c. c XOR int (code ch)) body (c :: int) = c XOR xor_codes body"
proof (induction body arbitrary: c)
  case (Cons x xs)
  show ?case
    using Cons [of "c XOR int (code x)"] Cons [of "0 XOR int (code x)"] by (simp add: xor_codes_def ac_simps)
qed (simp add: xor_codes_def)

lemma xor_codes_append: "xor_codes (xs @ ys) = xor_codes xs XOR xor_codes ys"
  by (simp add: xor_codes_def fold_xor [of ys "fold _ xs 0"])

lemma xor_codes_Cons: "xor_codes (x # xs) = int (code x) XOR xor_codes xs"
  using xor_codes_append [of "[x]" xs] by (simp add: xor_codes_def)

lemma xor_cancel: "a XOR b = a XOR c \<longleftrightarrow> b = (c :: int)"
  by (metis bit.xor_left_self)

lemma xor_codes_update:
  assumes "i < length body" "body ! i \<noteq> c"
  shows "xor_codes (body[i := c]) \<noteq> xor_codes body"
proof -
  let ?t = "take i body" and ?d = "drop (Suc i) body"
  have "body = ?t @ body ! i # ?d" using assms(1) by (rule id_take_nth_drop)
  then have b: "xor_codes body = xor_codes ?t XOR (int (code (body ! i)) XOR xor_codes ?d)"
    by (metis xor_codes_append xor_codes_Cons)
  have u: "xor_codes (body[i := c]) = xor_codes ?t XOR (int (code c) XOR xor_codes ?d)"
    by (simp add: upd_conv_take_nth_drop [OF assms(1)] xor_codes_append xor_codes_Cons)
  show ?thesis
    unfolding b u xor_cancel using assms(2) by (metis xor.commute xor_cancel code_inj of_nat_eq_iff)
qed

lemma xor_byte: "0 \<le> a \<Longrightarrow> a < 256 \<Longrightarrow> 0 \<le> b \<Longrightarrow> b < 256 \<Longrightarrow> 0 \<le> a XOR b \<and> a XOR b < (256 :: int)"
  using XOR_upper [of a 8 b] by simp

lemma xor_codes_range: "0 \<le> xor_codes s \<and> xor_codes s < 256"
proof (induction s)
  case (Cons x xs)
  with code_less [of x] show ?case unfolding xor_codes_Cons by (intro xor_byte) auto
qed (simp add: xor_codes_def)

text \<open>The sentence a receiver sends: \<open>$\<close>, the body, \<open>*\<close> and the checksum in two hexadecimal digits.\<close>

definition hex2 :: "int \<Rightarrow> string" where
  "hex2 v = [hex_char (nat v div 16), hex_char (nat v mod 16)]"

definition sentence :: "string \<Rightarrow> int \<Rightarrow> string" where
  "sentence body v = CHR ''$'' # body @ CHR ''*'' # hex2 v"

lemma strip_ends: "\<not> p x \<Longrightarrow> \<not> p y \<Longrightarrow> strip_by p (x # xs @ [y]) = x # xs @ [y]"
  by (simp add: strip_by_def)

lemma strip_sentence: "0 \<le> v \<Longrightarrow> v < 256 \<Longrightarrow> strip (sentence body v) = sentence body v"
  using strip_ends [of is_space "CHR ''$''" "hex_char (nat v mod 16)" "body @ CHR ''*'' # [hex_char (nat v div 16)]"]
  by (simp add: strip_def sentence_def hex2_def hex_not_space, simp add: is_space_def code_def)

lemma hex2_facts:
  assumes "0 \<le> v" "v < 256"
  shows "strip (hex2 v) = hex2 v" "length (hex2 v) = 2" "py_int_str (hex2 v) 16 = Some v" "CHR ''*'' \<notin> set (hex2 v)"
proof -
  have h: "nat v div 16 < 16" "nat v mod 16 < 16" using assms by (auto simp: less_mult_imp_div_less)
  show s: "strip (hex2 v) = hex2 v"
    using strip_ends [of is_space "hex_char (nat v div 16)" "hex_char (nat v mod 16)" "[]"] h
    by (simp add: strip_def hex2_def hex_not_space)
  show "length (hex2 v) = 2" by (simp add: hex2_def)
  show "CHR ''*'' \<notin> set (hex2 v)"
    using hex_char_neqI [OF h(1), of "CHR ''*''"] hex_char_neqI [OF h(2), of "CHR ''*''"] by (auto simp: hex2_def code_def)
  have sg: "take_sign (hex2 v) = (1, hex2 v)"
    using hex_char_neqI [OF h(1), of "CHR ''-''"] hex_char_neqI [OF h(1), of "CHR ''+''"]
    by (auto simp: hex2_def take_sign_def code_def)
  have lc: "code (lower_char (hex_char d)) = (if d < 10 then 48 + d else 87 + d)" if "d < 16" for d
    using that by (simp add: lower_char_def Let_def code_hex_char)
  have np: "base_of_prefix (hex2 v) = None \<or> base_of_prefix (hex2 v) = Some 2"
    using lc [OF h(2)] h(2) by (auto simp: hex2_def base_of_prefix_def code_def split: if_splits)
  have "digits 16 (hex2 v) = Some (int (nat v div 16) * 16 + int (nat v mod 16))" using h by (simp add: hex2_def)
  also have "int (nat v div 16) * 16 + int (nat v mod 16) = v" using assms by (simp add: zdiv_int zmod_int)
  finally show "py_int_str (hex2 v) 16 = Some v" using np by (auto simp: py_int_str_def s sg)
qed

lemma checksum_sentence:
  assumes "0 \<le> v" "v < 256"
  shows "nmea_checksum_ok (sentence body v) \<longleftrightarrow> xor_codes body = v"
proof -
  have "drop 1 (sentence body v) = body @ CHR ''*'' # hex2 v" "startswith (sentence body v) ''$''"
    "CHR ''*'' \<in> set (sentence body v)" by (simp_all add: sentence_def startswith_def)
  then show ?thesis
    by (simp add: nmea_checksum_ok_def Let_def strip_sentence [OF assms] rpartition_at_append hex2_facts [OF assms] xor_codes_def)
qed

text \<open>
  C33. A receiver's sentence is accepted, and the same sentence with any one character of its body replaced by
  another is ignored: it changes nothing of the reader's state.
\<close>

theorem nmea_corruption_rejected:
  assumes "i < length body" "body ! i \<noteq> c"
  shows "nmea_checksum_ok (sentence body (xor_codes body)) \<and>
    nmea_sentence E (sentence (body[i := c]) (xor_codes body)) s = Some (Inr (), s)"
  using xor_codes_update [OF assms] xor_codes_range [of body]
  by (auto simp: nmea_sentence_def checksum_sentence ret_def)

section \<open>The gpsd stream\<close>

text \<open>Reference: the complete lines of a stream and what follows the last newline.\<close>

fun lines_acc :: "byte list \<Rightarrow> byte list \<Rightarrow> byte list list \<times> byte list" where
  "lines_acc cur [] = ([], cur)"
| "lines_acc cur (b # bs) = (if b = 10 then (case lines_acc [] bs of (ls, r) \<Rightarrow> (cur # ls, r)) else lines_acc (cur @ [b]) bs)"

definition complete_lines :: "byte list \<Rightarrow> byte list list" where
  "complete_lines bs = fst (lines_acc [] bs)"

lemma lines_acc_line: "10 \<notin> set l \<Longrightarrow> lines_acc cur (l @ bs) = lines_acc (cur @ l) bs"
  by (induction l arbitrary: cur) auto

lemma lines_acc_append:
  "lines_acc cur (xs @ ys) = (case lines_acc cur xs of (ls, r) \<Rightarrow> case lines_acc r ys of (ls', r') \<Rightarrow> (ls @ ls', r'))"
  by (induction cur xs rule: lines_acc.induct) (auto split: prod.split)

lemma lines_acc_rest: "10 \<notin> set cur \<Longrightarrow> 10 \<notin> set (snd (lines_acc cur bs))"
  by (induction cur bs rule: lines_acc.induct) (auto split: prod.split)

lemma newline_split: "10 \<in> set (buf :: byte list) \<Longrightarrow>
  buf = takeWhile (\<lambda>b. b \<noteq> 10) buf @ 10 # drop 1 (dropWhile (\<lambda>b. b \<noteq> 10) buf)"
  by (induction buf) auto

lemma gpsd_drain_lines:
  "gpsd_drain E buf = thenM (forM (fst (lines_acc [] buf)) (gpsd_line E)) (ret (snd (lines_acc [] buf)))"
proof (induction E buf rule: gpsd_drain.induct)
  case (1 E buf)
  show ?case
  proof (cases "10 \<in> set buf")
    case True
    let ?l = "takeWhile (\<lambda>b. b \<noteq> 10) buf" and ?r = "drop 1 (dropWhile (\<lambda>b. b \<noteq> 10) buf)"
    have "10 \<notin> set ?l" by (metis set_takeWhileD)
    then have "lines_acc [] buf = (?l # fst (lines_acc [] ?r), snd (lines_acc [] ?r))"
      by (subst newline_split [OF True]) (simp add: lines_acc_line split: prod.split)
    with 1 True show ?thesis by (simp add: gpsd_drain.simps [of E buf] thenM_assoc)
  next
    case False
    from lines_acc_line [OF False, of "[]" "[]"] have "lines_acc [] buf = ([], buf)" by simp
    with False show ?thesis by (simp add: gpsd_drain.simps [of E buf]) (simp add: thenM_def bindM_def ret_def)
  qed
qed

text \<open>
  A connection that delivers the chunks \<open>cs\<close> and then ends; reading the clock does not touch it
  and nobody stops the source.
\<close>

definition delivering :: "('e \<times> byte list list, 'y) loc_platform_scheme \<Rightarrow> bool" where
  "delivering E \<longleftrightarrow> (\<forall>d. stop_p E d = (False, d)) \<and>
     (\<forall>d cs. recv_p E (d, cs) = (case cs of [] \<Rightarrow> (Inr [], (d, [])) | c # cs' \<Rightarrow> (Inr c, (d, cs')))) \<and>
     (\<forall>d cs cs'. fst (time_p E (d, cs)) = fst (time_p E (d, cs')) \<and> snd (time_p E (d, cs)) = (fst (snd (time_p E (d, cs'))), cs))"

definition pending_chunks :: "byte list list \<Rightarrow> byte list \<Rightarrow> ('e \<times> byte list list) source \<Rightarrow> ('e \<times> byte list list) source" where
  "pending_chunks cs buf s = s\<lparr>s_buf := buf, dev := (fst (dev s), cs)\<rparr>"

definition mapped :: "('s \<Rightarrow> 't) \<Rightarrow> ((exn + 'a) \<times> 's) option \<Rightarrow> ((exn + 'a) \<times> 't) option" where
  "mapped g = map_option (map_prod id g)"

text \<open>A method that does not see what the connection and the buffer hold.\<close>

definition blind :: "(('e \<times> byte list list) source, 'a) py \<Rightarrow> bool" where
  "blind m \<longleftrightarrow> (\<forall>cs buf s. m (pending_chunks cs buf s) = mapped (pending_chunks cs buf) (m s))"

lemma blind_ret: "blind (ret x)" and blind_raise: "blind (raise e)" and blind_ofE: "blind (ofE r)"
  by (simp_all add: blind_def mapped_def py_defs)

lemma blind_bindM: "blind m \<Longrightarrow> (\<And>x. blind (f x)) \<Longrightarrow> blind (bindM m f)"
  by (auto simp: blind_def mapped_def bindM_def split: option.split sum.split)

lemma blind_thenM: "blind m \<Longrightarrow> blind n \<Longrightarrow> blind (thenM m n)"
  unfolding thenM_def by (rule blind_bindM)

lemma blind_if: "blind m \<Longrightarrow> blind n \<Longrightarrow> blind (if b then m else n)"
  by simp

lemma blind_set_fix:
  assumes "delivering E"
  shows "blind (set_fix E lat lon alt speed bearing accuracy)"
  unfolding blind_def
proof (intro allI)
  fix cs buf and s :: "('a \<times> byte list list) source"
  obtain d cs0 where d: "dev s = (d, cs0)" by fastforce
  have "fst (time_p E (d, cs)) = fst (time_p E (d, cs0)) \<and> snd (time_p E (d, cs)) = (fst (snd (time_p E (d, cs0))), cs)"
    using assms by (simp add: delivering_def)
  with d show "set_fix E lat lon alt speed bearing accuracy (pending_chunks cs buf s) =
      mapped (pending_chunks cs buf) (set_fix E lat lon alt speed bearing accuracy s)"
    by (simp add: set_fix_def timeM_def mapped_def pending_chunks_def bindM_def modM_def)
qed

lemmas blind_rules = blind_ret blind_raise blind_ofE blind_bindM blind_thenM blind_if blind_set_fix

lemma blind_gpsd_line:
  assumes "delivering E"
  shows "blind (gpsd_line E l)"
  unfolding gpsd_line_def gpsd_message_def gpsd_tpv_def
  by (auto split: sum.split json.split intro!: blind_rules assms)

lemma blind_forM: "(\<And>x. blind (f x)) \<Longrightarrow> blind (forM xs f)"
  by (induction xs) (auto intro: blind_rules)

lemma pending_twice [simp]: "pending_chunks cs buf (pending_chunks cs' buf' s) = pending_chunks cs buf s"
  by (simp add: pending_chunks_def)

lemma gpsd_round_step:
  assumes "delivering E"
  shows "gpsd_round E (pending_chunks [] buf s) = (if s_run s then Some (Inr (Some ()), pending_chunks [] buf s)
      else Some (Inr (Some ()), pending_chunks [] buf s))"
    "c \<noteq> [] \<Longrightarrow> s_run s \<Longrightarrow> gpsd_round E (pending_chunks (c # cs) buf s) = bindM (gpsd_drain E (buf @ c))
      (\<lambda>rest. thenM (modM (\<lambda>s. s\<lparr>s_buf := rest\<rparr>)) (ret None)) (pending_chunks cs buf s)"
  using assms by (simp_all add: gpsd_round_def runM_def askE_def delivering_def pending_chunks_def py_defs)

lemma forM_append: "forM (xs @ ys) f = thenM (forM xs f) (forM ys f)"
  by (induction xs) (simp_all add: thenM_assoc, simp add: thenM_def bindM_def ret_def)

lemma keeps_gpsd_lines: "keeps (\<lambda>s. s_run s) (forM ls (gpsd_line E))"
  unfolding gpsd_line_def gpsd_message_def gpsd_tpv_def set_fix_def
  by (rule keeps_forM) (auto split: sum.split json.split intro!: keeps_rules simp: dev_free_def)

lemma pending_buf [simp]: "(pending_chunks cs buf u)\<lparr>s_buf := b\<rparr> = pending_chunks cs b u"
  by (simp add: pending_chunks_def)

lemma gpsd_loop_lines:
  assumes "delivering E" "[] \<notin> set cs" "10 \<notin> set buf" "s_run s"
    "forM (fst (lines_acc buf (concat cs))) (gpsd_line E) s = Some (r, t)"
  shows "\<exists>cs' buf'. loopM (gpsd_round E) (pending_chunks cs buf s) = Some (r, pending_chunks cs' buf' t)"
  using assms(2-)
proof (induction cs arbitrary: s buf)
  case Nil
  then show ?case
    using gpsd_round_step(1) [OF assms(1), of buf s] by (auto simp: loopM.simps [of "gpsd_round E"] ret_def)
next
  case (Cons c cs)
  define ls rest where "ls = fst (lines_acc buf c)" "rest = snd (lines_acc buf c)"
  have cut: "lines_acc [] (buf @ c) = (ls, rest)" "10 \<notin> set rest"
    using Cons.prems lines_acc_line [of buf "[]" c] lines_acc_rest [of buf c] by (simp_all add: ls_rest_def)
  have "fst (lines_acc buf (concat (c # cs))) = ls @ fst (lines_acc rest (concat cs))"
    by (simp add: lines_acc_append ls_rest_def split: prod.split)
  then have run: "thenM (forM ls (gpsd_line E)) (forM (fst (lines_acc rest (concat cs))) (gpsd_line E)) s = Some (r, t)"
    using Cons.prems(4) by (simp add: forM_append)
  have "blind (forM ls (gpsd_line E))" by (intro blind_forM blind_gpsd_line assms(1))
  then have b: "forM ls (gpsd_line E) (pending_chunks cs buf s) = mapped (pending_chunks cs buf) (forM ls (gpsd_line E) s)"
    by (simp add: blind_def)
  have step: "gpsd_round E (pending_chunks (c # cs) buf s) = bindM (thenM (forM ls (gpsd_line E)) (ret rest))
      (\<lambda>rest. thenM (modM (\<lambda>s. s\<lparr>s_buf := rest\<rparr>)) (ret None)) (pending_chunks cs buf s)"
    using gpsd_round_step(2) [OF assms(1), of c s cs buf] Cons.prems(1,3) by (auto simp: gpsd_drain_lines cut)
  from run consider e where "forM ls (gpsd_line E) s = Some (Inl e, t)" "r = Inl e"
    | u where "forM ls (gpsd_line E) s = Some (Inr (), u)" "forM (fst (lines_acc rest (concat cs))) (gpsd_line E) u = Some (r, t)"
    by (auto simp: thenM_Some_iff)
  then show ?case
  proof cases
    case 1
    with step b have "gpsd_round E (pending_chunks (c # cs) buf s) = Some (Inl e, pending_chunks cs buf t)"
      by (simp add: bindM_def thenM_def mapped_def)
    with 1 show ?thesis by (auto simp: loopM.simps [of "gpsd_round E" "pending_chunks (c # cs) buf s"])
  next
    case 2
    with step b have "gpsd_round E (pending_chunks (c # cs) buf s) = Some (Inr None, pending_chunks cs rest u)"
      by (simp add: bindM_def thenM_def mapped_def ret_def modM_def)
    moreover have "s_run u" using keepsD [OF keeps_gpsd_lines Cons.prems(3) 2(1)] .
    ultimately show ?thesis
      using Cons.IH [OF _ cut(2) _ 2(2)] Cons.prems(1) by (simp add: loopM.simps [of "gpsd_round E" "pending_chunks (c # cs) buf s"])
  qed
qed

lemma tkeeps_gpsd_lines: "tkeeps (\<lambda>_. True) (forM ls (gpsd_line E))"
proof -
  have t: "tkeeps (\<lambda>_. True) (timeM E)" by (simp add: tkeeps_def timeM_def)
  show ?thesis
    unfolding gpsd_line_def gpsd_message_def gpsd_tpv_def set_fix_def
    by (rule tkeeps_forM) (auto split: sum.split json.split intro!: tkeeps_rules t)
qed

text \<open>
  C31. However the bytes of a gpsd connection are cut into chunks, the reader does exactly what
  processing the complete lines of the whole stream one after the other does: the same fix, and
  the same exception if a line raises one. It ends when the connection ends.
\<close>

theorem gpsd_stream_lines:
  assumes "delivering E" "[] \<notin> set cs" "s_run s"
  shows "\<exists>r t cs' buf. forM (complete_lines (concat cs)) (gpsd_line E) s = Some (r, t) \<and>
    loopM (gpsd_round E) (pending_chunks cs [] s) = Some (r, pending_chunks cs' buf t)"
proof -
  obtain r t where "forM (complete_lines (concat cs)) (gpsd_line E) s = Some (r, t)"
    using tkeepsD [OF tkeeps_gpsd_lines, where s = s] by blast
  then show ?thesis
    using gpsd_loop_lines [OF assms(1,2), of "[]"] assms(3) by (fastforce simp: complete_lines_def)
qed

section \<open>Decoding a sentence\<close>

lemma join_snoc: "join c (xs @ [l]) @ s = join c (xs @ [l @ s])"
  by (induction xs) (auto simp: neq_Nil_conv split: list.split, metis append_is_Nil_conv join.simps(3) neq_Nil_conv append_Cons append_assoc list.distinct(1))

lemma join_head: "a @ join c (t # xs) = join c ((a @ t) # xs)"
  by (cases xs) auto

lemma sentence_parts:
  assumes "\<And>f. f \<in> set (t # mid @ [l]) \<Longrightarrow> CHR '','' \<notin> set f" "0 \<le> v" "v < 256"
  shows "split_at (CHR '','') (sentence (join (CHR '','') (t # mid @ [l])) v) = (CHR ''$'' # t) # mid @ [l @ CHR ''*'' # hex2 v]"
proof -
  have h: "CHR '','' \<notin> set (hex2 v)"
    using less_mult_imp_div_less [of "nat v" 16 16] assms(2,3) hex_char_neqI [of "nat v div 16" "CHR '',''"] hex_char_neqI [of "nat v mod 16" "CHR '',''"]
    by (auto simp: hex2_def code_def)
  have "sentence (join (CHR '','') (t # mid @ [l])) v = join (CHR '','') ((CHR ''$'' # t) # mid @ [l @ CHR ''*'' # hex2 v])"
    using join_snoc [of "CHR '',''" "(CHR ''$'' # t) # mid" l "CHR ''*'' # hex2 v"] join_head [of "''$''" "CHR '',''" t "mid @ [l]"]
    by (simp add: sentence_def) (metis append_Cons)
  then show ?thesis using assms(1) h by (simp only:) (rule split_join, auto)
qed

lemma dm_to_deg_value:
  assumes "py_float_str v = Some (Fin (100 * of_nat d + m))" "0 \<le> m" "m < 60"
  shows "dm_to_deg v h = Inr (Some (Fin (if h \<in> {''S'', ''W''} then - (of_nat d + m / 60) else of_nat d + m / 60)))"
proof -
  have "\<lfloor>(100 * of_nat d + m) / 100\<rfloor> = int d" using assms(2,3) by (intro floor_unique) auto
  then have "Py_Text.truncate ((100 * of_nat d + m) / 100) = int d" using assms(2) by (simp add: Py_Text.truncate_def)
  then show ?thesis using assms(1) by (simp add: dm_to_deg_def f_str_def Let_def)
qed

text \<open>A position on the planet.\<close>

definition on_planet :: "gps_fix \<Rightarrow> bool" where
  "on_planet f \<longleftrightarrow> (\<exists>a b. f_lat f = Fin a \<and> f_lon f = Fin b \<and> \<bar>a\<bar> \<le> 90 \<and> \<bar>b\<bar> \<le> 180)"

lemma valid_position_iff:
  "valid_position lat lon \<longleftrightarrow> (\<exists>a b. lat = Some (Fin a) \<and> lon = Some (Fin b) \<and> \<bar>a\<bar> \<le> 90 \<and> \<bar>b\<bar> \<le> 180)"
  by (auto simp: valid_position_def abs_le_iff elim!: isfiniteE split: option.splits)

text \<open>
  C32. A GGA sentence with its checksum, a fix quality other than 0 and latitude and longitude in degrees and
  decimal minutes sets the fix to exactly those coordinates in signed decimal degrees, with the
  altitude of the sentence and the time of its arrival.
\<close>

theorem nmea_gga_decodes:
  assumes fields: "\<And>f. f \<in> set (t # mid @ [l]) \<Longrightarrow> CHR '','' \<notin> set f" "last3 t = ''GGA''" "length t \<ge> 3"
    "mid = [utc, lat, ns, lon, ew, quality, sats, hdop, alt] @ tail" "quality \<noteq> ''''" "quality \<noteq> ''0''"
    and lat: "py_float_str lat = Some (Fin (100 * of_nat d + m))" "0 \<le> m" "m < 60" "of_nat d + m / 60 \<le> 90"
    and lon: "py_float_str lon = Some (Fin (100 * of_nat d' + m'))" "0 \<le> m'" "m' < 60" "of_nat d' + m' / 60 \<le> 180"
  shows "\<exists>s'. nmea_sentence E (let body = join (CHR '','') (t # mid @ [l]) in sentence body (xor_codes body)) s = Some (Inr (), s') \<and>
    s_fix s' = Some \<lparr>f_lat = Fin (if ns \<in> {''S'', ''W''} then - (of_nat d + m / 60) else of_nat d + m / 60),
      f_lon = Fin (if ew \<in> {''S'', ''W''} then - (of_nat d' + m' / 60) else of_nat d' + m' / 60),
      f_alt = py_float_str alt, f_speed = None, f_bearing = None, f_accuracy = None, f_at = fst (time_p E (dev s))\<rparr>"
proof -
  define body v where "body = join (CHR '','') (t # mid @ [l])" "v = xor_codes body"
  have v: "0 \<le> v" "v < 256" using xor_codes_range [of body] by (simp_all add: body_v_def)
  have parts: "split_at (CHR '','') (strip (sentence body v)) = (CHR ''$'' # t) # mid @ [l @ CHR ''*'' # hex2 v]"
    unfolding strip_sentence [OF v] body_v_def(1) by (rule sentence_parts [OF fields(1) v]) simp
  have ok: "nmea_checksum_ok (sentence body v)" using checksum_sentence [OF v, of body] body_v_def(2) by simp
  have t: "last3 (CHR ''$'' # t) = ''GGA''"
  proof -
    have "Suc (length t) - 3 = Suc (length t - 3)" using fields(3) by simp
    then show ?thesis using fields(2) by (simp add: last3_def)
  qed
  have set: "nmea_gga E ((CHR ''$'' # t) # mid @ [l @ CHR ''*'' # hex2 v]) s =
      set_fix E (Fin (if ns \<in> {''S'', ''W''} then - (of_nat d + m / 60) else of_nat d + m / 60))
        (Fin (if ew \<in> {''S'', ''W''} then - (of_nat d' + m' / 60) else of_nat d' + m' / 60)) (py_float_str alt) None None None s"
    using fields(4-6) lat(2-4) lon(2-4)
    by (simp add: nmea_gga_def dm_to_deg_value [OF lat(1-3)] dm_to_deg_value [OF lon(1-3)] valid_position_iff f_str_def py_defs)
  show ?thesis
    unfolding body_v_def [symmetric] Let_def nmea_sentence_def parts
    using ok t fields(4) set by (simp add: nmea_parts_def try_except_def set_fix_def timeM_def bindM_def modM_def)
qed

text \<open>The position 0, 0 is accepted, although the comment of \<open>_valid_position\<close> counts it among the bogus ones.\<close>

lemma null_island_accepted: "valid_position (Some (Fin 0)) (Some (Fin 0))"
  by (simp add: valid_position_iff)

text \<open>A coordinate that reads as infinite raises an exception the sentence loop does not catch.\<close>

lemma infinite_coordinate_escapes: "dm_to_deg ''inf'' ''N'' = Inl OverflowError"
  by code_simp

text \<open>With a configured age that reads as NaN no fix is ever stale.\<close>

lemma nan_age_never_stale: "\<not> float_or ''nan'' 30 < Fin age"
proof -
  have "float_or ''nan'' 30 = NaN" by code_simp
  then show ?thesis by simp
qed

section \<open>What the plugin publishes\<close>

definition located :: "('d, 'z) source_scheme \<Rightarrow> bool" where
  "located s \<longleftrightarrow> (\<forall>f. s_fix s = Some f \<longrightarrow> on_planet f)"

lemma located_free: "dev_free located"
  by (simp add: dev_free_def located_def)

lemma keeps_set_fix:
  "valid_position lat lon \<Longrightarrow> keeps located (set_fix E (the lat) (the lon) alt speed bearing accuracy)"
  unfolding set_fix_def timeM_def
  by (intro keeps_rules located_free) (auto simp: located_def on_planet_def valid_position_iff)

lemma keeps_lines: "keeps located (gpsd_line E l)" "keeps located (nmea_sentence E' line)"
proof -
  show "keeps located (gpsd_line E l)"
    unfolding gpsd_line_def gpsd_message_def gpsd_tpv_def
    by (auto split: sum.split json.split intro!: keeps_rules keeps_set_fix)
  show "keeps located (nmea_sentence E' line)"
    unfolding nmea_sentence_def nmea_parts_def nmea_gga_def nmea_rmc_def Let_def
    by (intro keeps_rules keeps_set_fix; simp)
qed

lemma keeps_runM: "keeps located (runM E)"
  unfolding runM_def by (intro keeps_rules located_free) (simp add: located_def)

lemma keeps_gpsd_drain: "keeps located (gpsd_drain E buf)"
proof (induction E buf rule: gpsd_drain.induct)
  case (1 E buf)
  then show ?case by (simp add: gpsd_drain.simps [of E buf]) (auto intro!: keeps_rules keeps_lines)
qed

lemma keeps_with_conn: "keeps located m \<Longrightarrow> keeps located (with_conn m)"
  unfolding with_conn_def by (intro keeps_rules) (auto simp: located_def)

lemma keeps_readers: "keeps located (read_once E k)" "keeps located (source_loop E k)"
proof -
  have "keeps located (configure_port E baud)" for baud
    unfolding configure_port_def by (auto split: option.split intro!: keeps_rules keeps_callM located_free)
  then have "keeps located (nmea_read_once E)"
    unfolding nmea_read_once_def nmea_round_def by (intro keeps_rules keeps_callM keeps_runM keeps_lines located_free keeps_with_conn)
  moreover have "keeps located (gpsd_read_once E)"
    unfolding gpsd_read_once_def gpsd_round_def
    by (intro keeps_rules keeps_callM keeps_runM keeps_gpsd_drain located_free keeps_with_conn) (auto simp: located_def)
  ultimately show r: "keeps located (read_once E k)"
    unfolding read_once_def by (cases k) (auto intro!: keeps_rules located_free)
  show "keeps located (source_loop E k)"
    unfolding source_loop_def by (intro keeps_rules keeps_runM r located_free)
qed

lemma keeps_source_init: "keeps located (source_init E k c)"
  unfolding source_init_def
  by (cases k) (auto intro!: keeps_rules keeps_set_fix simp: located_def)

lemma keeps_update: "keeps located (update_telemetry E tele)"
proof -
  have "keeps located (source_current E k)" for k
    unfolding keeps_wp source_current_defs timeM_def
    by (cases k) (auto simp: located_def on_planet_def split: option.split sum.split)
  then show ?thesis
    unfolding update_telemetry_def by (auto intro!: keeps_rules split: option.split simp: located_def)
qed

text \<open>Which source the plugin has and its configuration are fixed by the start.\<close>

definition wired :: "source_kind option \<Rightarrow> conf \<Rightarrow> 'd plugin \<Rightarrow> bool" where
  "wired k c s \<longleftrightarrow> src s = k \<and> s_conf s = c"

lemma wired_updates [simp]:
  "wired k c (s\<lparr>s_fix := f\<rparr>) = wired k c s" "wired k c (s\<lparr>s_run := r\<rparr>) = wired k c s" "wired k c (s\<lparr>sensors := m\<rparr>) = wired k c s"
  by (simp_all add: wired_def)

lemma wired_free: "dev_free (wired k c)"
  by (simp add: dev_free_def wired_def)

lemma keeps_wired_fix: "keeps (wired k c) (set_fix E lat lon alt speed bearing accuracy)"
  unfolding set_fix_def by (intro keeps_rules wired_free) simp

lemma keeps_wired_lines: "keeps (wired k c) (gpsd_line E l)" "keeps (wired k c) (nmea_sentence E' line)"
proof -
  show "keeps (wired k c) (gpsd_line E l)"
    unfolding gpsd_line_def gpsd_message_def gpsd_tpv_def
    by (auto split: sum.split json.split intro!: keeps_rules keeps_wired_fix)
  show "keeps (wired k c) (nmea_sentence E' line)"
    unfolding nmea_sentence_def nmea_parts_def nmea_gga_def nmea_rmc_def Let_def
    by (auto intro!: keeps_rules keeps_wired_fix)
qed

text \<open>
  The contract of a reader: whatever line it handles, the fix stays a position on the planet and
  the plugin keeps its source and configuration. Both readers keep it.
\<close>

locale position_reader =
  fixes handle :: "'l \<Rightarrow> ('d plugin, unit) py"
  assumes handle_located: "keeps located (handle l)"
    and handle_wired: "keeps (wired k c) (handle l)"
begin

lemma swallowed_located: "keeps located (try_except (handle l) (\<lambda>_. ret ()))"
  by (intro keeps_rules handle_located)

lemma swallowed_wired: "keeps (wired k c) (try_except (handle l) (\<lambda>_. ret ()))"
  by (intro keeps_rules handle_wired)

end

interpretation gpsd: position_reader "gpsd_line E" for E
  by unfold_locales (rule keeps_lines keeps_wired_lines)+

interpretation nmea: position_reader "nmea_sentence E" for E
  by unfold_locales (rule keeps_lines keeps_wired_lines)+

text \<open>
  What happens to a running plugin, in any order: the reader thread handles a line of its device
  or connection (an exception ends its reading and is swallowed by the loop), Sideband asks for
  telemetry, or the plugin is stopped.
\<close>

datatype plugin_event = Sentence string | Message "byte list" | Telemetry "((string \<rightharpoonup> sensor) \<Rightarrow> (string \<rightharpoonup> sensor)) option" | Stop

definition plugin_handle :: "('d, 'y) loc_platform_scheme \<Rightarrow> plugin_event \<Rightarrow> ('d plugin, unit) py" where
  "plugin_handle E ev = (case ev of
       Sentence line \<Rightarrow> try_except (nmea_sentence E line) (\<lambda>_. ret ())
     | Message line \<Rightarrow> try_except (gpsd_line E line) (\<lambda>_. ret ())
     | Telemetry tele \<Rightarrow> update_telemetry E tele
     | Stop \<Rightarrow> plugin_stop)"

lemma keeps_events: "keeps located (forM evs (plugin_handle E))"
proof (rule keeps_forM)
  fix ev
  show "keeps located (plugin_handle E ev)"
    unfolding plugin_handle_def plugin_stop_def source_stop_defs
    by (cases ev) (auto intro!: gpsd.swallowed_located nmea.swallowed_located keeps_rules keeps_update
      split: option.split source_kind.split simp: located_def)
qed

text \<open>The dictionary has the configured age after a start, and nothing removes it.\<close>

lemma conf_line_keeps: "c k \<noteq> None \<Longrightarrow> conf_line l c k \<noteq> None"
  by (simp add: conf_line_def Let_def split: prod.split)

lemma fold_conf_keeps: "c k \<noteq> None \<Longrightarrow> fold conf_line ls c k \<noteq> None"
  by (induction ls arbitrary: c) (simp_all add: conf_line_keeps del: not_None_eq)

lemma load_conf_keys:
  assumes "load_conf path files = Inr c" "DEFAULTS k \<noteq> None"
  shows "\<exists>v. c k = Some v"
  using assms fold_conf_keeps [of DEFAULTS k] by (auto simp: load_conf_def split: if_splits option.splits)

text \<open>The location sensor after a telemetry request at time \<open>now\<close>.\<close>

definition reported :: "real \<Rightarrow> 'd plugin \<Rightarrow> bool" where
  "reported now s \<longleftrightarrow> (\<exists>sn f age. sensors s ''location'' = Some sn \<and> s_fix s = Some f \<and> s_conf s ''max_age'' = Some age \<and>
     on_planet f \<and> latitude sn = Some (f_lat f) \<and> longitude sn = Some (f_lon f) \<and> altitude sn = f_alt f \<and>
     sn_speed sn = f_speed f \<and> sn_bearing sn = f_bearing f \<and> sn_accuracy sn = f_accuracy f \<and>
     (if has_set_update_time sn then update_time sn else last_update sn) = Some (f_at f) \<and> stale_time sn = Some (float_or age 30) \<and>
     (if src s = Some FixedSource then f_at f = now else \<not> float_or age 30 < Fin (now - f_at f)))"

lemma wp_update:
  assumes "located s" "src s = Some k" "s_conf s ''max_age'' = Some age"
  shows "wp (update_telemetry E (Some syn)) (\<lambda>_ t. sensors t ''location'' = None \<or> reported (fst (time_p E (dev s))) t) (\<lambda>_ _. False) s"
  using assms
  by (cases k) (auto simp: update_telemetry_def source_current_defs timeM_def conf_item_def reported_def located_def fill_sensor_def Let_def
      on_planet_def split: option.split)

lemma tkeeps_update: "tkeeps (\<lambda>_. True) (update_telemetry E tele)"
proof -
  have t: "tkeeps (\<lambda>_. True) (timeM E)" by (simp add: tkeeps_def timeM_def)
  have "tkeeps (\<lambda>_. True) (source_current E k)" for k
    unfolding source_current_defs by (cases k) (auto intro!: tkeeps_rules t)
  then show ?thesis unfolding update_telemetry_def by (auto intro!: tkeeps_rules split: option.split)
qed

lemma keeps_wired: "keeps (wired k c) (forM evs (plugin_handle E))"
proof (rule keeps_forM)
  fix ev
  have "keeps (wired k c) (update_telemetry E tele)" for tele
    unfolding update_telemetry_def source_current_defs
    by (auto split: option.split source_kind.split intro!: keeps_rules wired_free)
  then show "keeps (wired k c) (plugin_handle E ev)"
    unfolding plugin_handle_def plugin_stop_def source_stop_defs
    by (cases ev) (auto intro!: gpsd.swallowed_wired nmea.swallowed_wired keeps_rules split: option.split source_kind.split)
qed

lemma wp_plugin_start:
  "wp (plugin_start E path files) (\<lambda>_ s. src s = None \<or> located s \<and> (\<exists>age. s_conf s ''max_age'' = Some age)) (\<lambda>_ _. True) s"
proof (cases "load_conf path files")
  case (Inr c)
  then have c: "\<exists>age. c ''max_age'' = Some age" by (rule load_conf_keys) (simp add: DEFAULTS_def)
  show ?thesis
  proof (cases "make_source c")
    case (Some k)
    with Inr c show ?thesis
      by (cases k) (auto simp: plugin_start_def source_init_def set_fix_def timeM_def located_def on_planet_def valid_position_iff
          split: option.split sum.split)
  qed (simp add: plugin_start_def Inr)
qed (simp add: plugin_start_def)


section \<open>The reader thread\<close>

definition shut_down :: "('d, 'z) source_scheme \<Rightarrow> bool" where
  "shut_down s \<longleftrightarrow> \<not> conn_open s"

lemma shut_free: "dev_free shut_down"
  by (simp add: dev_free_def shut_down_def)

lemma keeps_shut_down:
  "keeps shut_down (with_conn m)" "keeps shut_down (runM E)"
proof -
  show "keeps shut_down (with_conn m)"
    by (auto simp: keeps_def with_conn_def shut_down_def try_finally_Some_iff thenM_Some_iff modM_def)
  show "keeps shut_down (runM E)" unfolding runM_def by (intro keeps_rules shut_free) (simp add: shut_down_def)
qed

lemma keeps_shut_loop: "keeps shut_down (source_loop E k)"
proof -
  have "keeps shut_down (read_once E k)"
    unfolding read_once_def gpsd_read_once_def nmea_read_once_def
    by (cases k) (auto intro!: keeps_rules keeps_callM keeps_shut_down shut_free)
  then show ?thesis unfolding source_loop_def by (intro keeps_rules keeps_shut_down shut_free)
qed

lemma raises_runM: "raises X (runM E)"
  unfolding runM_def by (intro raises_rules)

lemma raises_source_loop: "raises (\<lambda>e. \<not> is_Exception e) (source_loop E k)"
  unfolding source_loop_def
  by (intro raises_rules raises_runM) (auto intro!: raises_rules)

text \<open>
  Whatever its device or connection does, the reader thread is not ended by an ordinary exception:
  it ends when the source was stopped or by an exception outside \<open>Exception\<close>, and it leaves no socket or device open.
\<close>

theorem source_loop_survives:
  assumes "source_loop E k s = Some (r, s')" "\<not> conn_open s"
  shows "\<not> conn_open s' \<and> (case r of Inr _ \<Rightarrow> \<not> s_run s' | Inl e \<Rightarrow> \<not> is_Exception e)"
proof -
  have c: "\<not> conn_open s'" using keepsD [OF keeps_shut_loop, of s E k r s'] assms by (simp add: shut_down_def)
  show ?thesis
  proof (cases r)
    case (Inl e)
    with raisesD [OF raises_source_loop] assms(1) c show ?thesis by simp
  next
    case (Inr u)
    then have "\<exists>x t. bindM (runM E) (\<lambda>r. if \<not> r then ret (Some ())
        else thenM (try_except (read_once E k) (\<lambda>e. if is_Exception e then sleepM E 2 else raise e)) (ret None)) t = Some (Inr (Some x), s')"
      using loopM_partial [OF assms(1) [unfolded source_loop_def], where I = "\<lambda>_. True"] by auto
    then have "\<not> s_run s'"
      by (auto simp: bindM_Some_iff thenM_Some_iff runM_def ret_def getM_def modM_def split: if_splits)
    with c Inr show ?thesis by simp
  qed
qed

section \<open>Witnesses\<close>

definition bench_tpv :: json where
  "bench_tpv = JObj [(''class'', JStr ''TPV''), (''lat'', JFloat (Fin 48)), (''lon'', JFloat (Fin (- 11))), (''speed'', JInt 2)]"

text \<open>A connection whose line \<open>[1]\<close> is a position report; \<open>stopped\<close> says whether the source is told to stop.\<close>

definition loc_bench :: "bool \<Rightarrow> (real \<times> byte list list) loc_platform" where
  "loc_bench stopped = \<lparr>os_call_p = (\<lambda>_ d. (None, d)), os_write_p = (\<lambda>n d. (n, d)), time_p = (\<lambda>d. (fst d, d)),
     monotonic_p = (\<lambda>d. (fst d, d)), sleep_p = (\<lambda>_ d. (False, d)), random_p = (\<lambda>d. (0, d)), boot_id_p = [], lock_dir_p = (\<lambda>_. None),
     cs_gpios_p = (\<lambda>_. None), cs_gpios_size_p = (\<lambda>_ _. None), spi_open_p = (\<lambda>_ _ d. (True, d)), no_cs_p = (\<lambda>d. (Inr True, d)),
     spi_xfer2_p = (\<lambda>_ d. (None, d)), line_set_p = (\<lambda>_ _ d. (True, d)), line_get_p = (\<lambda>_ d. (None, d)),
     line_request_p = (\<lambda>_ d. (True, d)), edge_wait_p = (\<lambda>_ d. (None, d)), stop_p = (\<lambda>d. (stopped, d)),
     connect_p = (\<lambda>_ _ d. (None, d)), sendall_p = (\<lambda>d. (None, d)),
     recv_p = (\<lambda>(d, cs). case cs of [] \<Rightarrow> (Inr [], (d, [])) | c # cs' \<Rightarrow> (Inr c, (d, cs'))),
     json_loads_p = (\<lambda>l. if l = [1] then Inr bench_tpv else Inl (ValueError ''json'')), open_dev_p = (\<lambda>_ d. (None, d)),
     readline_p = (\<lambda>d. (Inr [], d)), tcgetattr_p = (\<lambda>d. (None, d)), tcsetattr_p = (\<lambda>_ d. (None, d))\<rparr>"

definition bench_source :: "(real \<times> byte list list) source" where
  "bench_source = \<lparr>dev = (1000, []), s_conf = DEFAULTS, s_fix = None, s_run = True, s_buf = [], conn_open = False\<rparr>"

theorem nmea_corruption_rejected_witness:
  "nmea_checksum_ok (sentence ''GPGGA,1'' (xor_codes ''GPGGA,1'')) \<and>
   nmea_sentence (loc_bench False) (sentence ''GPGGA,7'' (xor_codes ''GPGGA,1'')) bench_source = Some (Inr (), bench_source)"
  using nmea_corruption_rejected [of 6 "''GPGGA,1''" "CHR ''7''" "loc_bench False" bench_source] by simp

lemma bench_coordinates: "py_float_str ''4807.038'' = Some (Fin (4807038 / 1000))" "py_float_str ''01131.000'' = Some (Fin 1131)"
  by (simp_all add: py_float_str_def strip_def strip_by_def is_space_def code_def take_sign_def lower_def lower_char_def
    partition_at_def mantissa_of_def digit_val_def scale10_def fl_small Let_def)

abbreviation bench_fields :: "string list" where
  "bench_fields \<equiv> [''123519'', ''4807.038'', ''N'', ''01131.000'', ''E'', ''1'', ''08'', ''0.9'', ''545.4'', ''M'', ''46.9'', ''M'', '''']"

lemma bench_body: "join (CHR '','') (''GPGGA'' # bench_fields @ [''''])
    = ''GPGGA,123519,4807.038,N,01131.000,E,1,08,0.9,545.4,M,46.9,M,,''"
  by simp

theorem nmea_gga_decodes_witness:
  "\<exists>s'. nmea_sentence (loc_bench False) (let body = ''GPGGA,123519,4807.038,N,01131.000,E,1,08,0.9,545.4,M,46.9,M,,''
       in sentence body (xor_codes body)) bench_source = Some (Inr (), s') \<and>
     s_fix s' = Some \<lparr>f_lat = Fin (48 + 7.038 / 60), f_lon = Fin (11 + 31 / 60), f_alt = py_float_str ''545.4'', f_speed = None,
       f_bearing = None, f_accuracy = None, f_at = fst (time_p (loc_bench False) (dev bench_source))\<rparr>"
proof -
  have "\<exists>s'. nmea_sentence (loc_bench False) (let body = join (CHR '','') (''GPGGA'' # bench_fields @ [''''])
      in sentence body (xor_codes body)) bench_source = Some (Inr (), s') \<and>
    s_fix s' = Some \<lparr>f_lat = Fin (if ''N'' \<in> {''S'', ''W''} then - (of_nat 48 + 7.038 / 60) else of_nat 48 + 7.038 / 60),
      f_lon = Fin (if ''E'' \<in> {''S'', ''W''} then - (of_nat 11 + 31 / 60) else of_nat 11 + 31 / 60),
      f_alt = py_float_str ''545.4'', f_speed = None, f_bearing = None, f_accuracy = None, f_at = fst (time_p (loc_bench False) (dev bench_source))\<rparr>"
    by (rule nmea_gga_decodes [where utc = "''123519''" and quality = "''1''" and sats = "''08''" and hdop = "''0.9''"
        and lat = "''4807.038''" and lon = "''01131.000''" and tail = "[''M'', ''46.9'', ''M'', '''']"])
      (auto simp: last3_def bench_coordinates)
  then show ?thesis unfolding bench_body by simp
qed

lemma bench_delivers: "delivering (loc_bench False)"
  by (auto simp: delivering_def loc_bench_def split: list.split)

theorem gpsd_stream_lines_witness:
  "\<exists>r t cs' buf. forM [[1], [2, 3]] (gpsd_line (loc_bench False)) bench_source = Some (r, t) \<and>
    loopM (gpsd_round (loc_bench False)) (pending_chunks [[1, 10, 2], [3], [10, 4]] [] bench_source) = Some (r, pending_chunks cs' buf t)"
  using gpsd_stream_lines [OF bench_delivers, of "[[1, 10, 2], [3], [10, 4]]" bench_source]
  by (simp add: complete_lines_def bench_source_def)

definition bench_plugin :: "(real \<times> byte list list) plugin" where
  "bench_plugin = source.extend bench_source (plugin.fields None (\<lambda>_. None))"

lemma bench_start: "\<exists>s1 s2. plugin_start (loc_bench False) [] (\<lambda>_. None) bench_plugin = Some (Inr (), s1) \<and>
  forM [Message [1]] (plugin_handle (loc_bench False)) s1 = Some (Inr (), s2) \<and> src s2 = Some GpsdSource"
  by (simp add: plugin_start_def load_conf_def make_source_def DEFAULTS_def lower_def lower_char_def strip_def strip_by_def is_space_def code_def
    source_init_def plugin_handle_def gpsd_line_def loc_bench_def bench_tpv_def gpsd_message_def jget_def gpsd_tpv_def f_json_def jfield_def
    valid_position_def set_fix_def timeM_def float_of_int_small py_defs Let_def bench_plugin_def plugin.defs source.defs bench_source_def)


lemma bench_stopped: "source_loop (loc_bench True) GpsdSource bench_source = Some (Inr (), bench_source\<lparr>s_run := False\<rparr>)"
  by (simp add: source_loop_def loopM.simps runM_def loc_bench_def py_defs)

theorem source_loop_survives_witness:
  "\<exists>s'. source_loop (loc_bench True) GpsdSource bench_source = Some (Inr (), s') \<and> \<not> conn_open s' \<and> \<not> s_run s'"
  using source_loop_survives [OF bench_stopped] bench_stopped by (simp add: bench_source_def)

end
