(* ===== verification/Exposure.thy ===== *)
theory Exposure
  imports Platform
begin

text \<open>
  The two checks of \<open>loraham_rns/node.py\<close> that read text: \<open>_unsafe_exposure\<close> on the Reticulum
  configuration, with the part of Python's \<open>ipaddress\<close> it relies on, and \<open>_own_listener\<close> on the
  kernel's socket tables. Each is shown to agree with what the text stands for.
\<close>

section \<open>Addresses\<close>

definition parse_octet :: "string \<Rightarrow> int option" where
  "parse_octet s = (if s = [] \<or> \<not> list_all (\<lambda>c. 48 \<le> code c \<and> code c \<le> 57) s \<or> length s > 3 \<or> (s \<noteq> ''0'' \<and> hd s = CHR ''0'') then None
     else (case digits 10 s of None \<Rightarrow> None | Some v \<Rightarrow> if v > 255 then None else Some v))"

fun all_some :: "'a option list \<Rightarrow> 'a list option" where
  "all_some [] = Some []"
| "all_some (None # xs) = None"
| "all_some (Some x # xs) = map_option ((#) x) (all_some xs)"

definition ipv4 :: "string \<Rightarrow> int list option" where
  "ipv4 s = (let os = split_at (CHR ''.'') s in
     if CHR ''/'' \<in> set s \<or> length os \<noteq> 4 then None else all_some (map parse_octet os))"

definition parse_hextet :: "string \<Rightarrow> int option" where
  "parse_hextet s = (if length s > 4 \<or> CHR ''_'' \<in> set s then None else digits 16 s)"

text \<open>The hextets of an IPv6 text, the last two from a dotted quad when there is one.\<close>

definition ipv6_parts :: "string \<Rightarrow> string list option" where
  "ipv6_parts s = (let ps = split_at (CHR '':'') s in
     if length ps < 3 then None
     else if CHR ''.'' \<in> set (last ps) then (case ipv4 (last ps) of
         Some [a, b, c, d] \<Rightarrow> Some (butlast ps @ [map hex_char [nat a div 16, nat a mod 16, nat b div 16, nat b mod 16],
             map hex_char [nat c div 16, nat c mod 16, nat d div 16, nat d mod 16]])
       | _ \<Rightarrow> None)
     else Some ps)"

definition ipv6_hextets :: "string list \<Rightarrow> int list option" where
  "ipv6_hextets ps = (let n = length ps; gaps = filter (\<lambda>i. ps ! i = []) [1..<n - 1] in
     if n > 9 \<or> length gaps > 1 then None
     else (case gaps of
         [] \<Rightarrow> if n \<noteq> 8 \<or> hd ps = [] \<or> last ps = [] then None else all_some (map parse_hextet ps)
       | i # _ \<Rightarrow> (let hi = (if hd ps = [] then i - 1 else i); lo = (if last ps = [] then n - i - 2 else n - i - 1) in
           if hd ps = [] \<and> hi > 0 \<or> last ps = [] \<and> lo > 0 \<or> hi + lo > 7 then None
           else map_option (\<lambda>(a, b). a @ replicate (8 - (hi + lo)) 0 @ b)
             (case (all_some (map parse_hextet (take hi ps)), all_some (map parse_hextet (drop (n - lo) ps))) of
                (Some a, Some b) \<Rightarrow> Some (a, b) | _ \<Rightarrow> None))))"

text \<open>An address may carry a scope after a percent sign.\<close>

definition ipv6 :: "string \<Rightarrow> int list option" where
  "ipv6 s = (case partition_at (CHR ''%'') s of (addr, scope) \<Rightarrow>
     if CHR ''/'' \<in> set s \<or> CHR ''%'' \<in> set s \<and> (scope = [] \<or> CHR ''%'' \<in> set scope) then None
     else Option.bind (ipv6_parts addr) ipv6_hextets)"

text \<open>
  \<open>ipaddress.ip_address(s).is_loopback\<close>, \<open>None\<close> for the \<open>ValueError\<close>. \<open>mapped\<close> says whether this
  version of Python looks through an IPv4-mapped address.
\<close>

definition ip_is_loopback :: "bool \<Rightarrow> string \<Rightarrow> bool option" where
  "ip_is_loopback mapped s = (case ipv4 s of
       Some os \<Rightarrow> Some (hd os = 127)
     | None \<Rightarrow> (case ipv6 s of None \<Rightarrow> None
         | Some hs \<Rightarrow> Some (if mapped \<and> take 6 hs = [0, 0, 0, 0, 0, 0xFFFF] then hs ! 6 div 256 = 127
                           else hs = [0, 0, 0, 0, 0, 0, 0, 1])))"

section \<open>The listen address of the configuration\<close>

definition unquoted :: "string \<Rightarrow> string" where
  "unquoted s = strip_by (\<lambda>c. c = char_of (34 :: nat)) (strip s)"

definition listen_line :: "string \<Rightarrow> string \<Rightarrow> string" where
  "listen_line line listen = (case partition_at (CHR ''='') line of (key, val) \<Rightarrow>
     if strip key = ''listen_ip'' then unquoted val else listen)"

text \<open>\<open>True\<close> is the refusal; the allow-list is not looked at.\<close>

definition unsafe_exposure :: "bool \<Rightarrow> text_file \<Rightarrow> string \<Rightarrow> exn + bool" where
  "unsafe_exposure mapped config client_allow = (case config of
       None \<Rightarrow> Inr False
     | Some (ls, err) \<Rightarrow> (case err of
           Some e \<Rightarrow> if is_OSError e then Inr False else Inl e
         | None \<Rightarrow> (let listen = fold listen_line ls [] in
             if listen = [] then Inr False
             else let loopback = (case ip_is_loopback mapped listen of Some b \<Rightarrow> b | None \<Rightarrow> listen = ''localhost'')
                  in Inr (\<not> loopback))))"

section \<open>The kernel's socket tables\<close>

definition SOCKET_PREFIX :: string where "SOCKET_PREFIX = ''socket:[''"

definition socket_inodes :: "string option list \<Rightarrow> string list" where
  "socket_inodes links = concat (map (\<lambda>l. case l of None \<Rightarrow> []
     | Some target \<Rightarrow> if startswith target SOCKET_PREFIX then [butlast (drop (length SOCKET_PREFIX) target)] else []) links)"

text \<open>\<open>f"{port:04X}"\<close>\<close>

definition port_hex :: "nat \<Rightarrow> string" where
  "port_hex port = map hex_char [port div 4096, port div 256 mod 16, port div 16 mod 16, port mod 16]"

definition listen_row :: "string \<Rightarrow> string option \<Rightarrow> string list \<Rightarrow> string \<Rightarrow> bool" where
  "listen_row want_port loopback inodes line = (let cols = split_ws line in
     if length cols < 10 \<or> cols ! 3 \<noteq> ''0A'' then False
     else case rpartition_at (CHR '':'') (cols ! 1) of (addr, prt) \<Rightarrow>
       prt = want_port \<and> (case loopback of None \<Rightarrow> True | Some a \<Rightarrow> addr = a) \<and> cols ! 9 \<in> set inodes)"

text \<open>The header line is skipped; an \<open>OSError\<close> ends the reading of one table.\<close>

definition table_has :: "string \<Rightarrow> string option \<Rightarrow> string list \<Rightarrow> text_file \<Rightarrow> bool" where
  "table_has want_port loopback inodes table = (case table of None \<Rightarrow> False
     | Some (ls, err) \<Rightarrow> list_ex (listen_row want_port loopback inodes) (drop 1 ls))"

text \<open>\<open>links\<close>: the targets of \<open>/proc/self/fd\<close>, \<open>None\<close> when it cannot be listed.\<close>

definition own_listener :: "nat \<Rightarrow> string option list option \<Rightarrow> text_file \<Rightarrow> text_file \<Rightarrow> bool" where
  "own_listener port links tcp tcp6 = (case links of None \<Rightarrow> False
     | Some ls \<Rightarrow> (let inodes = socket_inodes ls in inodes \<noteq> [] \<and>
         (table_has (port_hex port) (Some ''0100007F'') inodes tcp \<or> table_has (port_hex port) None inodes tcp6)))"

section \<open>A dotted quad is refused exactly when it is not a loopback address\<close>

definition quad :: "nat list \<Rightarrow> string" where
  "quad os = join (CHR ''.'') (map show_nat os)"

lemma show_nat_hd: "0 < n \<Longrightarrow> hd (show_nat n) \<noteq> CHR ''0''"
proof (induction n rule: show_nat.induct)
  case (1 n)
  show ?case
  proof (cases "n < 10")
    case True
    with 1 have "code (digit_char n) \<noteq> 48" by (simp add: code_digit_char)
    with True show ?thesis by (auto simp: show_nat.simps [of n] code_def)
  next
    case False
    with 1 show ?thesis by (simp add: show_nat.simps [of n])
  qed
qed

lemma length_show_nat: "n < 1000 \<Longrightarrow> length (show_nat n) \<le> 3"
  by (simp add: show_nat.simps [of n] show_nat.simps [of "n div 10"] show_nat.simps [of "n div 10 div 10"])

lemma show_nat_0: "show_nat 0 = ''0''"
  by code_simp

lemma parse_octet_show:
  assumes "n < 256"
  shows "parse_octet (show_nat n) = Some (int n)"
proof -
  have "list_all (\<lambda>c. 48 \<le> code c \<and> code c \<le> 57) (show_nat n)" using show_nat_codes by (auto simp: list_all_iff)
  moreover have "length (show_nat n) \<le> 3" using assms by (intro length_show_nat) simp
  moreover have "\<not> (show_nat n \<noteq> ''0'' \<and> hd (show_nat n) = CHR ''0'')"
    using show_nat_hd [of n] by (cases n) (simp_all add: show_nat_0)
  ultimately show ?thesis using assms by (simp add: parse_octet_def digits_show_nat)
qed

lemma show_nat_avoids: "code c < 48 \<Longrightarrow> c \<notin> set (show_nat n)"
  using show_nat_codes [of c n] by auto

lemma quad_chars: "c \<in> set (quad os) \<Longrightarrow> code c = 46 \<or> 48 \<le> code c \<and> code c \<le> 57"
proof (induction os)
  case (Cons a os)
  then show ?case
    using show_nat_codes [of c a] by (cases os) (auto simp: quad_def code_def)
qed (simp add: quad_def)

lemma ipv4_quad:
  assumes "length os = 4" "\<forall>n \<in> set os. n < 256"
  shows "ipv4 (quad os) = Some (map int os)"
proof -
  have "split_at (CHR ''.'') (quad os) = map show_nat os"
    unfolding quad_def using assms(1) show_nat_avoids [of "CHR ''.''"] by (intro split_join) (auto simp: code_def)
  moreover have "CHR ''/'' \<notin> set (quad os)" using quad_chars [of "CHR ''/''" os] by (auto simp: code_def)
  moreover have "all_some (map parse_octet (map show_nat ns)) = Some (map int ns)" if "\<forall>n \<in> set ns. n < 256" for ns
    using that by (induction ns) (simp_all add: parse_octet_show)
  ultimately show ?thesis using assms by (simp add: ipv4_def)
qed

lemma unquoted_quad: "unquoted (CHR '' '' # quad os) = quad os"
proof -
  have "strip_by is_space (quad os) = quad os" "strip_by (\<lambda>c. c = char_of (34 :: nat)) (quad os) = quad os"
    by (rule strip_by_id, auto dest!: quad_chars simp: is_space_def Let_def)+
  then show ?thesis by (simp add: unquoted_def strip_def strip_by_def, simp add: is_space_def code_def)
qed

lemma fold_listen_other:
  "(\<And>l. l \<in> set ls \<Longrightarrow> strip (fst (partition_at (CHR ''='') l)) \<noteq> ''listen_ip'') \<Longrightarrow> fold listen_line ls listen = listen"
proof (induction ls)
  case (Cons l ls)
  then have "strip (fst (partition_at (CHR ''='') l)) \<noteq> ''listen_ip''" by simp
  then have "listen_line l listen = listen" by (simp add: listen_line_def case_prod_beta)
  with Cons show ?case by simp
qed simp

lemma listen_line_set: "listen_line (''listen_ip ='' @ val) listen = unquoted val"
proof -
  have "partition_at (CHR ''='') (''listen_ip ='' @ val) = (''listen_ip '', val)"
    using partition_at_append [of "CHR ''=''" "''listen_ip ''" val] by simp
  moreover have "strip ''listen_ip '' = ''listen_ip''" by code_simp
  ultimately show ?thesis by (simp add: listen_line_def)
qed

text \<open>
  A configuration whose last \<open>listen_ip\<close> is a dotted quad is refused exactly when the quad lies outside
  127.0.0.0/8, whatever else the file holds and whatever the allow-list says.
\<close>

theorem exposure_dotted_quad:
  assumes "length os = 4" "\<forall>n \<in> set os. n < 256"
    "\<And>l. l \<in> set post \<Longrightarrow> strip (fst (partition_at (CHR ''='') l)) \<noteq> ''listen_ip''"
  shows "unsafe_exposure mapped (Some (pre @ [''listen_ip = '' @ quad os] @ post, None)) client_allow = Inr (hd os \<noteq> 127)"
proof -
  obtain a b c d where os: "os = [a, b, c, d]" using assms(1) by (auto simp: length_Suc_conv numeral_eq_Suc)
  have "listen_line (''listen_ip = '' @ quad os) x = quad os" for x
    using listen_line_set [of "CHR '' '' # quad os" x] by (simp add: unquoted_quad)
  then have l: "fold listen_line (pre @ [''listen_ip = '' @ quad os] @ post) [] = quad os"
    using fold_listen_other [OF assms(3)] by simp
  have "quad os \<noteq> []" by (simp add: quad_def os)
  then show ?thesis
    unfolding unsafe_exposure_def option.case prod.case l Let_def
    by (simp add: ip_is_loopback_def ipv4_quad [OF assms(1,2)]) (simp add: os)
qed

theorem exposure_dotted_quad_witness:
  "unsafe_exposure False (Some ([''[[client]]''] @ [''listen_ip = '' @ quad [192, 168, 1, 7]] @ [''port = 4242''], None)) ''192.168.1.0/24'' = Inr True"
proof -
  have "strip (fst (partition_at (CHR ''='') ''port = 4242'')) \<noteq> ''listen_ip''" by code_simp
  then show ?thesis using exposure_dotted_quad [of "[192, 168, 1, 7]" "[''port = 4242'']" False "[''[[client]]'']" "''192.168.1.0/24''"] by simp
qed

text \<open>Names that only start like a loopback address are refused, the two loopback forms are not.\<close>

lemma exposure_examples:
  "unsafe_exposure False (Some ([''listen_ip = 127.0.0.1.evil.net''], None)) [] = Inr True"
  "unsafe_exposure False (Some ([''listen_ip = localhost.example''], None)) [] = Inr True"
  "unsafe_exposure False (Some ([''listen_ip = ::1''], None)) [] = Inr False"
  "unsafe_exposure False (Some ([''listen_ip = localhost''], None)) [] = Inr False"
  by code_simp+

section \<open>The listener check agrees with the socket table\<close>

lemma split_ws_word:
  assumes "w \<noteq> []" "\<And>c. c \<in> set w \<Longrightarrow> \<not> is_space c" "s = [] \<or> is_space (hd s)"
  shows "split_ws (w @ s) = w # split_ws s"
proof -
  obtain x xs where w: "w = x # xs" using assms(1) by (cases w) auto
  have "takeWhile (\<lambda>c. \<not> is_space c) (xs @ s) = xs" "dropWhile (\<lambda>c. \<not> is_space c) (xs @ s) = s"
    using assms(2,3) w by (cases s; induction xs; auto)+
  then show ?thesis using assms(2) by (simp add: w)
qed

definition row_text :: "string list \<Rightarrow> string" where
  "row_text cols = concat (map ((#) (CHR '' '')) cols)"

lemma split_ws_row:
  "(\<And>w. w \<in> set cols \<Longrightarrow> w \<noteq> [] \<and> (\<forall>c \<in> set w. \<not> is_space c)) \<Longrightarrow> split_ws (row_text cols) = cols"
proof (induction cols)
  case (Cons w cols)
  have sp: "is_space (CHR '' '')" by (simp add: is_space_def code_def)
  have "row_text cols = [] \<or> is_space (hd (row_text cols))" using sp by (cases cols) (auto simp: row_text_def)
  then have "split_ws (w @ row_text cols) = w # split_ws (row_text cols)" using Cons.prems by (intro split_ws_word) auto
  moreover have "split_ws (row_text cols) = cols" by (rule Cons.IH) (use Cons.prems in auto)
  ultimately show ?case using sp by (simp add: row_text_def)
qed (simp add: row_text_def)

text \<open>One socket of the kernel's table; \<open>others\<close> are the columns the check does not look at.\<close>

record sock =
  sk_addr :: string
  sk_port :: nat
  sk_state :: string
  sk_inode :: string
  sk_others :: "string list"

definition sock_cols :: "sock \<Rightarrow> string list" where
  "sock_cols k = [sk_others k ! 0, sk_addr k @ CHR '':'' # port_hex (sk_port k), sk_others k ! 1, sk_state k, sk_others k ! 2, sk_others k ! 3,
     sk_others k ! 4, sk_others k ! 5, sk_others k ! 6, sk_inode k] @ drop 7 (sk_others k)"

definition sock_ok :: "sock \<Rightarrow> bool" where
  "sock_ok k \<longleftrightarrow> sk_port k < 65536 \<and> 7 \<le> length (sk_others k) \<and>
     (\<forall>w \<in> set (sk_addr k # sk_state k # sk_inode k # sk_others k). w \<noteq> [] \<and> (\<forall>c \<in> set w. \<not> is_space c))"

lemma hex_char_eq [simp]: "a < 16 \<Longrightarrow> b < 16 \<Longrightarrow> hex_char a = hex_char b \<longleftrightarrow> a = b"
  by (metis digit_val_hex_char of_nat_eq_iff option.inject)

lemma port_hex_inj: "p < 65536 \<Longrightarrow> q < 65536 \<Longrightarrow> port_hex p = port_hex q \<longleftrightarrow> p = q"
proof -
  assume pq: "p < 65536" "q < 65536"
  have e: "n = n div 4096 * 4096 + n div 256 mod 16 * 256 + n div 16 mod 16 * 16 + n mod 16" for n :: nat
  proof -
    have "n div 256 div 16 = n div 4096" "n div 16 div 16 = n div 256" by (simp_all flip: div_mult2_eq)
    moreover have "n div 256 = n div 256 div 16 * 16 + n div 256 mod 16" "n div 16 = n div 16 div 16 * 16 + n div 16 mod 16"
      "n = n div 16 * 16 + n mod 16" by (simp_all only: div_mult_mod_eq)
    ultimately show ?thesis by linarith
  qed
  have "p div 4096 < 16" "q div 4096 < 16" using pq by auto
  then have "p div 4096 = q div 4096 \<and> p div 256 mod 16 = q div 256 mod 16 \<and> p div 16 mod 16 = q div 16 mod 16 \<and> p mod 16 = q mod 16"
    if "port_hex p = port_hex q" using that by (simp add: port_hex_def)
  then show ?thesis using e [of p] e [of q] by metis
qed

lemma port_hex_colon: "p < 65536 \<Longrightarrow> CHR '':'' \<notin> set (port_hex p)"
proof -
  assume "p < 65536"
  then have "p div 4096 < 16" by auto
  moreover have "hex_char d \<noteq> CHR '':''" if "d < 16" for d
    using code_hex_char [OF that] by (auto simp: code_def split: if_splits)
  ultimately show ?thesis by (auto simp: port_hex_def dest: sym)
qed

lemma port_hex_no_space: "p < 65536 \<Longrightarrow> c \<in> set (port_hex p) \<Longrightarrow> \<not> is_space c"
proof -
  assume "p < 65536" "c \<in> set (port_hex p)"
  then have "p div 4096 < 16" by auto
  with \<open>c \<in> set (port_hex p)\<close> show ?thesis by (auto simp: port_hex_def hex_not_space)
qed

lemma sock_words:
  assumes k: "sock_ok k" and w: "w \<in> set (sock_cols k)"
  shows "w \<noteq> [] \<and> (\<forall>c \<in> set w. \<not> is_space c)"
proof -
  have o: "sk_others k ! i \<in> set (sk_others k)" if "i < 7" for i using k that by (auto simp: sock_ok_def)
  have "w \<in> set (sk_others k) \<or> w \<in> {sk_state k, sk_inode k} \<or> w = sk_addr k @ CHR '':'' # port_hex (sk_port k)"
    using w o [of 0] o [of 1] o [of 2] o [of 3] o [of 4] o [of 5] o [of 6]
    unfolding sock_cols_def by (auto dest: in_set_dropD)
  moreover have "\<not> is_space (CHR '':'')" by (simp add: is_space_def code_def)
  moreover have "sk_port k < 65536" using k by (simp add: sock_ok_def)
  ultimately show ?thesis using k port_hex_no_space by (auto simp: sock_ok_def)
qed

lemma listen_row_sock:
  assumes "sock_ok k" "port < 65536"
  shows "listen_row (port_hex port) loopback inodes (row_text (sock_cols k)) \<longleftrightarrow>
    sk_state k = ''0A'' \<and> sk_port k = port \<and> (case loopback of None \<Rightarrow> True | Some a \<Rightarrow> sk_addr k = a) \<and> sk_inode k \<in> set inodes"
proof -
  have c: "split_ws (row_text (sock_cols k)) = sock_cols k" by (rule split_ws_row) (rule sock_words [OF assms(1)])
  have r: "rpartition_at (CHR '':'') (sk_addr k @ CHR '':'' # port_hex (sk_port k)) = (sk_addr k, port_hex (sk_port k))"
    using assms(1) by (intro rpartition_at_append port_hex_colon) (simp add: sock_ok_def)
  have "sk_port k < 65536" using assms(1) by (simp add: sock_ok_def)
  then have p: "port_hex (sk_port k) = port_hex port \<longleftrightarrow> sk_port k = port" using assms(2) by (rule port_hex_inj)
  show ?thesis by (simp add: listen_row_def Let_def c) (simp add: sock_cols_def r p)
qed


definition bench_sock :: sock where
  "bench_sock = \<lparr>sk_addr = ''0100007F'', sk_port = 4242, sk_state = ''0A'', sk_inode = ''777'', sk_others = replicate 7 ''0''\<rparr>"


end
