(* ===== verification/Node.thy ===== *)
theory Node
  imports Exposure
begin

text \<open>
  \<open>loraham-rns-node\<close> of \<open>loraham_rns/node.py\<close>: the runner that declares itself ready only as the
  owner of the shared instance, with the named interface online and the client listener its own,
  and that ends when the radio fails. Reticulum, its interface objects, the file system and the
  signals that arrive in a call are parameters. The arguments are given parsed; log messages are
  not modelled, except that the call announcing readiness can be interrupted.
\<close>

section \<open>State\<close>

definition EXIT_OK :: int where "EXIT_OK = 0"
definition EXIT_NOT_OWNER :: int where "EXIT_NOT_OWNER = 3"
definition EXIT_NO_INTERFACE :: int where "EXIT_NO_INTERFACE = 4"
definition EXIT_RADIO_FATAL :: int where "EXIT_RADIO_FATAL = 5"
definition EXIT_UNSAFE_EXPOSURE :: int where "EXIT_UNSAFE_EXPOSURE = 6"
definition EXIT_NO_CLIENT_PORT :: int where "EXIT_NO_CLIENT_PORT = 7"
definition CLIENT_ACCESS_PORT :: nat where "CLIENT_ACCESS_PORT = 4242"
definition CHECK_INTERVAL_S :: real where "CHECK_INTERVAL_S = 2"

lemmas exit_codes = EXIT_OK_def EXIT_NOT_OWNER_def EXIT_NO_INTERFACE_def EXIT_RADIO_FATAL_def EXIT_UNSAFE_EXPOSURE_def
  EXIT_NO_CLIENT_PORT_def

text \<open>
  Interfaces are objects, here numbers; \<open>reticulum_p\<close> constructs the instance and tells whether it
  is connected to a foreign one and whether it fell back to standalone. \<open>nap_p\<close> is a sleep, which
  a signal handler may end with an exception.
\<close>

record 'd node_platform = "'d platform" +
  mapped_p :: bool
  unlink_p :: "'d \<Rightarrow> errno option \<times> 'd"
  config_p :: "'d \<Rightarrow> text_file \<times> 'd"
  reticulum_p :: "'d \<Rightarrow> (exn + bool \<times> bool) \<times> 'd"
  interfaces_p :: "'d \<Rightarrow> (nat \<times> string option) list \<times> 'd"
  online_p :: "nat \<Rightarrow> 'd \<Rightarrow> bool \<times> 'd"
  fatal_p :: "nat \<Rightarrow> 'd \<Rightarrow> bool \<times> 'd"
  sockets_p :: "'d \<Rightarrow> (string option list option \<times> text_file \<times> text_file) \<times> 'd"
  write_ready_p :: "'d \<Rightarrow> exn option \<times> 'd"
  replace_ready_p :: "'d \<Rightarrow> exn option \<times> 'd"
  ready_log_p :: "'d \<Rightarrow> exn option \<times> 'd"
  nap_p :: "real \<Rightarrow> 'd \<Rightarrow> exn option \<times> 'd"

text \<open>What the run has established so far, in order.\<close>

datatype node_event = Owner | Online nat | Listening | Ready

text \<open>\<open>marker\<close>: a file stands at the readiness path; \<open>cur\<close> is the local \<open>iface\<close>.\<close>

record 'd node = "'d world" +
  marker :: bool
  seen :: "node_event list"
  cur :: "nat option"

record node_args =
  a_interface :: string
  a_timeout :: real
  a_ready :: string
  a_allow :: string

definition note_event :: "node_event \<Rightarrow> ('d node, unit) py" where
  "note_event e = modM (\<lambda>s. s\<lparr>seen := seen s @ [e]\<rparr>)"

section \<open>The readiness marker\<close>

definition unlink_ready :: "('d, 'y) node_platform_scheme \<Rightarrow> ('d node, unit) py" where
  "unlink_ready E = bindM (getM marker) (\<lambda>m. bindM (askM (unlink_p E)) (\<lambda>err. case err of
       Some e \<Rightarrow> raise (OSError e)
     | None \<Rightarrow> if m then modM (\<lambda>s. s\<lparr>marker := False\<rparr>) else raise (OSError ENOENT)))"

definition clear_ready :: "('d, 'y) node_platform_scheme \<Rightarrow> string \<Rightarrow> ('d node, unit) py" where
  "clear_ready E path = (if path = [] then ret () else try_except (unlink_ready E) (\<lambda>e.
     if e = OSError ENOENT then ret () else if is_OSError e then raise (SystemExit 1) else raise e))"

definition set_ready :: "('d, 'y) node_platform_scheme \<Rightarrow> string \<Rightarrow> ('d node, unit) py" where
  "set_ready E path = (if path = [] then ret ()
     else seqM [callM (write_ready_p E), callM (replace_ready_p E), modM (\<lambda>s. s\<lparr>marker := True\<rparr>), note_event Ready])"

section \<open>The listener and the interface\<close>

definition own_listener_now :: "('d, 'y) node_platform_scheme \<Rightarrow> nat \<Rightarrow> ('d node, bool) py" where
  "own_listener_now E port = bindM (askM (sockets_p E)) (\<lambda>(links, tcp, tcp6). ret (own_listener port links tcp tcp6))"

definition wait_own_listener :: "('d, 'y) node_platform_scheme \<Rightarrow> nat \<Rightarrow> real \<Rightarrow> ('d node, bool) py" where
  "wait_own_listener E port timeout = bindM (timeM E) (\<lambda>start. loopM (bindM (timeM E) (\<lambda>now.
     if \<not> now < start + timeout then ret (Some False)
     else bindM (own_listener_now E port) (\<lambda>own. if own then ret (Some True) else thenM (callM (nap_p E 0.2)) (ret None)))))"

definition find_iface :: "string \<Rightarrow> (nat \<times> string option) list \<Rightarrow> nat option" where
  "find_iface name ifaces = map_option fst (find (\<lambda>(i, n). n = Some name) ifaces)"

definition await_round :: "('d, 'y) node_platform_scheme \<Rightarrow> string \<Rightarrow> ('d node, unit option) py" where
  "await_round E name = bindM (askM (interfaces_p E)) (\<lambda>ifaces. thenM (modM (\<lambda>s. s\<lparr>cur := find_iface name ifaces\<rparr>))
     (case find_iface name ifaces of
        None \<Rightarrow> thenM (callM (nap_p E 0.25)) (ret None)
      | Some i \<Rightarrow> bindM (askM (online_p E i)) (\<lambda>on. if on then ret (Some ())
          else bindM (askM (fatal_p E i)) (\<lambda>f. if f then ret (Some ()) else thenM (callM (nap_p E 0.25)) (ret None)))))"

definition await_interface :: "('d, 'y) node_platform_scheme \<Rightarrow> string \<Rightarrow> real \<Rightarrow> ('d node, unit) py" where
  "await_interface E name timeout = bindM (monotonicM E) (\<lambda>start. thenM (modM (\<lambda>s. s\<lparr>cur := None\<rparr>))
     (loopM (bindM (monotonicM E) (\<lambda>now. if \<not> now < start + timeout then ret (Some ()) else await_round E name))))"

section \<open>The run\<close>

definition monitor_round :: "('d, 'y) node_platform_scheme \<Rightarrow> nat \<Rightarrow> ('d node, int option) py" where
  "monitor_round E i = thenM (callM (nap_p E CHECK_INTERVAL_S)) (bindM (askM (fatal_p E i)) (\<lambda>f.
     if f then ret (Some EXIT_RADIO_FATAL)
     else bindM (askM (online_p E i)) (\<lambda>on. if \<not> on then ret (Some EXIT_RADIO_FATAL) else ret None)))"

definition stay_up :: "('d, 'y) node_platform_scheme \<Rightarrow> string \<Rightarrow> nat \<Rightarrow> ('d node, int) py" where
  "stay_up E path i = try_finally (try_except (loopM (monitor_round E i))
     (\<lambda>e. if e = KeyboardInterrupt then ret EXIT_OK else raise e)) (clear_ready E path)"

definition serve :: "('d, 'y) node_platform_scheme \<Rightarrow> string \<Rightarrow> nat \<Rightarrow> ('d node, int) py" where
  "serve E path i = thenM (note_event (Online i)) (bindM (wait_own_listener E CLIENT_ACCESS_PORT 5) (\<lambda>own.
     if \<not> own then ret EXIT_NO_CLIENT_PORT
     else thenM (note_event Listening) (thenM (set_ready E path) (thenM (callM (ready_log_p E)) (stay_up E path i)))))"

definition run_owner :: "('d, 'y) node_platform_scheme \<Rightarrow> node_args \<Rightarrow> ('d node, int) py" where
  "run_owner E a = thenM (note_event Owner) (thenM (await_interface E (a_interface a) (a_timeout a)) (bindM (getM cur) (\<lambda>i. case i of
       None \<Rightarrow> ret EXIT_NO_INTERFACE
     | Some i \<Rightarrow> bindM (askM (online_p E i)) (\<lambda>on. if \<not> on then ret EXIT_NO_INTERFACE else serve E (a_ready a) i))))"

definition node_main :: "('d, 'y) node_platform_scheme \<Rightarrow> node_args \<Rightarrow> ('d node, int) py" where
  "node_main E a = thenM (clear_ready E (a_ready a)) (bindM (askM (config_p E)) (\<lambda>config.
     bindM (ofE (unsafe_exposure (mapped_p E) config (a_allow a))) (\<lambda>unsafe. if unsafe then ret EXIT_UNSAFE_EXPOSURE
       else bindM (askE (reticulum_p E)) (\<lambda>(connected, standalone). if connected then ret EXIT_NOT_OWNER
         else if standalone then ret EXIT_NOT_OWNER else run_owner E a))))"

section \<open>What the marker and the exit code mean\<close>

text \<open>\<open>unlink\<close> reports a missing file only when there is none.\<close>

definition honest :: "('d, 'y) node_platform_scheme \<Rightarrow> bool" where
  "honest E \<longleftrightarrow> (\<forall>d. fst (unlink_p E d) \<noteq> Some ENOENT)"

definition stands :: "bool \<Rightarrow> node_event list \<Rightarrow> 'd node \<Rightarrow> bool" where
  "stands m l s \<longleftrightarrow> marker s = m \<and> seen s = l"

lemma stands_updates [simp]:
  "stands m l (s\<lparr>dev := d\<rparr>) = stands m l s" "stands m l (s\<lparr>cur := c\<rparr>) = stands m l s"
  "stands m l (s\<lparr>marker := m'\<rparr>) \<longleftrightarrow> m' = m \<and> seen s = l" "stands m l (s\<lparr>seen := l'\<rparr>) \<longleftrightarrow> marker s = m \<and> l' = l"
  by (auto simp: stands_def)

lemma stands_free: "dev_free (stands m l)"
  by (simp add: dev_free_def)

lemma keeps_quiet:
  "keeps (stands m l) (wait_own_listener E port t)" "keeps (stands m l) (await_interface E name t')"
  "keeps (stands m l) (loopM (monitor_round E i))"
  unfolding wait_own_listener_def own_listener_now_def await_interface_def await_round_def monitor_round_def
  by (intro keeps_rules keeps_callM stands_free; simp)+

lemma wp_clear:
  assumes "honest E" "path \<noteq> []" "stands m l s"
  shows "wp (clear_ready E path) (\<lambda>_. stands False l) (\<lambda>_. stands m l) s"
  using assms by (auto simp: clear_ready_def unlink_ready_def honest_def stands_def split: option.split)

lemma wp_stay_up:
  assumes "honest E" "path \<noteq> []" "stands True l s"
  shows "wp (stay_up E path i) (\<lambda>c t. stands False l t \<and> c \<in> {EXIT_OK, EXIT_RADIO_FATAL})
    (\<lambda>_ t. \<exists>m. stands m l t) s"
proof -
  have loop: "wp (loopM (monitor_round E i)) (\<lambda>c t. stands True l t \<and> c = EXIT_RADIO_FATAL) (\<lambda>_. stands True l) s"
  proof (rule wpI)
    fix c t assume r: "loopM (monitor_round E i) s = Some (Inr c, t)"
    then have "\<exists>u. monitor_round E i u = Some (Inr (Some c), t)"
      using loopM_partial [OF r, where I = "\<lambda>_. True"] by auto
    then have "c = EXIT_RADIO_FATAL" by (auto simp: monitor_round_def py_Some_iffs ret_def split: if_splits)
    with keepsD [OF keeps_quiet(3) assms(3) r] show "stands True l t \<and> c = EXIT_RADIO_FATAL" by simp
  qed (rule keepsD [OF keeps_quiet(3) assms(3)])
  have clear: "wp (clear_ready E path) (\<lambda>_. stands False l) (\<lambda>_ t. \<exists>m. stands m l t) t" if "stands True l t" for t
    by (rule wp_mono [OF wp_clear [OF assms(1,2) that]]) auto
  have clear': "wp (clear_ready E path) (\<lambda>_ t. \<exists>m. stands m l t) (\<lambda>_ t. \<exists>m. stands m l t) t" if "stands True l t" for t
    by (rule wp_mono [OF clear [OF that]]) auto
  show ?thesis
    unfolding stay_up_def wp_try_finally wp_try_except
    by (rule wp_mono [OF loop]) (auto intro!: clear clear')
qed

text \<open>The run got as far as \<open>l\<close> and no further.\<close>

definition exit_means :: "int \<Rightarrow> node_event list \<Rightarrow> bool" where
  "exit_means c l \<longleftrightarrow> (if c = EXIT_UNSAFE_EXPOSURE \<or> c = EXIT_NOT_OWNER then l = []
     else if c = EXIT_NO_INTERFACE then l = [Owner]
     else if c = EXIT_NO_CLIENT_PORT then \<exists>i. l = [Owner, Online i]
     else (c = EXIT_OK \<or> c = EXIT_RADIO_FATAL) \<and> (\<exists>i. l = [Owner, Online i, Listening, Ready]))"

lemma exit_means_simps [simp]:
  "exit_means EXIT_UNSAFE_EXPOSURE []" "exit_means EXIT_NOT_OWNER []" "exit_means EXIT_NO_INTERFACE [Owner]"
  "exit_means EXIT_NO_CLIENT_PORT [Owner, Online i]"
  by (simp_all add: exit_means_def exit_codes)

definition on_the_way :: "node_event list \<Rightarrow> bool" where
  "on_the_way l \<longleftrightarrow> (\<exists>i n. l = take n [Owner, Online i, Listening, Ready])"

lemma on_the_wayI:
  "on_the_way []" "on_the_way [Owner]" "on_the_way [Owner, Online i]" "on_the_way [Owner, Online i, Listening]"
  "on_the_way [Owner, Online i, Listening, Ready]"
proof -
  have *: "on_the_way (take n [Owner, Online i, Listening, Ready])" for n by (auto simp: on_the_way_def)
  show "on_the_way []" "on_the_way [Owner]" "on_the_way [Owner, Online i]" "on_the_way [Owner, Online i, Listening]"
    "on_the_way [Owner, Online i, Listening, Ready]"
    using * [of 0] * [of 1] * [of 2] * [of 3] * [of 4] by (simp_all add: numeral_eq_Suc)
qed

text \<open>A marker is there only when the run got to declare itself ready.\<close>

definition run_left :: "'d node \<Rightarrow> bool" where
  "run_left t \<longleftrightarrow> on_the_way (seen t) \<and> (marker t \<longrightarrow> (\<exists>i. seen t = [Owner, Online i, Listening] \<or> seen t = [Owner, Online i, Listening, Ready]))"

lemma run_leftI: "stands False l t \<Longrightarrow> on_the_way l \<Longrightarrow> run_left t"
  "stands m [Owner, Online i, Listening, Ready] t \<Longrightarrow> run_left t"
  by (auto simp: run_left_def stands_def intro: on_the_wayI)

lemma wp_serve:
  assumes "honest E" "path \<noteq> []" "stands False [Owner] s"
  shows "wp (serve E path i) (\<lambda>c t. \<not> marker t \<and> exit_means c (seen t)) (\<lambda>_. run_left) s"
proof -
  let ?ready = "[Owner, Online i, Listening, Ready]"
  have up: "wp (stay_up E path i) (\<lambda>c t. \<not> marker t \<and> exit_means c (seen t)) (\<lambda>_. run_left) u" if "stands True ?ready u" for u
    by (rule wp_mono [OF wp_stay_up [OF assms(1,2) that]])
      (auto simp: stands_def exit_means_def exit_codes intro: run_leftI(2) [unfolded stands_def])
  have ready: "wp (thenM (set_ready E path) (thenM (callM (ready_log_p E)) (stay_up E path i)))
      (\<lambda>c t. \<not> marker t \<and> exit_means c (seen t)) (\<lambda>_. run_left) u" if "stands False [Owner, Online i, Listening] u" for u
    using assms(2) that
    by (auto simp: set_ready_def note_event_def stands_def run_left_def on_the_wayI intro!: wp_callM up)
  have wait: "wp (wait_own_listener E CLIENT_ACCESS_PORT 5) (\<lambda>_. stands False [Owner, Online i]) (\<lambda>_. stands False [Owner, Online i]) u"
    if "stands False [Owner, Online i] u" for u
    using keeps_quiet(1) that unfolding keeps_wp by blast
  have rest: "wp (if \<not> own then ret EXIT_NO_CLIENT_PORT
     else thenM (note_event Listening) (thenM (set_ready E path) (thenM (callM (ready_log_p E)) (stay_up E path i))))
     (\<lambda>c t. \<not> marker t \<and> exit_means c (seen t)) (\<lambda>_. run_left) u" if "stands False [Owner, Online i] u" for own u
  proof (cases own)
    case True
    have "wp (thenM (set_ready E path) (thenM (callM (ready_log_p E)) (stay_up E path i)))
      (\<lambda>c t. \<not> marker t \<and> exit_means c (seen t)) (\<lambda>_. run_left) (u\<lparr>seen := seen u @ [Listening]\<rparr>)"
      by (rule ready) (use that in \<open>simp add: stands_def\<close>)
    with True show ?thesis by (simp only: not_True_eq_False if_False note_event_def wp_thenM wp_modM)
  next
    case False
    with that show ?thesis by (simp add: stands_def)
  qed
  have "wp (bindM (wait_own_listener E CLIENT_ACCESS_PORT 5) (\<lambda>own. if \<not> own then ret EXIT_NO_CLIENT_PORT
     else thenM (note_event Listening) (thenM (set_ready E path) (thenM (callM (ready_log_p E)) (stay_up E path i)))))
     (\<lambda>c t. \<not> marker t \<and> exit_means c (seen t)) (\<lambda>_. run_left) (s\<lparr>seen := seen s @ [Online i]\<rparr>)"
    unfolding wp_bindM
  proof (rule wp_mono [OF wait])
    show "stands False [Owner, Online i] (s\<lparr>seen := seen s @ [Online i]\<rparr>)" using assms(3) by (simp add: stands_def)
  qed (use rest in \<open>auto simp: stands_def run_left_def on_the_wayI\<close>)
  then show ?thesis by (simp only: serve_def wp_thenM wp_modM note_event_def)
qed


section \<open>The run ends\<close>

text \<open>
  A platform with a clock: both clocks read it, no call turns it back and a sleep advances it by
  what was asked for, also when a signal ends it with an exception.
\<close>

definition node_live :: "('d, 'y) node_platform_scheme \<Rightarrow> ('d \<Rightarrow> real) \<Rightarrow> bool" where
  "node_live E clk \<longleftrightarrow> (\<forall>t d. clk d + t \<le> clk (snd (nap_p E t d))) \<and>
     (\<forall>d. fst (monotonic_p E d) = clk d \<and> fst (time_p E d) = clk d) \<and>
     (\<forall>d. clk d \<le> clk (snd (monotonic_p E d)) \<and> clk d \<le> clk (snd (time_p E d)) \<and> clk d \<le> clk (snd (interfaces_p E d)) \<and>
       clk d \<le> clk (snd (sockets_p E d))) \<and>
     (\<forall>i d. clk d \<le> clk (snd (online_p E i d)) \<and> clk d \<le> clk (snd (fatal_p E i d)))"

lemma liveD:
  assumes "node_live E clk"
  shows "clk d + t \<le> clk (snd (nap_p E t d))" "fst (monotonic_p E d) = clk d" "fst (time_p E d) = clk d"
    "clk d \<le> clk (snd (monotonic_p E d))" "clk d \<le> clk (snd (time_p E d))" "clk d \<le> clk (snd (interfaces_p E d))"
    "clk d \<le> clk (snd (sockets_p E d))" "clk d \<le> clk (snd (online_p E i d))" "clk d \<le> clk (snd (fatal_p E i d))"
  using assms by (simp_all add: node_live_def)

lemma callM_ends: "\<exists>r. callM q s = Some (r, s\<lparr>dev := snd (q (dev s))\<rparr>)"
  by (simp add: callM_def bindM_def ret_def raise_def split: option.split)

lemma tkeeps_callM [tkeeps_rules]: "dev_free I \<Longrightarrow> tkeeps I (callM q)"
proof -
  assume "dev_free I"
  then have "\<exists>r t. callM q s = Some (r, t) \<and> I t" if "I s" for s
    using callM_ends [of q s] dev_freeD [of I s "snd (q (dev s))"] that by auto
  then show ?thesis by (simp add: tkeeps_def)
qed

abbreviation anyhow :: "'d node \<Rightarrow> bool" where
  "anyhow \<equiv> \<lambda>_. True"

lemma tkeeps_ask: "tkeeps anyhow (askM q)"
  by (simp add: tkeeps_def)

text \<open>After a sleep of at least a fifth of a second the loop goes round again.\<close>

lemma nap_round:
  assumes "node_live E clk" "clk d0 \<le> clk (dev s)" "1 / 5 \<le> q"
  shows "\<exists>r t. thenM (callM (nap_p E q)) (ret None) s = Some (r, t) \<and> clk d0 + 1 / 5 \<le> clk (dev t)"
proof -
  obtain r where "callM (nap_p E q) s = Some (r, s\<lparr>dev := snd (nap_p E q (dev s))\<rparr>)" using callM_ends by blast
  moreover have "clk d0 + 1 / 5 \<le> clk (snd (nap_p E q (dev s)))"
    using liveD(1) [OF assms(1), of "dev s" q] assms(2,3) by linarith
  ultimately show ?thesis by (cases r) (auto simp: thenM_def bindM_def ret_def)
qed

lemma tkeeps_wait:
  assumes "node_live E clk"
  shows "tkeeps anyhow (wait_own_listener E port timeout)"
proof -
  have loop: "tkeeps anyhow (loopM (bindM (timeM E) (\<lambda>now. if \<not> now < deadline then ret (Some False)
     else bindM (own_listener_now E port) (\<lambda>own. if own then ret (Some True) else thenM (callM (nap_p E 0.2)) (ret None)))))"
    for deadline
  proof (rule tkeeps_deadline [where clk = clk and q = "1 / 5" and deadline = deadline])
    fix s :: "'a node"
    let ?d = "snd (sockets_p E (snd (time_p E (dev s))))"
    have "clk (dev s) \<le> clk ?d" using liveD(5) [OF assms, of "dev s"] liveD(7) [OF assms, of "snd (time_p E (dev s))"] by linarith
    then obtain r :: "exn + bool option" and t where n: "thenM (callM (nap_p E 0.2)) (ret None) (s\<lparr>dev := ?d\<rparr>) = Some (r, t)" "clk (dev s) + 1 / 5 \<le> clk (dev t)"
      using nap_round [OF assms, of "dev s" "s\<lparr>dev := ?d\<rparr>" "0.2"] by auto
    then show "\<exists>r t. bindM (timeM E) (\<lambda>now. if \<not> now < deadline then ret (Some False)
        else bindM (own_listener_now E port) (\<lambda>own. if own then ret (Some True) else thenM (callM (nap_p E 0.2)) (ret None))) s = Some (r, t) \<and>
        True \<and> (r = Inr None \<longrightarrow> clk (dev s) < deadline \<and> clk (dev s) + 1 / 5 \<le> clk (dev t))"
      by (simp add: timeM_def own_listener_now_def bindM_def ret_def liveD(3) [OF assms] split: prod.split)
  qed simp
  show ?thesis unfolding wait_own_listener_def timeM_def by (intro tkeeps_rules tkeeps_ask loop [unfolded timeM_def])
qed

lemma await_round_ends:
  assumes "node_live E clk" "clk d0 \<le> clk (dev s)"
  shows "\<exists>r t. await_round E name s = Some (r, t) \<and> (r = Inr None \<longrightarrow> clk d0 + 1 / 5 \<le> clk (dev t))"
proof -
  let ?d = "snd (interfaces_p E (dev s))" and ?i = "find_iface name (fst (interfaces_p E (dev s)))"
  let ?s = "s\<lparr>dev := ?d, cur := ?i\<rparr>"
  have d: "clk d0 \<le> clk ?d" using liveD(6) [OF assms(1), of "dev s"] assms(2) by linarith
  show ?thesis
  proof (cases ?i)
    case None
    with nap_round [OF assms(1), of d0 ?s "0.25"] d show ?thesis
      by (auto simp: await_round_def bindM_def thenM_modM)
  next
    case (Some i)
    let ?o = "snd (online_p E i ?d)"
    have "clk d0 \<le> clk (snd (fatal_p E i ?o))"
      using d liveD(8) [OF assms(1), of ?d i] liveD(9) [OF assms(1), of ?o i] by linarith
    with Some nap_round [OF assms(1), of d0 "?s\<lparr>dev := snd (fatal_p E i ?o)\<rparr>" "0.25"] show ?thesis
      by (auto simp: await_round_def bindM_def thenM_modM ret_def)
  qed
qed

lemma tkeeps_await:
  assumes "node_live E clk"
  shows "tkeeps anyhow (await_interface E name timeout)"
proof -
  have loop: "tkeeps anyhow (loopM (bindM (monotonicM E) (\<lambda>now. if \<not> now < deadline then ret (Some ()) else await_round E name)))" for deadline
  proof (rule tkeeps_deadline [where clk = clk and q = "1 / 5" and deadline = deadline])
    fix s :: "'a node"
    obtain r t where "await_round E name (s\<lparr>dev := snd (monotonic_p E (dev s))\<rparr>) = Some (r, t)" "r = Inr None \<longrightarrow> clk (dev s) + 1 / 5 \<le> clk (dev t)"
      using await_round_ends [OF assms, of "dev s" "s\<lparr>dev := snd (monotonic_p E (dev s))\<rparr>" name] liveD(4) [OF assms, of "dev s"] by auto
    then show "\<exists>r t. bindM (monotonicM E) (\<lambda>now. if \<not> now < deadline then ret (Some ()) else await_round E name) s = Some (r, t) \<and>
        True \<and> (r = Inr None \<longrightarrow> clk (dev s) < deadline \<and> clk (dev s) + 1 / 5 \<le> clk (dev t))"
      by (simp add: monotonicM_def bindM_def ret_def liveD(2) [OF assms])
  qed simp
  show ?thesis
    unfolding await_interface_def by (intro tkeeps_rules loop) (auto simp: monotonicM_def intro: tkeeps_ask)
qed

lemma tkeeps_monitor:
  assumes "node_live E clk" "\<And>d. T \<le> clk d \<Longrightarrow> fst (fatal_p E i d)"
  shows "tkeeps anyhow (loopM (monitor_round E i))"
proof (rule tkeeps_deadline [where clk = clk and q = 2 and deadline = T])
  fix s :: "'a node"
  let ?n = "snd (nap_p E CHECK_INTERVAL_S (dev s))" and ?f = "snd (fatal_p E i (snd (nap_p E CHECK_INTERVAL_S (dev s))))"
  have n: "clk (dev s) + 2 \<le> clk ?n" using liveD(1) [OF assms(1), of "dev s" CHECK_INTERVAL_S] by (simp add: CHECK_INTERVAL_S_def)
  have o: "clk (dev s) + 2 \<le> clk (snd (online_p E i ?f))"
    using n liveD(9) [OF assms(1), of ?n i] liveD(8) [OF assms(1), of ?f i] by linarith
  have "\<not> fst (fatal_p E i ?n) \<longrightarrow> clk (dev s) < T" using assms(2) [of ?n] n by fastforce
  with o show "\<exists>r t. monitor_round E i s = Some (r, t) \<and> True \<and> (r = Inr None \<longrightarrow> clk (dev s) < T \<and> clk (dev s) + 2 \<le> clk (dev t))"
    by (auto simp: monitor_round_def callM_def thenM_def bindM_def ret_def raise_def split: option.split)
qed simp

text \<open>
  C27. Once the radio has failed for good, the run ends: whatever else happens, the runner does not stay up on a platform
  whose clock advances when every interface is fatal from some time on.
\<close>

theorem radio_failure_ends_node:
  assumes "node_live E clk" "\<And>i d. T \<le> clk d \<Longrightarrow> fst (fatal_p E i d)"
  shows "\<exists>r t. node_main E a s = Some (r, t)"
proof -
  have clear: "tkeeps anyhow (clear_ready E path)" for path
    unfolding clear_ready_def unlink_ready_def by (auto intro!: tkeeps_rules tkeeps_ask split: option.split)
  have "tkeeps anyhow (serve E path i)" for path i
    unfolding serve_def stay_up_def set_ready_def note_event_def
    by (auto intro!: tkeeps_rules tkeeps_ask tkeeps_wait [OF assms(1)] tkeeps_monitor [OF assms] clear simp: dev_free_def)
  then have "tkeeps anyhow (node_main E a)"
    unfolding node_main_def run_owner_def note_event_def askE_def
    by (auto intro!: tkeeps_rules tkeeps_ask tkeeps_await [OF assms(1)] clear split: option.split prod.split)
  from tkeepsD [OF this, of s] show ?thesis by auto
qed

section \<open>A signal before the cleanup is armed\<close>

text \<open>
  The scenario of the tests: a bench whose state is the time and whose radio, interface 7, is fatal
  from time 100 on; \<open>sig\<close> is what the log call after readiness raises.
\<close>

definition node_bench :: "exn option \<Rightarrow> real node_platform" where
  "node_bench sig = \<lparr>os_call_p = (\<lambda>_ d. (None, d)), os_write_p = (\<lambda>n d. (n, d)), time_p = (\<lambda>d. (d, d)),
     monotonic_p = (\<lambda>d. (d, d)), sleep_p = (\<lambda>_ d. (False, d)), random_p = (\<lambda>d. (0, d)), boot_id_p = [], lock_dir_p = (\<lambda>_. None),
     cs_gpios_p = (\<lambda>_. None), cs_gpios_size_p = (\<lambda>_ _. None), spi_open_p = (\<lambda>_ _ d. (True, d)), no_cs_p = (\<lambda>d. (Inr True, d)),
     spi_xfer2_p = (\<lambda>_ d. (None, d)), line_set_p = (\<lambda>_ _ d. (True, d)), line_get_p = (\<lambda>_ d. (None, d)),
     line_request_p = (\<lambda>_ d. (True, d)), edge_wait_p = (\<lambda>_ d. (None, d)), mapped_p = False, unlink_p = (\<lambda>d. (None, d)),
     config_p = (\<lambda>d. (None, d)), reticulum_p = (\<lambda>d. (Inr (False, False), d)), interfaces_p = (\<lambda>d. ([(7, Some ''LoRa'')], d)),
     online_p = (\<lambda>_ d. (True, d)), fatal_p = (\<lambda>_ d. (100 \<le> d, d)),
     sockets_p = (\<lambda>d. ((Some [Some ''socket:[777]''], Some (''header'' # map (row_text \<circ> sock_cols) [bench_sock], None), None), d)),
     write_ready_p = (\<lambda>d. (None, d)), replace_ready_p = (\<lambda>d. (None, d)), ready_log_p = (\<lambda>d. (sig, d)), nap_p = (\<lambda>t d. (None, d + t))\<rparr>"

definition bench_args :: node_args where
  "bench_args = \<lparr>a_interface = ''LoRa'', a_timeout = 30, a_ready = ''/run/ready'', a_allow = ''127.0.0.1''\<rparr>"

definition bench_node :: "real node" where
  "bench_node = \<lparr>dev = 99, marker = True, seen = [], cur = None\<rparr>"

lemma bench_owns: "own_listener 4242 (Some [Some ''socket:[777]'']) (Some (''header'' # map (row_text \<circ> sock_cols) [bench_sock], None)) None"
proof -
  have "sock_ok bench_sock" by (simp add: sock_ok_def bench_sock_def is_space_def code_def)
  moreover have "''777'' \<in> set (socket_inodes [Some ''socket:[777]''])" by code_simp
  ultimately have "listen_row (port_hex 4242) (Some ''0100007F'') (socket_inodes [Some ''socket:[777]'']) (row_text (sock_cols bench_sock))"
    by (simp add: listen_row_sock) (simp add: bench_sock_def)
  moreover from \<open>''777'' \<in> _\<close> have "socket_inodes [Some ''socket:[777]''] \<noteq> []" by auto
  ultimately show ?thesis by (simp add: own_listener_def table_has_def Let_def)
qed

lemmas node_run = node_main_def clear_ready_def unlink_ready_def unsafe_exposure_def run_owner_def note_event_def
  await_interface_def await_round_def find_iface_def loopM.simps timeM_def monotonicM_def serve_def wait_own_listener_def own_listener_now_def
  set_ready_def callM_def askE_def py_defs node_bench_def bench_args_def bench_node_def bench_owns [simplified] CLIENT_ACCESS_PORT_def

text \<open>
  The handler that turns \<open>SIGTERM\<close> into \<open>SystemExit\<close> is installed before the marker is written, and the block that
  removes the marker begins only after the log call that follows: a signal that arrives in that call
  ends the run with exit code 0 and leaves the marker of a dead node behind.
\<close>

theorem marker_survives_early_signal:
  "\<exists>t. node_main (node_bench (Some (SystemExit 0))) bench_args bench_node = Some (Inl (SystemExit 0), t) \<and> marker t"
  by (simp add: node_run)

section \<open>Witnesses\<close>

lemma bench_run: "\<exists>t. node_main (node_bench None) bench_args bench_node = Some (Inr EXIT_RADIO_FATAL, t)"
  by (simp add: node_run stay_up_def monitor_round_def CHECK_INTERVAL_S_def)

lemma bench_honest: "honest (node_bench sig)"
  by (simp add: honest_def node_bench_def)


theorem radio_failure_ends_node_witness: "\<exists>r t. node_main (node_bench None) bench_args bench_node = Some (r, t)"
proof (rule radio_failure_ends_node [where clk = "\<lambda>d. d" and T = 100])
  show "node_live (node_bench None) (\<lambda>d. d)" by (simp add: node_live_def node_bench_def)
qed (simp add: node_bench_def)

end
