(* ===== verification/Client.thy ===== *)
theory Client
  imports Platform
begin

text \<open>
  \<open>loraham-rns-client\<close> of \<open>loraham_rns/client.py\<close>: it starts an RNS client only when the shared instance of the
  configuration is there. The probe, a child process that asks Reticulum, and \<open>execvp\<close> are
  parameters; the arguments are given parsed.
\<close>

section \<open>The program\<close>

definition DEFAULT_HOST :: string where "DEFAULT_HOST = ''127.0.0.1''"
definition DEFAULT_PORT :: int where "DEFAULT_PORT = 37428"

text \<open>\<open>probe_p\<close>: the exit code of the child, or the exception of starting it and waiting for it.\<close>

record 'd client_platform = "'d platform" +
  probe_p :: "string \<Rightarrow> 'd \<Rightarrow> (exn + int) \<times> 'd"
  exec_p :: "string list \<Rightarrow> 'd \<Rightarrow> exn option \<times> 'd"

text \<open>\<open>answers\<close> records what the probes said; \<open>image\<close> is the command that replaced this process.\<close>

record 'd client = "'d world" +
  answers :: "(exn + int) list"
  image :: "string list option"

record client_args =
  c_configdir :: string
  c_host :: string
  c_port :: int
  c_wait :: real
  c_command :: "string list"

definition probe_ok :: "exn + int \<Rightarrow> exn + bool" where
  "probe_ok r = (case r of Inr c \<Rightarrow> Inr (c = 0)
     | Inl e \<Rightarrow> if is_OSError e \<or> e = SubprocessError then Inr False else Inl e)"

definition probe :: "('d, 'y) client_platform_scheme \<Rightarrow> string \<Rightarrow> ('d client, bool) py" where
  "probe E configdir = bindM (askM (probe_p E configdir)) (\<lambda>r.
     thenM (modM (\<lambda>s. s\<lparr>answers := answers s @ [r]\<rparr>)) (ofE (probe_ok r)))"

definition instance_present :: "('d, 'y) client_platform_scheme \<Rightarrow> string \<Rightarrow> string \<Rightarrow> int \<Rightarrow> real \<Rightarrow> ('d client, bool) py" where
  "instance_present E configdir host port timeout = bindM (timeM E) (\<lambda>start. loopM (bindM (probe E configdir) (\<lambda>ok.
     if ok then ret (Some True)
     else bindM (timeM E) (\<lambda>now. if start + max timeout 0 \<le> now then ret (Some False)
       else thenM (sleepM E 0.5) (ret None)))))"

definition the_command :: "string list \<Rightarrow> string list" where
  "the_command command = (if take 1 command = [''--''] then drop 1 command else command)"

text \<open>\<open>None\<close>: the process was replaced. Without a command \<open>ap.error\<close> exits with 2.\<close>

definition client_main :: "('d, 'y) client_platform_scheme \<Rightarrow> client_args \<Rightarrow> ('d client, int option) py" where
  "client_main E a = (let cmd = the_command (c_command a) in
     if cmd = [] then raise (SystemExit 2)
     else bindM (instance_present E (c_configdir a) (c_host a) (c_port a) (c_wait a)) (\<lambda>present.
       if \<not> present then ret (Some 3)
       else thenM (callM (exec_p E cmd)) (thenM (modM (\<lambda>s. s\<lparr>image := Some cmd\<rparr>)) (ret None))))"

section \<open>A client runs only with an owner\<close>

definition confirmed :: "(exn + int) list \<Rightarrow> bool" where
  "confirmed rs \<longleftrightarrow> rs \<noteq> [] \<and> last rs = Inr 0 \<and> (\<forall>r \<in> set (butlast rs). r \<noteq> Inr 0)"

definition refused :: "(exn + int) list \<Rightarrow> bool" where
  "refused rs \<longleftrightarrow> (\<forall>r \<in> set rs. r \<noteq> Inr 0)"

lemma wp_instance_present:
  assumes "answers s = []" "image s = None"
  shows "wp (instance_present E configdir host port timeout)
    (\<lambda>ok t. image t = None \<and> (if ok then confirmed (answers t) else answers t \<noteq> [] \<and> refused (answers t))) (\<lambda>_ t. image t = None \<and> refused (answers t)) s"
proof -
  let ?I = "\<lambda>t. image t = None \<and> refused (answers t)"
  let ?Q = "\<lambda>ok t. image t = None \<and> (if ok then confirmed (answers t) else answers t \<noteq> [] \<and> refused (answers t))"
  have "wp (loopM (bindM (probe E configdir) (\<lambda>ok. if ok then ret (Some True)
     else bindM (timeM E) (\<lambda>now. if start + max timeout 0 \<le> now then ret (Some False)
       else thenM (sleepM E 0.5) (ret None))))) ?Q (\<lambda>_. ?I) t" if "?I t" for t :: "'a client" and start
  proof (rule wp_loopM [where I = ?I])
    fix u :: "'a client" assume u: "?I u"
    then show "wp (bindM (probe E configdir) (\<lambda>ok. if ok then ret (Some True)
        else bindM (timeM E) (\<lambda>now. if start + max timeout 0 \<le> now then ret (Some False) else thenM (sleepM E 0.5) (ret None))))
      (\<lambda>r t. case r of None \<Rightarrow> ?I t | Some x \<Rightarrow> ?Q x t) (\<lambda>_. ?I) u"
      by (auto simp: probe_def probe_ok_def timeM_def refused_def confirmed_def intro!: wp_sleepM split: sum.split)
  qed (use that in auto)
  then show ?thesis using assms by (simp add: instance_present_def timeM_def refused_def)
qed


text \<open>The options \<open>--host\<close> and \<open>--port\<close> have no influence.\<close>

lemma host_and_port_unused: "client_main E (a\<lparr>c_host := host, c_port := port\<rparr>) = client_main E a"
  by (simp add: client_main_def instance_present_def Let_def)

section \<open>Witness\<close>

definition client_bench :: "nat client_platform" where
  "client_bench = \<lparr>os_call_p = (\<lambda>_ d. (None, d)), os_write_p = (\<lambda>n d. (n, d)), time_p = (\<lambda>d. (real d, d)),
     monotonic_p = (\<lambda>d. (real d, d)), sleep_p = (\<lambda>_ d. (False, d + 1)), random_p = (\<lambda>d. (0, d)), boot_id_p = [], lock_dir_p = (\<lambda>_. None),
     cs_gpios_p = (\<lambda>_. None), cs_gpios_size_p = (\<lambda>_ _. None), spi_open_p = (\<lambda>_ _ d. (True, d)), no_cs_p = (\<lambda>d. (Inr True, d)),
     spi_xfer2_p = (\<lambda>_ d. (None, d)), line_set_p = (\<lambda>_ _ d. (True, d)), line_get_p = (\<lambda>_ d. (None, d)),
     line_request_p = (\<lambda>_ d. (True, d)), edge_wait_p = (\<lambda>_ d. (None, d)),
     probe_p = (\<lambda>_ d. (Inr (if d < 2 then 1 else 0), d)), exec_p = (\<lambda>_ d. (None, d))\<rparr>"

lemma bench_client: "\<exists>t. client_main client_bench \<lparr>c_configdir = ''/cfg'', c_host = DEFAULT_HOST, c_port = DEFAULT_PORT, c_wait = 5,
    c_command = [''--'', ''lxmd'']\<rparr> \<lparr>dev = 0, answers = [], image = None\<rparr> = Some (Inr None, t)"
  by (simp add: client_main_def the_command_def instance_present_def probe_def probe_ok_def loopM.simps timeM_def sleepM_def callM_def
    client_bench_def Let_def py_defs)


end
