(* ===== verification/Sideband.thy ===== *)
theory Sideband
  imports Platform
begin

text \<open>
  \<open>scripts/enable_sideband_plugins.py\<close>: it sets two keys of Sideband's configuration file and replaces
  the file atomically with owner-only permissions. The serialisation is the library umsgpack of RNS and a
  parameter; a configuration is a map whose other values are opaque.
\<close>

section \<open>The program\<close>

datatype mpval = MBool bool | MStr string | MOpaque nat

type_synonym mpdict = "mpval \<rightharpoonup> mpval"

text \<open>What a decoded document is: a dict or something else.\<close>

datatype mpdoc = MDict mpdict | MOther

record 'd sb_platform = "'d platform" +
  unpackb_p :: "byte list \<Rightarrow> exn + mpdoc"
  packb_p :: "mpdict \<Rightarrow> byte list"
  umask_p :: int
  makedirs_p :: "string \<Rightarrow> 'd \<Rightarrow> exn option \<times> 'd"
  open_conf_p :: "'d \<Rightarrow> exn option \<times> 'd"
  stat_ok_p :: "'d \<Rightarrow> bool \<times> 'd"
  open_new_p :: "'d \<Rightarrow> exn option \<times> 'd"
  chmod_p :: "'d \<Rightarrow> errno option \<times> 'd"

text \<open>A file is its bytes and its mode; \<open>conf_file\<close> is the configuration, \<open>new_file\<close> the temporary file.\<close>

record 'd sb = "'d world" +
  conf_file :: "(byte list \<times> int) option"
  new_file :: "(byte list \<times> int) option"
  fds :: nat

definition read_config :: "('d, 'y) sb_platform_scheme \<Rightarrow> ('d sb, mpdict option) py" where
  "read_config E = bindM (getM conf_file) (\<lambda>f. case f of None \<Rightarrow> ret (Some (\<lambda>_. None))
     | Some (bs, _) \<Rightarrow> try_except (bindM (callM (open_conf_p E)) (\<lambda>_. bindM (ofE (unpackb_p E bs)) (\<lambda>doc.
           ret (case doc of MDict m \<Rightarrow> Some m | MOther \<Rightarrow> None))))
         (\<lambda>e. if is_Exception e then ret None else raise e))"

definition with_plugins :: "string \<Rightarrow> mpdict \<Rightarrow> mpdict" where
  "with_plugins plugins_dir m = m(MStr ''service_plugins_enabled'' \<mapsto> MBool True, MStr ''command_plugins_path'' \<mapsto> MStr plugins_dir)"

text \<open>The mode of the new file: the old one within owner-only, and 0600 when nothing is left.\<close>

definition conf_mode :: "('d, 'y) sb_platform_scheme \<Rightarrow> ('d sb, int) py" where
  "conf_mode E = bindM (getM conf_file) (\<lambda>f. bindM (askM (stat_ok_p E)) (\<lambda>ok.
     let mode = (case f of Some (_, m) \<Rightarrow> if ok then m AND 0x180 else 0x180 | None \<Rightarrow> 0x180)
     in ret (if mode = 0 then 0x180 else mode)))"

definition open_new :: "('d, 'y) sb_platform_scheme \<Rightarrow> int \<Rightarrow> ('d sb, unit) py" where
  "open_new E mode = bindM (getM new_file) (\<lambda>t. if t \<noteq> None then raise (OSError EEXIST)
     else seqM [callM (open_new_p E), modM (\<lambda>s. s\<lparr>new_file := Some ([], mode AND NOT (umask_p E)), fds := Suc (fds s)\<rparr>)])"

text \<open>\<open>os.write\<close> once: the number of bytes it took is not looked at.\<close>

definition write_new :: "('d, 'y) sb_platform_scheme \<Rightarrow> byte list \<Rightarrow> ('d sb, unit) py" where
  "write_new E bs = thenM (osM E WriteTmp) (bindM (askM (os_write_p E (length bs))) (\<lambda>n.
     modM (\<lambda>s. s\<lparr>new_file := map_option (\<lambda>(_, m). (take n bs, m)) (new_file s)\<rparr>)))"

definition chmod_new :: "('d, 'y) sb_platform_scheme \<Rightarrow> int \<Rightarrow> ('d sb, unit) py" where
  "chmod_new E mode = bindM (askM (chmod_p E)) (\<lambda>err. case err of Some e \<Rightarrow> raise (OSError e)
     | None \<Rightarrow> modM (\<lambda>s. s\<lparr>new_file := map_option (\<lambda>(bs, _). (bs, mode)) (new_file s)\<rparr>))"

definition close_fd_sb :: "('d sb, unit) py" where
  "close_fd_sb = modM (\<lambda>s. s\<lparr>fds := fds s - 1\<rparr>)"

definition install :: "('d, 'y) sb_platform_scheme \<Rightarrow> mpdict \<Rightarrow> int \<Rightarrow> ('d sb, unit) py" where
  "install E m mode = seqM
     [try_finally (thenM (write_new E (packb_p E m)) (osM E FsyncTmp)) close_fd_sb,
      chmod_new E mode,
      osM E RenameTmp,
      modM (\<lambda>s. s\<lparr>conf_file := new_file s, new_file := None\<rparr>),
      osM E OpenDir,
      modM (\<lambda>s. s\<lparr>fds := Suc (fds s)\<rparr>),
      try_finally (osM E FsyncDir) close_fd_sb]"

definition unlink_new :: "('d, 'y) sb_platform_scheme \<Rightarrow> ('d sb, unit) py" where
  "unlink_new E = try_except (thenM (osM E UnlinkTmp) (modM (\<lambda>s. s\<lparr>new_file := None\<rparr>)))
     (\<lambda>e. if is_OSError e then ret () else raise e)"

definition sideband_main :: "('d, 'y) sb_platform_scheme \<Rightarrow> string list \<Rightarrow> ('d sb, int) py" where
  "sideband_main E argv = (if length argv \<noteq> 3 then ret 2
     else thenM (callM (makedirs_p E (argv ! 1 @ ''/app_storage''))) (thenM (callM (makedirs_p E (argv ! 2)))
       (bindM (read_config E) (\<lambda>config. case config of None \<Rightarrow> ret 1
        | Some m \<Rightarrow> bindM (conf_mode E) (\<lambda>mode. thenM (open_new E mode)
            (try_except (thenM (install E (with_plugins (argv ! 2) m) mode) (ret 0))
              (\<lambda>e. if is_OSError e then thenM (unlink_new E) (ret 1) else raise e)))))))"

section \<open>The configuration is kept or replaced as a whole\<close>

text \<open>The configuration the run starts from; a missing file is an empty one.\<close>

definition starts_from :: "('d, 'y) sb_platform_scheme \<Rightarrow> 'd sb \<Rightarrow> mpdict \<Rightarrow> bool" where
  "starts_from E s m \<longleftrightarrow> (case conf_file s of None \<Rightarrow> m = (\<lambda>_. None) | Some (bs, _) \<Rightarrow> unpackb_p E bs = Inr (MDict m))"

text \<open>Readable or writable by the owner, by nobody else.\<close>

definition owner_only :: "int \<Rightarrow> bool" where
  "owner_only mode \<longleftrightarrow> mode \<in> {0x180, 0x100, 0x080}"

text \<open>The file system takes every write whole.\<close>

definition writes_whole :: "('d, 'y) sb_platform_scheme \<Rightarrow> bool" where
  "writes_whole E \<longleftrightarrow> (\<forall>k d. fst (os_write_p E k d) = k)"

text \<open>\<open>bs'\<close> is what one write of \<open>bs\<close> can leave.\<close>

definition written :: "('d, 'y) sb_platform_scheme \<Rightarrow> byte list \<Rightarrow> byte list \<Rightarrow> bool" where
  "written E bs bs' \<longleftrightarrow> (\<exists>n. bs' = take n bs) \<and> (writes_whole E \<longrightarrow> bs' = bs)"

definition plugins_installed :: "('d, 'y) sb_platform_scheme \<Rightarrow> string \<Rightarrow> 'd sb \<Rightarrow> 'd sb \<Rightarrow> bool" where
  "plugins_installed E dir s t \<longleftrightarrow> (\<exists>m bs mode. starts_from E s m \<and> owner_only mode \<and>
     conf_file t = Some (bs, mode) \<and> written E (packb_p E (with_plugins dir m)) bs)"

lemma mode_table: "list_all (\<lambda>m. m AND 0x180 \<in> {0, 0x180, 0x100, 0x080 :: int}) [0..511]"
  by code_simp

lemma and_0x180: "(m :: int) AND 0x180 \<in> {0, 0x180, 0x100, 0x080}"
proof -
  have "m AND 0x180 = (m AND 0x1FF) AND 0x180" by (simp add: and.assoc)
  also have "m AND 0x1FF = m mod 512" using take_bit_eq_mask [of 9 m] by (simp add: take_bit_eq_mod mask_eq_exp_minus_1)
  finally have "m AND 0x180 = (m mod 512) AND 0x180" .
  moreover have "m mod 512 \<in> set [0..511]" by simp
  ultimately show ?thesis using mode_table unfolding list_all_iff by metis
qed

lemma wp_conf_mode:
  "(\<And>mode d. owner_only mode \<Longrightarrow> Q mode (s\<lparr>dev := d\<rparr>)) \<Longrightarrow> wp (conf_mode E) Q X s"
  using and_0x180 by (auto simp: conf_mode_def Let_def owner_only_def split: option.split)

lemma wp_read_config:
  assumes "\<And>m d. starts_from E s m \<Longrightarrow> Q (Some m) (s\<lparr>dev := d\<rparr>)" "\<And>d. Q None (s\<lparr>dev := d\<rparr>)" "\<And>e d. X e (s\<lparr>dev := d\<rparr>)"
    "conf_file s = None \<Longrightarrow> Q (Some (\<lambda>_. None)) s"
  shows "wp (read_config E) Q X s"
  using assms by (auto simp: read_config_def starts_from_def intro!: wp_callM split: option.split sum.split mpdoc.split)

text \<open>While the new file is prepared the configuration is untouched.\<close>

definition prepared :: "('d, 'y) sb_platform_scheme \<Rightarrow> byte list \<Rightarrow> int \<Rightarrow> nat \<Rightarrow> 'd sb \<Rightarrow> 'd sb \<Rightarrow> bool" where
  "prepared E bs mode f s t \<longleftrightarrow> conf_file t = conf_file s \<and> fds t = f \<and> (\<exists>bs'. new_file t = Some (bs', mode) \<and> written E bs bs')"

definition kept_conf :: "nat \<Rightarrow> 'd sb \<Rightarrow> 'd sb \<Rightarrow> bool" where
  "kept_conf f s t \<longleftrightarrow> conf_file t = conf_file s \<and> fds t = f"

definition replaced_conf :: "('d, 'y) sb_platform_scheme \<Rightarrow> byte list \<Rightarrow> int \<Rightarrow> nat \<Rightarrow> 'd sb \<Rightarrow> bool" where
  "replaced_conf E bs mode f t \<longleftrightarrow> fds t = f \<and> (\<exists>bs'. conf_file t = Some (bs', mode) \<and> written E bs bs')"

lemma kept_updates [simp]:
  "kept_conf f s (t\<lparr>dev := d\<rparr>) = kept_conf f s t" "kept_conf f s (t\<lparr>new_file := n\<rparr>) = kept_conf f s t"
  "kept_conf f s (t\<lparr>fds := k\<rparr>) \<longleftrightarrow> conf_file t = conf_file s \<and> k = f" "prepared E bs mode f s (t\<lparr>dev := d\<rparr>) = prepared E bs mode f s t"
  "replaced_conf E bs mode f (t\<lparr>dev := d\<rparr>) = replaced_conf E bs mode f t" "replaced_conf E bs mode f (t\<lparr>new_file := n\<rparr>) = replaced_conf E bs mode f t"
  by (auto simp: kept_conf_def prepared_def replaced_conf_def)

lemma wp_write_new:
  assumes "new_file s = Some (b, mo)" "fds s = Suc f"
  shows "wp (try_finally (thenM (write_new E bs) (osM E FsyncTmp)) close_fd_sb) (\<lambda>_. prepared E bs mo f s) (\<lambda>_. kept_conf f s) s"
proof -
  have "writes_whole E \<Longrightarrow> take (fst (os_write_p E (length bs) d)) bs = bs" for d by (simp add: writes_whole_def)
  then have "prepared E bs mo f s (s\<lparr>new_file := Some (take (fst (os_write_p E (length bs) d)) bs, mo), dev := d', fds := f\<rparr>)" for d d'
    by (auto simp: prepared_def written_def)
  then show ?thesis
    unfolding write_new_def close_fd_sb_def wp_try_finally wp_thenM wp_bindM wp_askM wp_modM
    by (intro wp_osM) (simp_all add: assms prepared_def kept_conf_def)
qed

lemma wp_chmod_new:
  "prepared E bs mo f s t \<Longrightarrow> wp (chmod_new E mode) (\<lambda>_. prepared E bs mode f s) (\<lambda>_. kept_conf f s) t"
  by (auto simp: chmod_new_def prepared_def kept_conf_def split: option.split)

lemma wp_swap_in:
  assumes "prepared E bs mode f s t"
  shows "wp (thenM (osM E RenameTmp) (thenM (modM (\<lambda>s. s\<lparr>conf_file := new_file s, new_file := None\<rparr>))
      (thenM (osM E OpenDir) (thenM (modM (\<lambda>s. s\<lparr>fds := Suc (fds s)\<rparr>)) (try_finally (osM E FsyncDir) close_fd_sb)))))
    (\<lambda>_. replaced_conf E bs mode f) (\<lambda>_ x. kept_conf f s x \<or> replaced_conf E bs mode f x) t"
  unfolding close_fd_sb_def wp_try_finally wp_thenM wp_modM
  by (intro wp_osM) (use assms in \<open>auto simp: kept_conf_def prepared_def replaced_conf_def\<close>)

lemma wp_install:
  assumes "new_file s = Some (b, mo)" "fds s = Suc f"
  shows "wp (install E m mode) (\<lambda>_. replaced_conf E (packb_p E m) mode f)
    (\<lambda>_ t. kept_conf f s t \<or> replaced_conf E (packb_p E m) mode f t) s"
proof -
  let ?bs = "packb_p E m"
  have rest: "wp (chmod_new E mode) (\<lambda>_. wp (thenM (osM E RenameTmp) (thenM (modM (\<lambda>s. s\<lparr>conf_file := new_file s, new_file := None\<rparr>))
      (thenM (osM E OpenDir) (thenM (modM (\<lambda>s. s\<lparr>fds := Suc (fds s)\<rparr>)) (try_finally (osM E FsyncDir) close_fd_sb)))))
      (\<lambda>_. replaced_conf E ?bs mode f) (\<lambda>_ x. kept_conf f s x \<or> replaced_conf E ?bs mode f x))
      (\<lambda>_ x. kept_conf f s x \<or> replaced_conf E ?bs mode f x) t" if "prepared E ?bs mo f s t" for t
    by (rule wp_mono [OF wp_chmod_new [OF that]], erule wp_swap_in, simp)
  have last: "thenM (try_finally (osM E FsyncDir) close_fd_sb) (ret ()) = try_finally (osM E FsyncDir) close_fd_sb"
    by (rule ext) (simp add: thenM_def bindM_def ret_def split: option.split sum.split)
  show ?thesis
    unfolding install_def seqM.simps last wp_thenM [of "try_finally (thenM (write_new E ?bs) (osM E FsyncTmp)) close_fd_sb"]
      wp_thenM [of "chmod_new E mode"]
    by (rule wp_mono [OF wp_write_new [OF assms]], erule rest, simp)
qed

text \<open>How a run ends: the configuration as it was, or the whole new one with owner-only permissions.\<close>

definition sb_end :: "('d, 'y) sb_platform_scheme \<Rightarrow> string list \<Rightarrow> 'd sb \<Rightarrow> bool \<Rightarrow> 'd sb \<Rightarrow> bool" where
  "sb_end E argv s ok t \<longleftrightarrow> fds t = fds s \<and>
     (\<not> ok \<and> conf_file t = conf_file s \<or> length argv = 3 \<and> plugins_installed E (argv ! 2) s t)"

lemma wp_set_up:
  assumes "starts_from E s m" "owner_only mode" "length argv = 3" "conf_file u = conf_file s" "fds u = fds s"
  shows "wp (thenM (open_new E mode) (try_except (thenM (install E (with_plugins (argv ! 2) m) mode) (ret (0 :: int)))
      (\<lambda>e. if is_OSError e then thenM (unlink_new E) (ret (1 :: int)) else raise e)))
    (\<lambda>c. sb_end E argv s (c = 0)) (\<lambda>_. sb_end E argv s False) u"
proof -
  let ?bs = "packb_p E (with_plugins (argv ! 2) m)"
  have put: "sb_end E argv s ok t" if "replaced_conf E ?bs mode (fds s) t" for ok t
    using that assms(1-3) by (auto simp: replaced_conf_def sb_end_def plugins_installed_def)
  have keep: "sb_end E argv s False t" if "kept_conf (fds s) u t" for t
    using that assms(4) by (simp add: kept_conf_def sb_end_def)
  have fin: "sb_end E argv s False t" if "kept_conf (fds s) u t \<or> replaced_conf E ?bs mode (fds s) t" for t
    using that put keep by blast
  have unlink: "wp (if is_OSError e then thenM (unlink_new E) (ret (1 :: int)) else raise e) (\<lambda>c. sb_end E argv s (c = 0)) (\<lambda>_. sb_end E argv s False) t"
    if "kept_conf (fds s) u t \<or> replaced_conf E ?bs mode (fds s) t" for e t
    using that by (auto simp: unlink_new_def intro!: wp_osM fin)
  have inst: "wp (thenM (install E (with_plugins (argv ! 2) m) mode) (ret (0 :: int))) (\<lambda>c. sb_end E argv s (c = 0))
      (\<lambda>e x. kept_conf (fds s) u x \<or> replaced_conf E ?bs mode (fds s) x) t"
    if "new_file t = Some (b, mo)" "fds t = Suc (fds s)" "conf_file t = conf_file u" for b mo t
    unfolding wp_thenM wp_ret
    by (rule wp_mono [OF wp_install [OF that(1,2)]]) (use that(3) in \<open>auto simp: kept_conf_def intro: put\<close>)
  show ?thesis
    unfolding open_new_def wp_thenM wp_bindM wp_getM
  proof (cases "new_file u = None")
    case True
    have "wp (try_except (thenM (install E (with_plugins (argv ! 2) m) mode) (ret (0 :: int)))
        (\<lambda>e. if is_OSError e then thenM (unlink_new E) (ret (1 :: int)) else raise e)) (\<lambda>c. sb_end E argv s (c = 0)) (\<lambda>_. sb_end E argv s False) t"
      if "new_file t = Some ([], mo)" "fds t = Suc (fds s)" "conf_file t = conf_file u" for mo t
      unfolding wp_try_except by (rule wp_mono [OF inst [OF that]], assumption, rule unlink, assumption)
    with True show "wp (if new_file u \<noteq> None then raise (OSError EEXIST)
        else seqM [callM (open_new_p E), modM (\<lambda>s. s\<lparr>new_file := Some ([], mode AND NOT (umask_p E)), fds := Suc (fds s)\<rparr>)])
      (\<lambda>_. wp (try_except (thenM (install E (with_plugins (argv ! 2) m) mode) (ret (0 :: int)))
        (\<lambda>e. if is_OSError e then thenM (unlink_new E) (ret (1 :: int)) else raise e)) (\<lambda>c. sb_end E argv s (c = 0)) (\<lambda>_. sb_end E argv s False))
      (\<lambda>_. sb_end E argv s False) u"
      using assms(4,5) by (auto intro!: wp_callM keep simp: kept_conf_def)
  qed (use assms(4,5) in \<open>auto intro!: keep simp: kept_conf_def\<close>)
qed


section \<open>A short write\<close>

definition bench_dir :: string where "bench_dir = ''/opt/lhpc''"

text \<open>A serialiser that knows the two documents of the scenario; \<open>limit\<close> is how much one write takes.\<close>

definition sb_bench :: "nat \<Rightarrow> unit sb_platform" where
  "sb_bench limit = \<lparr>os_call_p = (\<lambda>_ d. (None, d)), os_write_p = (\<lambda>n d. (min n limit, d)), time_p = (\<lambda>d. (0, d)),
     monotonic_p = (\<lambda>d. (0, d)), sleep_p = (\<lambda>_ d. (False, d)), random_p = (\<lambda>d. (0, d)), boot_id_p = [], lock_dir_p = (\<lambda>_. None),
     cs_gpios_p = (\<lambda>_. None), cs_gpios_size_p = (\<lambda>_ _. None), spi_open_p = (\<lambda>_ _ d. (True, d)), no_cs_p = (\<lambda>d. (Inr True, d)),
     spi_xfer2_p = (\<lambda>_ d. (None, d)), line_set_p = (\<lambda>_ _ d. (True, d)), line_get_p = (\<lambda>_ d. (None, d)),
     line_request_p = (\<lambda>_ d. (True, d)), edge_wait_p = (\<lambda>_ d. (None, d)),
     unpackb_p = (\<lambda>bs. if bs = [1, 2, 3] then Inr (MDict (with_plugins bench_dir (\<lambda>_. None)))
       else if bs = [9] then Inr (MDict (\<lambda>_. None)) else Inl (ValueError ''umsgpack'')),
     packb_p = (\<lambda>_. [1, 2, 3]), umask_p = 0x12, makedirs_p = (\<lambda>_ d. (None, d)), open_conf_p = (\<lambda>d. (None, d)),
     stat_ok_p = (\<lambda>d. (True, d)), open_new_p = (\<lambda>d. (None, d)), chmod_p = (\<lambda>d. (None, d))\<rparr>"

definition bench_sb :: "unit sb" where
  "bench_sb = \<lparr>dev = (), conf_file = Some ([9], 0x1A4), new_file = None, fds = 0\<rparr>"

lemmas sb_run = sideband_main_def read_config_def conf_mode_def open_new_def install_def write_new_def chmod_new_def close_fd_sb_def
  callM_def osM_def bench_sb_def py_defs Let_def

text \<open>
  The result of \<open>os.write\<close> is not looked at: when the file system takes only a part (a disk that fills up), the truncated
  file replaces the operator's configuration, can no longer be read, and the run reports success.
\<close>

theorem short_write_destroys_settings:
  "\<exists>t. sideband_main (sb_bench 2) [''prog'', ''/cfg'', bench_dir] bench_sb = Some (Inr 0, t) \<and>
     starts_from (sb_bench 2) bench_sb (\<lambda>_. None) \<and> conf_file t = Some ([1, 2], 0x180) \<and> unpackb_p (sb_bench 2) [1, 2] = Inl (ValueError ''umsgpack'')"
  by (simp add: sb_run sb_bench_def starts_from_def)

section \<open>Witness\<close>

text \<open>A file system without a limit on one write.\<close>

definition sb_bench_whole :: "unit sb_platform" where
  "sb_bench_whole = (sb_bench 0)\<lparr>os_write_p := \<lambda>n d. (n, d)\<rparr>"

lemma bench_enable: "\<exists>t. sideband_main sb_bench_whole [''prog'', ''/cfg'', bench_dir] bench_sb = Some (Inr 0, t)"
  by (simp add: sb_run sb_bench_whole_def sb_bench_def)


end
