(* ===== verification/Spec2Isabelle.thy ===== *)
theory Spec2Isabelle
  imports Concurrency_Properties Location_Properties Node Client Sideband
begin

text \<open>
  A verification of the LoRaHAM interface for the Reticulum Network Stack (RNS): the Python package
  \<open>src/loraham_rns\<close>, the Sideband plugin \<open>src/plugins/lhpc_location.py\<close> and the script
  \<open>src/scripts/enable_sideband_plugins.py\<close>.

  \<^bold>\<open>The program.\<close> \<open>LoRaSPIInterface\<close> (\<open>interface.py\<close>) is an RNS interface on a LoRa radio that hangs on the SPI bus of a
  Raspberry Pi. It reads its section of the configuration, refuses what the band plan does not permit, resolves the board's wiring
  (\<open>profiles.py\<close>), opens the bus (\<open>spibus.py\<close>, shared with other processes through a lock file), drives an SX127x or an SX1262
  (\<open>radio.py\<close>, \<open>sx127x.py\<close>, \<open>sx126x.py\<close>), splits packets into RNode frames and joins them again (\<open>framing.py\<close>), asks the airtime account for
  every transmission (\<open>duty.py\<close>, a ledger on disk shared with other processes) and records every packet (\<open>rflog.py\<close>). A receive and a
  transmit thread share the radio. \<open>node.py\<close> runs RNS with this interface as a service and declares it ready, \<open>client.py\<close>
  starts an RNS client only next to a running service. The plugin and the script belong to the operator's Sideband.

  \<^bold>\<open>How code becomes definitions.\<close> A Python method is a value of type \<open>('s, 'a) py = 's \<Rightarrow> ((exn + 'a) \<times> 's) option\<close> (\<open>Py_Prelude\<close>): it reads and writes
  the object's record \<open>'s\<close>, returns or raises, and \<open>None\<close> stands for a call that never ends. \<open>bindM\<close>, \<open>try_except\<close>,
  \<open>try_finally\<close>, \<open>forM\<close> and \<open>loopM\<close> are the statements; \<open>loopM\<close> is a partial function without fuel, so that every termination
  theorem below is about the loop itself. An object that extends another is an extended record: \<open>bus\<close> (\<open>SpiBus\<close>), \<open>radio\<close>
  (a \<open>bus\<close> with its chip), \<open>iface\<close> (a \<open>radio\<close> with its account, log, queue and reassembler). Calls to the operating system,
  to RNS and to Sideband are fields of a platform record (\<open>Platform\<close> and its extensions in \<open>Ledger\<close>, \<open>Interface\<close>, \<open>Node\<close>,
  \<open>Client\<close>, \<open>Location\<close>, \<open>Sideband\<close>): each takes the device state \<open>dev\<close> and gives an answer and the next device state, so an answer can
  be anything and can differ from call to call. What a theorem needs of the platform is a named hypothesis (\<open>advancing\<close>, \<open>live\<close>, \<open>node_live\<close>: the clock moves on;
  \<open>reliable\<close>, \<open>writes_end\<close>, \<open>writes_whole\<close>: how files behave; \<open>honest\<close>: the file system and signals as the runner sees them;
  \<open>delivering\<close>: a socket gives its bytes in order), and a witness runs the code on a concrete platform that meets it.
  Integers are Python's unbounded \<open>int\<close>, bytes on the wire are words of 8 bits, and floats are \<open>pyfloat\<close>: a real, an infinity or NaN. Finite
  arithmetic on floats is exact; conversions that can overflow raise \<open>OverflowError\<close> as in Python.

  \<^bold>\<open>Theories.\<close>
  \<^item> \<open>Py_Prelude\<close>: exceptions, the combinators, \<open>wp\<close> (partial correctness with an exceptional postcondition), and the rule collections
    \<open>keeps_rules\<close> (an invariant holds after every outcome), \<open>tkeeps_rules\<close> (and the call ends) and \<open>raises_rules\<close> (which exceptions). \<open>Py_Text\<close>:
    strings, numbers and floats as the code uses them. \<open>Platform\<close>: the calls, clocks and deadlines.
  \<^item> \<open>Profiles\<close> (\<open>profiles.py\<close>): the table and \<open>resolve\<close>, exact on all setups and bands.
  \<^item> \<open>Framing\<close> (\<open>framing.py\<close>): \<open>frame\<close> and \<open>Reassembler\<close>; round trip, refinement of the firmware's receive rules, no frame lost silently.
  \<^item> \<open>SpiBus\<close> (\<open>spibus.py\<close>): construction, transactions, the bus protocol. \<open>Radio\<close> (\<open>radio.py\<close>): lines, reset, airtime. \<open>Sx127x\<close>, \<open>Sx126x\<close>
    (\<open>sx127x.py\<close>, \<open>sx126x.py\<close>): configuration down to registers and command bytes, transmission, reception. \<open>OnAir\<close>: which packets a trace of transfers
    loads into the transmit buffer.
  \<^item> \<open>Ledger\<close>, \<open>Duty\<close>, \<open>Duty_Properties\<close> (\<open>duty.py\<close>): the ledger as data and the abstract account; the file and lock operations; budget, refinement, fail-closed
    reading, atomic replacement, termination, clock steps.
  \<^item> \<open>Rflog\<close> (\<open>rflog.py\<close>): line formats, rollover, the two-segment contract, round trip of the text.
  \<^item> \<open>Policy\<close>, \<open>Interface\<close>, \<open>Interface_Properties\<close> (\<open>interface.py\<close>): configuration against the band plan; construction, threads, transmission and detach; what is
    radiated is charged first, what is sent reaches the peer, what is received is handed on.
  \<^item> \<open>Threads\<close> (\<open>interface.py\<close>): the interleaving of the two threads and a stop as a step relation over their program points.
  \<^item> \<open>Concurrency\<close>, \<open>Concurrency_Properties\<close> (\<open>interface.py\<close>): a machine that runs the code of each program point on one object under any schedule. It only
    takes steps of \<open>Threads\<close>; in every interleaving what goes on air was charged; the sequential rounds of \<open>Interface\<close> are the schedules in which one
    thread moves alone.
  \<^item> \<open>Exposure\<close>, \<open>Node\<close> (\<open>node.py\<close>): the exposure and listener checks on text; the runner, its exit codes, the readiness marker and the monitoring. \<open>Client\<close> (\<open>client.py\<close>).
  \<^item> \<open>Location\<close>, \<open>Location_Properties\<close> (\<open>lhpc_location.py\<close>): configuration, gpsd and NMEA readers, the fixed position, the sensor. \<open>Sideband\<close>
    (\<open>enable_sideband_plugins.py\<close>): the configuration is kept or replaced as a whole.

  \<^bold>\<open>Interfaces.\<close> The locale \<open>spi_bus\<close> states what the drivers rely on and \<open>SpiBus\<close> provides; \<open>radio_driver\<close> what the interface relies on, provided by both
  drivers; \<open>packet_reassembler\<close> and \<open>airtime_account\<close> the contracts of the reassembler and of the account; \<open>position_reader\<close> that of the two GPS readers.

  \<^bold>\<open>Loops and bounds.\<close> Loops that wait (locks, BUSY, transmit done, the ledger of another process, readiness) end because a clock with a least
  advance passes their deadline (\<open>rounds_fall\<close>, \<open>tkeeps_deadline\<close>); loops over bytes, lines and rows are structural or have a
  measure. In \<open>Threads\<close> a packet has one or two frames, which is what \<open>frame\<close> makes of every packet it accepts.

  \<^bold>\<open>Not modelled.\<close> Argument parsing (\<open>argparse\<close>), log messages to RNS, \<open>__str__\<close> and imports. The source of the probe that \<open>client.py\<close> runs in a child
  process is a string; the child is a parameter. RNS, gpiod, spidev, msgpack, JSON text and the kernel are parameters. Rounding of finite float arithmetic is left out.
  In \<open>Location\<close> text is over code points 0 to 255. The account and the log are used by one thread each at a time; other processes appear as steps
  on the disk wherever the code can be interrupted while it does not hold the lock. \<open>Concurrency\<close> interleaves at the program points of
  \<open>Threads\<close>: the code between two points is one step, and of \<open>detach\<close> it has the stop; the teardown after the stop (lines closed, radio asleep)
  is sequential, in \<open>Interface\<close>. Tests and documentation are not part of
  the program.
\<close>

end
